theory Spec2Isabelle
  imports Complex_Main "HOL-Library.Monad_Syntax"
begin

section \<open>Numbers, instants and results\<close>

text \<open>
  The program is TypeScript. Its numbers are IEEE-754 doubles; they are modelled as
  \<^typ>\<open>real\<close>, so rounding is not part of the model. The time value of a
  \<open>Date\<close> (\<open>getTime()\<close>, an integral number of milliseconds since
  1970-01-01T00:00:00Z) is an \<^typ>\<open>int\<close>; \<open>new Date(d.getTime() + k)\<close> is
  \<open>d + k\<close>. JavaScript confines the time value of a \<open>Date\<close> to
  \<open>\<plusminus>8.64e15\<close> ms (\<open>maxTime\<close>, the years \<open>\<plusminus>275760\<close>); a
  \<open>Date\<close> built from a number outside that range is an Invalid Date, whose time value
  is \<open>NaN\<close>. The model has no Invalid Date: its time values are all the integers, and
  it follows the source as long as the instants a search visits are time values of a
  \<open>Date\<close> (\<open>validTime\<close>). The characterisation of the exhausted search is
  stated under that condition.

  Three copies of the calculator are in the repository. Two are modelled. The self-contained one
  (an \<open>App.tsx\<close> with its own lunar series, 30 minute coarse step and a 30 day
  search horizon) keeps the source's names. The one in
  \<open>utils/nakshatra-calculator\<close> (tropical longitude from the global
  \<open>window.SunCalc\<close>, one hour coarse step, no horizon) carries the suffix
  \<open>_util\<close>. The third (\<open>src/App.tsx\<close>, mean motion only) is not modelled.
\<close>

type_synonym date = int

definition maxTime :: int where
  "maxTime = 8640000000000000"

definition validTime :: "int \<Rightarrow> bool" where
  "validTime t \<longleftrightarrow> - maxTime \<le> t \<and> t \<le> maxTime"

record NakshatraPeriod =
  start :: date
  end' :: date

datatype error =
  SearchExhausted \<comment> \<open>\<open>Error('Could not find Swathi period within 30 days')\<close>\<close>
  | SunCalcNotLoaded \<comment> \<open>\<open>Error("SunCalc library is not loaded. ...")\<close>\<close>

section \<open>Band constants and the band predicate\<close>

definition NAKSHATRA_SPAN_DEGREES :: real where
  "NAKSHATRA_SPAN_DEGREES = 360 / 27"

definition SWATHI_START_DEGREES :: real where
  "SWATHI_START_DEGREES = (15 - 1) * NAKSHATRA_SPAN_DEGREES"

definition SWATHI_END_DEGREES :: real where
  "SWATHI_END_DEGREES = 15 * NAKSHATRA_SPAN_DEGREES"

definition isSwathi :: "real \<Rightarrow> bool" where
  "isSwathi longitude \<longleftrightarrow>
     longitude \<ge> SWATHI_START_DEGREES \<and> longitude < SWATHI_END_DEGREES"

section \<open>Ayanamsha\<close>

text \<open>
  \<open>new Date('2000-01-01T12:00:00Z').getTime()\<close>: 10957 days from 1970-01-01 to
  2000-01-01 (30 years, 7 of them leap years) and 12 hours.
\<close>

definition J2000 :: date where
  "J2000 = 10957 * 86400000 + 12 * 3600000"

definition AYANAMSHA_AT_J2000 :: real where
  "AYANAMSHA_AT_J2000 = 23.85575"

definition PRECESSION_RATE_DEG_PER_YEAR :: real where
  "PRECESSION_RATE_DEG_PER_YEAR = 50.29 / 3600"

definition yearsSinceJ2000 :: "date \<Rightarrow> real" where
  "yearsSinceJ2000 date = (real_of_int date - real_of_int J2000) / (1000 * 60 * 60 * 24 * 365.25)"

definition getLahiriAyanamsha :: "date \<Rightarrow> real" where
  "getLahiriAyanamsha date =
     AYANAMSHA_AT_J2000 + (yearsSinceJ2000 date * PRECESSION_RATE_DEG_PER_YEAR)"

section \<open>Lunar longitude, self-contained version\<close>

text \<open>
  The remainder operator \<open>%\<close> of JavaScript on numbers: the quotient is truncated
  towards zero, so the result has the sign of the dividend.
\<close>

definition js_rem :: "real \<Rightarrow> real \<Rightarrow> real" where
  "js_rem x m = x - m * real_of_int (if 0 \<le> x / m then \<lfloor>x / m\<rfloor> else \<lceil>x / m\<rceil>)"

definition toRad :: "real \<Rightarrow> real" where
  "toRad deg = deg * pi / 180"

text \<open>
  The function \<open>getMoonSiderealLongitude\<close> of the source is one body. Its local
  values are constants here: \<open>T\<close> is \<open>julianCenturies\<close>, \<open>Lp\<close> is
  \<open>moonMeanLongitude\<close>, \<open>D\<close> is \<open>moonMeanElongation\<close>, \<open>M\<close> is
  \<open>sunMeanAnomaly\<close>, \<open>Mp\<close> is \<open>moonMeanAnomaly\<close> and \<open>F\<close> is
  \<open>moonArgLatitude\<close>.
\<close>

definition julianCenturies :: "date \<Rightarrow> real" where
  "julianCenturies date = ((real_of_int date / 86400000 + 2440587.5) - 2451545.0) / 36525"

definition moonMeanLongitude :: "real \<Rightarrow> real" where
  "moonMeanLongitude T =
     218.3164477 + 481267.88123421 * T - 0.0015786 * T * T + T * T * T / 538841
       - T * T * T * T / 65194000"

definition moonMeanElongation :: "real \<Rightarrow> real" where
  "moonMeanElongation T =
     297.8501921 + 445267.1114034 * T - 0.0018819 * T * T + T * T * T / 545868
       - T * T * T * T / 113065000"

definition sunMeanAnomaly :: "real \<Rightarrow> real" where
  "sunMeanAnomaly T =
     357.5291092 + 35999.0502909 * T - 0.0001536 * T * T + T * T * T / 24490000"

definition moonMeanAnomaly :: "real \<Rightarrow> real" where
  "moonMeanAnomaly T =
     134.9633964 + 477198.8675055 * T + 0.0087414 * T * T + T * T * T / 69699
       - T * T * T * T / 14712000"

definition moonArgLatitude :: "real \<Rightarrow> real" where
  "moonArgLatitude T =
     93.2720950 + 483202.0175233 * T - 0.0036539 * T * T - T * T * T / 3526000
       + T * T * T * T / 863310000"

text \<open>The periodic terms, in the order of the source's \<open>sigmaL += ...\<close> lines.\<close>

definition sigmaL :: "real \<Rightarrow> real \<Rightarrow> real \<Rightarrow> real \<Rightarrow> real" where
  "sigmaL Dr Mr Mpr Fr =
     0 + 6288774 * sin Mpr
       + 1274027 * sin (2 * Dr - Mpr)
       + 658314 * sin (2 * Dr)
       + 213618 * sin (2 * Mpr)
       + (- 185116) * sin Mr
       + (- 114332) * sin (2 * Fr)
       + 58793 * sin (2 * Dr - 2 * Mpr)
       + 57066 * sin (2 * Dr - Mr - Mpr)
       + 53322 * sin (2 * Dr + Mpr)
       + 45758 * sin (2 * Dr - Mr)
       + (- 40923) * sin (Mr - Mpr)
       + (- 34720) * sin Dr
       + (- 30383) * sin (Mr + Mpr)
       + 15327 * sin (2 * Dr - 2 * Fr)
       + (- 12528) * sin (Mpr + 2 * Fr)
       + 10980 * sin (Mpr - 2 * Fr)
       + 10675 * sin (4 * Dr - Mpr)
       + 10034 * sin (3 * Mpr)
       + 8548 * sin (4 * Dr - 2 * Mpr)
       + (- 7888) * sin (2 * Dr + Mr - Mpr)
       + (- 6766) * sin (2 * Dr + Mr)
       + (- 5163) * sin (Dr - Mpr)"

text \<open>
  The value of \<open>Lp + sigmaL / 1000000\<close> before it is normalised, as a function of
  the Julian centuries \<open>T\<close>.
\<close>

definition moonLongitudeSeries :: "real \<Rightarrow> real" where
  "moonLongitudeSeries T =
     (let Lp = moonMeanLongitude T;
          D = moonMeanElongation T;
          M = sunMeanAnomaly T;
          Mp = moonMeanAnomaly T;
          F = moonArgLatitude T
      in Lp + sigmaL (toRad D) (toRad M) (toRad Mp) (toRad F) / 1000000)"

definition moonTropicalLongitude :: "date \<Rightarrow> real" where
  "moonTropicalLongitude date =
     (let T = julianCenturies date;
          tropicalLongitude = moonLongitudeSeries T;
          tropicalLongitude = js_rem tropicalLongitude 360
      in if tropicalLongitude < 0 then tropicalLongitude + 360 else tropicalLongitude)"

definition getMoonSiderealLongitude :: "date \<Rightarrow> real" where
  "getMoonSiderealLongitude date =
     (let tropicalLongitude = moonTropicalLongitude date;
          ayanamsha = getLahiriAyanamsha date;
          siderealLongitude = tropicalLongitude - ayanamsha;
          siderealLongitude =
            (if siderealLongitude < 0 then siderealLongitude + 360 else siderealLongitude);
          siderealLongitude =
            (if siderealLongitude \<ge> 360 then siderealLongitude - 360 else siderealLongitude)
      in siderealLongitude)"

section \<open>Lunar longitude, SunCalc version\<close>

text \<open>
  \<open>window.SunCalc\<close> is not code of the repository. It is a parameter: \<open>None\<close>
  when the global is undefined, otherwise the function that gives, for a time value,
  the \<open>eclipticLon\<close> (radians) of \<open>SunCalc.getMoonPosition(date)\<close>.

  This version corrects the difference \<open>tropical - ayanamsha\<close> once: it adds a turn
  to a negative difference and has no test for \<open>360\<close>. In the source the sum is
  rounded to a double, and for a difference just below zero the rounded sum is \<open>360\<close>
  itself. The sum of the model is exact, so what is proved about the upper end of the
  range of this function is proved with the closed bound, which holds for both.
\<close>

type_synonym sunCalc = "(date \<Rightarrow> real) option"

definition siderealFromEcliptic :: "(date \<Rightarrow> real) \<Rightarrow> date \<Rightarrow> real" where
  "siderealFromEcliptic eclipticLon date =
     (let tropicalLongitude = eclipticLon date * (180 / pi);
          ayanamsha = getLahiriAyanamsha date;
          siderealLongitude = tropicalLongitude - ayanamsha
      in if siderealLongitude < 0 then siderealLongitude + 360 else siderealLongitude)"

definition getLunarSiderealLongitude :: "sunCalc \<Rightarrow> date \<Rightarrow> error + real" where
  "getLunarSiderealLongitude sc date =
     (case sc of
        None \<Rightarrow> Inl SunCalcNotLoaded
      | Some eclipticLon \<Rightarrow> Inr (siderealFromEcliptic eclipticLon date))"

section \<open>The period locator\<close>

text \<open>
  Every scan of the source is a \<open>while\<close> loop over one \<open>Date\<close> variable:
  \<open>while (cond(d)) { d = new Date(d.getTime() + step) }\<close>. Nothing in the loop
  bounds the number of iterations, so the loop is a partial function: \<open>None\<close>
  is a scan that never ends.
\<close>

partial_function (option) scan :: "(date \<Rightarrow> bool) \<Rightarrow> int \<Rightarrow> date \<Rightarrow> date option" where
  "scan cond step d = (if cond d then scan cond step (d + step) else Some d)"

subsection \<open>Self-contained version\<close>

definition coarseStep :: int where
  "coarseStep = 30 * 60 * 1000"

definition fineStep :: int where
  "fineStep = 60 * 1000"

definition searchHorizon :: int where
  "searchHorizon = 30 * 24 * 60 * 60 * 1000"

text \<open>
  The forward coarse scan towards the next period. It is the one loop with a bound: the
  step comes first, then the test of the horizon, which throws. The scan creates
  at most 1441 Dates, the last one \<open>searchHorizon + coarseStep\<close> after the
  reference instant. In the source a step beyond \<open>maxTime\<close> gives an Invalid Date, on which
  both the band test and the test of the horizon are false; what is proved about the
  horizon is proved for reference instants whose last probe is a time value of a
  \<open>Date\<close>.
\<close>

function scanToNext :: "(date \<Rightarrow> real) \<Rightarrow> date \<Rightarrow> date \<Rightarrow> error + date" where
  "scanToNext lon currentDate searchDate =
     (if \<not> isSwathi (lon searchDate) then
        (let searchDate = searchDate + coarseStep
         in if searchDate - currentDate > searchHorizon then Inl SearchExhausted
            else scanToNext lon currentDate searchDate)
      else Inr searchDate)"
  by pat_completeness auto
termination
  by (relation "measure (\<lambda>(lon, currentDate, searchDate).
        nat (searchHorizon + 1 - (searchDate - currentDate)))")
     (auto simp: coarseStep_def)

declare scanToNext.simps [simp del]

text \<open>
  The longitude function is a parameter of the locator, so that the same text serves
  the program (\<open>getMoonSiderealLongitude\<close>) and a stand-in with values that can be
  computed.
\<close>

definition findPeriodWith :: "(date \<Rightarrow> real) \<Rightarrow> date \<Rightarrow> (error + NakshatraPeriod) option" where
  "findPeriodWith lon startDate =
     (let currentDate = startDate;
          longitude = lon currentDate
      in if isSwathi longitude then
           do {
             startFinder \<leftarrow> scan (\<lambda>d. isSwathi (lon d)) (- coarseStep) currentDate;
             startFinder \<leftarrow> scan (\<lambda>d. \<not> isSwathi (lon d)) fineStep startFinder;
             let periodStart = startFinder;
             endFinder \<leftarrow> scan (\<lambda>d. isSwathi (lon d)) coarseStep currentDate;
             endFinder \<leftarrow> scan (\<lambda>d. \<not> isSwathi (lon d)) (- fineStep) endFinder;
             let periodEnd = endFinder + fineStep;
             Some (Inr \<lparr>start = periodStart, end' = periodEnd\<rparr>)
           }
         else
           (case scanToNext lon currentDate currentDate of
              Inl e \<Rightarrow> Some (Inl e)
            | Inr searchDate \<Rightarrow>
                do {
                  searchDate \<leftarrow> scan (\<lambda>d. isSwathi (lon (d - fineStep))) (- fineStep) searchDate;
                  let periodStart = searchDate;
                  endFinder \<leftarrow> scan (\<lambda>d. isSwathi (lon d)) coarseStep periodStart;
                  endFinder \<leftarrow> scan (\<lambda>d. \<not> isSwathi (lon d)) (- fineStep) endFinder;
                  let periodEnd = endFinder + fineStep;
                  Some (Inr \<lparr>start = periodStart, end' = periodEnd\<rparr>)
                }))"

definition findCurrentOrNextSwathiPeriod :: "date \<Rightarrow> (error + NakshatraPeriod) option" where
  "findCurrentOrNextSwathiPeriod startDate = findPeriodWith getMoonSiderealLongitude startDate"

subsection \<open>SunCalc version\<close>

definition coarseStep_util :: int where
  "coarseStep_util = 60 * 60 * 1000"

text \<open>
  Both loops that look for the end have the same condition, so the second one
  ("Refine to the minute") starts where the first one stopped and its body never runs.
  There is no horizon in the scan towards the next period.
\<close>

definition findPeriodWith_util :: "(date \<Rightarrow> real) \<Rightarrow> date \<Rightarrow> NakshatraPeriod option" where
  "findPeriodWith_util lon startDate =
     (let currentDate = startDate;
          longitude = lon currentDate
      in if isSwathi longitude then
           do {
             startFinder \<leftarrow> scan (\<lambda>d. isSwathi (lon d)) (- coarseStep_util) currentDate;
             startFinder \<leftarrow> scan (\<lambda>d. \<not> isSwathi (lon d)) fineStep startFinder;
             let periodStart = startFinder;
             endFinder \<leftarrow> scan (\<lambda>d. isSwathi (lon d)) coarseStep_util currentDate;
             endFinder \<leftarrow> scan (\<lambda>d. isSwathi (lon d)) fineStep endFinder;
             let periodEnd = endFinder;
             Some \<lparr>start = periodStart, end' = periodEnd\<rparr>
           }
         else
           do {
             searchDate \<leftarrow> scan (\<lambda>d. \<not> isSwathi (lon d)) coarseStep_util currentDate;
             searchDate \<leftarrow> scan (\<lambda>d. isSwathi (lon (d - fineStep))) (- fineStep) searchDate;
             let periodStart = searchDate;
             endFinder \<leftarrow> scan (\<lambda>d. isSwathi (lon d)) coarseStep_util periodStart;
             endFinder \<leftarrow> scan (\<lambda>d. isSwathi (lon d)) fineStep endFinder;
             let periodEnd = endFinder;
             Some \<lparr>start = periodStart, end' = periodEnd\<rparr>
           })"

text \<open>
  \<open>getLunarSiderealLongitude\<close> throws when \<open>window.SunCalc\<close> is undefined. The
  function runs without a suspension point, so the global is the same at every call
  of one search: the first call (\<open>let longitude = ...\<close>) throws or none does.
\<close>

definition findCurrentOrNextSwathiPeriod_util ::
    "sunCalc \<Rightarrow> date \<Rightarrow> (error + NakshatraPeriod) option" where
  "findCurrentOrNextSwathiPeriod_util sc startDate =
     (case sc of
        None \<Rightarrow> Some (Inl SunCalcNotLoaded)
      | Some eclipticLon \<Rightarrow>
          map_option Inr (findPeriodWith_util (siderealFromEcliptic eclipticLon) startDate))"

section \<open>The locators on a store of Date objects\<close>

text \<open>
  A \<open>Date\<close> of the source is a mutable object: \<open>setTime\<close> changes it in place,
  two variables can hold the same object (\<open>const periodStart = startFinder\<close>), and
  the caller keeps the \<open>Date\<close> it passes in. Beside its argument a function of the
  source can read the system clock (\<open>new Date()\<close>, \<open>Date.now()\<close>) and the
  globals (\<open>window.SunCalc\<close>). To state which of these a locator reads and writes, both
  locators are modelled a second time, on a store. A \<open>world\<close> holds the time value
  of every \<open>Date\<close> object, the number of objects created so far (an object is
  addressed by its rank of creation), the global \<open>window.SunCalc\<close> and the clock.
  The locators of the previous section are the functions of time values that these
  programs compute (lemmas \<open>heap_outcome\<close>, \<open>heap_frame\<close>).
\<close>

type_synonym addr = nat

record world =
  dates :: "addr \<Rightarrow> date"
  allocated :: nat
  SunCalc :: sunCalc
  clock :: date

text \<open>\<open>d.getTime()\<close>, \<open>new Date(t)\<close> and \<open>d.setTime(t)\<close>.\<close>

definition getTime :: "world \<Rightarrow> addr \<Rightarrow> date" where
  "getTime w d = dates w d"

definition newDate :: "date \<Rightarrow> world \<Rightarrow> addr \<times> world" where
  "newDate t w =
     (allocated w, w\<lparr>dates := (dates w)(allocated w := t), allocated := Suc (allocated w)\<rparr>)"

definition setTime :: "addr \<Rightarrow> date \<Rightarrow> world \<Rightarrow> world" where
  "setTime d t w = w\<lparr>dates := (dates w)(d := t)\<rparr>"

text \<open>
  \<open>while (test) { body }\<close> over a state; the test may change the state (it can
  create a \<open>Date\<close>). \<open>None\<close> is a loop that never ends.
\<close>

partial_function (option) whileLoop :: "('s \<Rightarrow> bool \<times> 's) \<Rightarrow> ('s \<Rightarrow> 's) \<Rightarrow> 's \<Rightarrow> 's option" where
  "whileLoop test body s =
     (case test s of (b, s) \<Rightarrow> if b then whileLoop test body (body s) else Some s)"

text \<open>
  The state of a scan is its variable (the address it holds) and the world. The three
  tests of the source: \<open>isSwathi(lon(d))\<close>, \<open>!isSwathi(lon(d))\<close> and
  \<open>isSwathi(lon(new Date(d.getTime() - fineStep)))\<close>, which creates a \<open>Date\<close>
  each time it is evaluated.
\<close>

definition insideAt :: "(date \<Rightarrow> real) \<Rightarrow> addr \<times> world \<Rightarrow> bool \<times> addr \<times> world" where
  "insideAt lon = (\<lambda>(d, w). (isSwathi (lon (getTime w d)), (d, w)))"

definition outsideAt :: "(date \<Rightarrow> real) \<Rightarrow> addr \<times> world \<Rightarrow> bool \<times> addr \<times> world" where
  "outsideAt lon = (\<lambda>(d, w). (\<not> isSwathi (lon (getTime w d)), (d, w)))"

definition insideBefore :: "(date \<Rightarrow> real) \<Rightarrow> addr \<times> world \<Rightarrow> bool \<times> addr \<times> world" where
  "insideBefore lon =
     (\<lambda>(d, w). let (probe, w) = newDate (getTime w d - fineStep) w
               in (isSwathi (lon (getTime w probe)), (d, w)))"

text \<open>
  The two bodies: the self-contained version gives its variable a new object,
  \<open>d = new Date(d.getTime() + step)\<close>; the SunCalc version changes the object,
  \<open>d.setTime(d.getTime() + step)\<close>.
\<close>

definition stepNew :: "int \<Rightarrow> addr \<times> world \<Rightarrow> addr \<times> world" where
  "stepNew step = (\<lambda>(d, w). newDate (getTime w d + step) w)"

definition stepSet :: "int \<Rightarrow> addr \<times> world \<Rightarrow> addr \<times> world" where
  "stepSet step = (\<lambda>(d, w). (d, setTime d (getTime w d + step) w))"

subsection \<open>Self-contained version\<close>

partial_function (option) scanToNext_heap ::
    "(date \<Rightarrow> real) \<Rightarrow> addr \<Rightarrow> addr \<times> world \<Rightarrow> ((error + addr) \<times> world) option" where
  "scanToNext_heap lon currentDate s =
     (case s of (searchDate, w) \<Rightarrow>
        if \<not> isSwathi (lon (getTime w searchDate)) then
          (case newDate (getTime w searchDate + coarseStep) w of (searchDate, w) \<Rightarrow>
             if getTime w searchDate - getTime w currentDate > searchHorizon
             then Some (Inl SearchExhausted, w)
             else scanToNext_heap lon currentDate (searchDate, w))
        else Some (Inr searchDate, w))"

text \<open>
  The result is the pair of the addresses of \<open>periodStart\<close> and \<open>periodEnd\<close>
  (the object \<open>{ start, end }\<close>), or the error, with the world the call leaves.
\<close>

definition findPeriodWith_heap ::
    "(date \<Rightarrow> real) \<Rightarrow> addr \<Rightarrow> world \<Rightarrow> ((error + addr \<times> addr) \<times> world) option" where
  "findPeriodWith_heap lon startDate w =
     (let (currentDate, w) = newDate (getTime w startDate) w;
          longitude = lon (getTime w currentDate)
      in if isSwathi longitude then
           do {
             let (startFinder, w) = newDate (getTime w currentDate) w;
             (startFinder, w) \<leftarrow> whileLoop (insideAt lon) (stepNew (- coarseStep))
                (startFinder, w);
             (startFinder, w) \<leftarrow> whileLoop (outsideAt lon) (stepNew fineStep) (startFinder, w);
             let (periodStart, w) = newDate (getTime w startFinder) w;
             let (endFinder, w) = newDate (getTime w currentDate) w;
             (endFinder, w) \<leftarrow> whileLoop (insideAt lon) (stepNew coarseStep) (endFinder, w);
             (endFinder, w) \<leftarrow> whileLoop (outsideAt lon) (stepNew (- fineStep)) (endFinder, w);
             let (periodEnd, w) = newDate (getTime w endFinder + fineStep) w;
             Some (Inr (periodStart, periodEnd), w)
           }
         else
           do {
             let (searchDate, w) = newDate (getTime w currentDate) w;
             (found, w) \<leftarrow> scanToNext_heap lon currentDate (searchDate, w);
             case found of
               Inl e \<Rightarrow> Some (Inl e, w)
             | Inr searchDate \<Rightarrow>
                 do {
                   (searchDate, w) \<leftarrow> whileLoop (insideBefore lon) (stepNew (- fineStep))
                      (searchDate, w);
                   let (periodStart, w) = newDate (getTime w searchDate) w;
                   let (endFinder, w) = newDate (getTime w periodStart) w;
                   (endFinder, w) \<leftarrow> whileLoop (insideAt lon) (stepNew coarseStep)
                      (endFinder, w);
                   (endFinder, w) \<leftarrow> whileLoop (outsideAt lon) (stepNew (- fineStep))
                      (endFinder, w);
                   let (periodEnd, w) = newDate (getTime w endFinder + fineStep) w;
                   Some (Inr (periodStart, periodEnd), w)
                 }
           })"

definition findCurrentOrNextSwathiPeriod_heap ::
    "addr \<Rightarrow> world \<Rightarrow> ((error + addr \<times> addr) \<times> world) option" where
  "findCurrentOrNextSwathiPeriod_heap startDate w =
     findPeriodWith_heap getMoonSiderealLongitude startDate w"

subsection \<open>SunCalc version\<close>

text \<open>
  The body of the locator after \<open>let currentDate = new Date(startDate)\<close>, with the
  longitude function it gets from SunCalc. \<open>periodStart\<close> and \<open>periodEnd\<close> are the
  objects of the scans themselves.
\<close>

definition findPeriodWith_heap_util ::
    "(date \<Rightarrow> real) \<Rightarrow> addr \<Rightarrow> world \<Rightarrow> ((addr \<times> addr) \<times> world) option" where
  "findPeriodWith_heap_util lon currentDate w =
     (let longitude = lon (getTime w currentDate)
      in if isSwathi longitude then
           do {
             let (startFinder, w) = newDate (getTime w currentDate) w;
             (startFinder, w) \<leftarrow> whileLoop (insideAt lon) (stepSet (- coarseStep_util))
                (startFinder, w);
             (startFinder, w) \<leftarrow> whileLoop (outsideAt lon) (stepSet fineStep) (startFinder, w);
             let periodStart = startFinder;
             let (endFinder, w) = newDate (getTime w currentDate) w;
             (endFinder, w) \<leftarrow> whileLoop (insideAt lon) (stepSet coarseStep_util)
                (endFinder, w);
             (endFinder, w) \<leftarrow> whileLoop (insideAt lon) (stepSet fineStep) (endFinder, w);
             let periodEnd = endFinder;
             Some ((periodStart, periodEnd), w)
           }
         else
           do {
             let (searchDate, w) = newDate (getTime w currentDate) w;
             (searchDate, w) \<leftarrow> whileLoop (outsideAt lon) (stepSet coarseStep_util)
                (searchDate, w);
             (searchDate, w) \<leftarrow> whileLoop (insideBefore lon) (stepSet (- fineStep))
                (searchDate, w);
             let periodStart = searchDate;
             let (endFinder, w) = newDate (getTime w periodStart) w;
             (endFinder, w) \<leftarrow> whileLoop (insideAt lon) (stepSet coarseStep_util)
                (endFinder, w);
             (endFinder, w) \<leftarrow> whileLoop (insideAt lon) (stepSet fineStep) (endFinder, w);
             let periodEnd = endFinder;
             Some ((periodStart, periodEnd), w)
           })"

text \<open>
  The global is read by the first call of \<open>getLunarSiderealLongitude\<close>, after
  \<open>currentDate\<close> has been created. Nothing in the locator writes it.
\<close>

definition findCurrentOrNextSwathiPeriod_heap_util ::
    "addr \<Rightarrow> world \<Rightarrow> ((error + addr \<times> addr) \<times> world) option" where
  "findCurrentOrNextSwathiPeriod_heap_util startDate w =
     (let (currentDate, w) = newDate (getTime w startDate) w
      in case SunCalc w of
           None \<Rightarrow> Some (Inl SunCalcNotLoaded, w)
         | Some eclipticLon \<Rightarrow>
             map_option (\<lambda>(p, w). (Inr p, w))
               (findPeriodWith_heap_util (siderealFromEcliptic eclipticLon) currentDate w))"

subsection \<open>What a call returns and what it leaves\<close>

text \<open>
  What the caller reads from a result: the error, or the time values of the two
  \<open>Date\<close> objects of the period. \<open>None\<close> is a call that does not return.
\<close>

fun outcome :: "((error + addr \<times> addr) \<times> world) option \<Rightarrow> (error + NakshatraPeriod) option" where
  "outcome None = None"
| "outcome (Some (Inl e, w)) = Some (Inl e)"
| "outcome (Some (Inr (s, e), w)) = Some (Inr \<lparr>start = getTime w s, end' = getTime w e\<rparr>)"

text \<open>
  The world \<open>w'\<close> has every \<open>Date\<close> object of \<open>w\<close> with its time value, the
  same SunCalc and the same clock. It may have more objects.
\<close>

definition unchanged :: "world \<Rightarrow> world \<Rightarrow> bool" where
  "unchanged w w' \<longleftrightarrow>
     allocated w \<le> allocated w' \<and> (\<forall>d<allocated w. getTime w' d = getTime w d) \<and>
     SunCalc w' = SunCalc w \<and> clock w' = clock w"

text \<open>
  The invariant of a scan that started after the world \<open>w0\<close>: its variable holds an
  object created since, with time value \<open>t\<close>, and the objects of \<open>w0\<close> are as they
  were.
\<close>

definition tracks :: "world \<Rightarrow> addr \<times> world \<Rightarrow> date \<Rightarrow> bool" where
  "tracks w0 = (\<lambda>(d, w) t. allocated w0 \<le> d \<and> d < allocated w \<and> getTime w d = t \<and> unchanged w0 w)"

section \<open>Stand-ins for the longitude\<close>

text \<open>
  Two longitude functions with values that can be computed, on which the locators are run
  below. The first is inside the band for the two hours that follow time value 0. The
  second is a \<open>SunCalc\<close> whose Moon is inside the band for the ninety minutes that
  follow 2000-01-01T12:00:00Z.
\<close>

abbreviation sampleLongitude :: "date \<Rightarrow> real" where
  "sampleLongitude \<equiv> \<lambda>t. if 0 \<le> t \<and> t < 7200000 then 190 else 10"

abbreviation sampleEcliptic :: "date \<Rightarrow> real" where
  "sampleEcliptic \<equiv> \<lambda>t. (if 946728000000 \<le> t \<and> t < 946733400000 then 215 else 0) * pi / 180"

text \<open>A second SunCalc, whose Moon stays inside the band for an hour longer.\<close>

abbreviation otherEcliptic :: "date \<Rightarrow> real" where
  "otherEcliptic \<equiv> \<lambda>t. (if 946728000000 \<le> t \<and> t < 946737000000 then 215 else 0) * pi / 180"

section \<open>The unwrapped longitude\<close>

text \<open>
  The difference \<open>tropical - ayanamsha\<close> before either of them is reduced to one
  turn. The sidereal longitude differs from it by whole turns.
\<close>

abbreviation unwrappedLongitude :: "date \<Rightarrow> real" where
  "unwrappedLongitude \<equiv> \<lambda>t. moonLongitudeSeries (julianCenturies t) - getLahiriAyanamsha t"

section \<open>Scans\<close>

text \<open>
  A scan returns exactly when some probe fails its condition; it then returns the first
  such probe.
\<close>

lemma scan_Some_D:
  assumes "scan c s d = Some r"
  shows "\<exists>k::nat. r = d + int k * s \<and> \<not> c r \<and> (\<forall>j<k. c (d + int j * s))"
proof (rule scan.raw_induct
    [where P = "\<lambda>c s d r. \<exists>k::nat. r = d + int k * s \<and> \<not> c r \<and> (\<forall>j<k. c (d + int j * s))",
      OF _ assms], goal_cases)
  case (1 scan' c s d r)
  show ?case
  proof (cases "c d")
    case False
    with 1(2) have "r = d" by simp
    with False show ?thesis by (intro exI[of _ 0]) simp
  next
    case True
    with 1(2) have "scan' c s (d + s) = Some r" by simp
    from 1(1)[OF this] obtain k :: nat where
      k: "r = d + s + int k * s" "\<not> c r" "\<forall>j<k. c (d + s + int j * s)" by blast
    have "\<forall>j<Suc k. c (d + int j * s)"
    proof (intro allI impI)
      fix j assume "j < Suc k"
      show "c (d + int j * s)"
      proof (cases j)
        case 0 with True show ?thesis by simp
      next
        case (Suc i)
        with \<open>j < Suc k\<close> have "c (d + s + int i * s)" using k(3) by simp
        with Suc show ?thesis by (simp add: algebra_simps)
      qed
    qed
    moreover have "r = d + int (Suc k) * s" using k(1) by (simp add: algebra_simps)
    ultimately show ?thesis using k(2) by blast
  qed
qed

lemma scan_Some_I:
  "\<not> c (d + int k * s) \<Longrightarrow> (\<forall>j<k. c (d + int j * s)) \<Longrightarrow> scan c s d = Some (d + int k * s)"
proof (induction k arbitrary: d)
  case 0
  then show ?case by (subst scan.simps) simp
next
  case (Suc k)
  have c0: "c d" using Suc.prems(2) by (metis add.right_neutral mult_zero_left of_nat_0 zero_less_Suc)
  have "\<not> c (d + s + int k * s)" using Suc.prems(1) by (simp add: algebra_simps)
  moreover have "\<forall>j<k. c (d + s + int j * s)"
  proof (intro allI impI)
    fix j assume "j < k"
    then have "Suc j < Suc k" by simp
    with Suc.prems(2) have "c (d + int (Suc j) * s)" by blast
    then show "c (d + s + int j * s)" by (simp add: algebra_simps)
  qed
  ultimately have "scan c s (d + s) = Some (d + s + int k * s)" by (rule Suc.IH)
  then show ?case using c0 by (subst scan.simps) (simp add: algebra_simps)
qed

lemma scan_terminates:
  assumes "\<not> c (d + int k * s)"
  shows "\<exists>r. scan c s d = Some r"
proof -
  define m where "m = (LEAST i. \<not> c (d + int i * s))"
  have "\<not> c (d + int m * s)" unfolding m_def using assms by (rule LeastI)
  moreover have "\<forall>j<m. c (d + int j * s)" unfolding m_def using not_less_Least by blast
  ultimately show ?thesis using scan_Some_I by blast
qed


section \<open>A coarse scan followed by a fine one\<close>

lemma step_facts:
  "coarseStep = 30 * fineStep" "coarseStep_util = 60 * fineStep" "0 < fineStep"
  by (simp_all add: coarseStep_def coarseStep_util_def fineStep_def)

text \<open>Going back in steps of m fine steps while inside, then forward in fine steps while
  outside: the result is inside, its predecessor outside, and it is not after the origin.\<close>

lemma back_then_refine:
  assumes f: "0 < f" and b: "b x"
    and s0: "scan b (- (int m * f)) x = Some s0"
    and s1: "scan (\<lambda>d. \<not> b d) f s0 = Some s1"
  shows "b s1 \<and> \<not> b (s1 - f) \<and> s1 \<le> x"
proof -
  from scan_Some_D[OF s0] obtain k :: nat where
    k: "s0 = x + int k * - (int m * f)" "\<not> b s0" by blast
  from scan_Some_D[OF s1] obtain j :: nat where
    j: "s1 = s0 + int j * f" "\<not> \<not> b s1" "\<forall>i<j. \<not> b (s0 + int i * f)" by blast
  have x: "x = s0 + int (k * m) * f" using k(1) by (simp add: algebra_simps)
  have "j \<noteq> 0" using j(1,2) k(2) by (cases j) auto
  then obtain j' where j': "j = Suc j'" by (cases j) auto
  then have "\<not> b (s0 + int j' * f)" using j(3) by simp
  moreover have "s1 - f = s0 + int j' * f" using j(1) j' by (simp add: algebra_simps)
  ultimately have pre: "\<not> b (s1 - f)" by simp
  have "j \<le> k * m"
  proof (rule ccontr)
    assume "\<not> j \<le> k * m"
    then have "k * m < j" by simp
    with j(3) have "\<not> b (s0 + int (k * m) * f)" by blast
    with x b show False by simp
  qed
  then have "int j \<le> int (k * m)" by (simp only: of_nat_le_iff)
  then have "int j * f \<le> int (k * m) * f" using f by (simp only: mult_right_mono)
  with x j(1) have "s1 \<le> x" by simp
  with pre j(2) show ?thesis by simp
qed

lemma back_then_refine_terminates:
  assumes b: "b x" and s0: "scan b (- (int m * f)) x = Some s0"
  shows "\<exists>s1. scan (\<lambda>d. \<not> b d) f s0 = Some s1"
proof -
  from scan_Some_D[OF s0] obtain k :: nat where
    k: "s0 = x + int k * - (int m * f)" by blast
  have "x = s0 + int (k * m) * f" using k(1) by (simp add: algebra_simps)
  with b have "\<not> \<not> b (s0 + int (k * m) * f)" by simp
  then show ?thesis by (rule scan_terminates)
qed

text \<open>Going forward in steps of m fine steps while inside, then back in fine steps while
  outside: the result is inside, its successor outside, and it is not before the origin.\<close>

lemma forth_then_refine:
  assumes f: "0 < f" and b: "b x"
    and e0: "scan b (int m * f) x = Some e0"
    and e1: "scan (\<lambda>d. \<not> b d) (- f) e0 = Some e1"
  shows "b e1 \<and> \<not> b (e1 + f) \<and> x \<le> e1"
proof -
  from scan_Some_D[OF e0] obtain k :: nat where
    k: "e0 = x + int k * (int m * f)" "\<not> b e0" by blast
  from scan_Some_D[OF e1] obtain j :: nat where
    j: "e1 = e0 + int j * - f" "\<not> \<not> b e1" "\<forall>i<j. \<not> b (e0 + int i * - f)" by blast
  have x: "x = e0 + int (k * m) * - f" using k(1) by (simp add: algebra_simps)
  have "j \<noteq> 0" using j(1,2) k(2) by (cases j) auto
  then obtain j' where j': "j = Suc j'" by (cases j) auto
  then have "\<not> b (e0 + int j' * - f)" using j(3) by simp
  moreover have "e1 + f = e0 + int j' * - f" using j(1) j' by (simp add: algebra_simps)
  ultimately have post: "\<not> b (e1 + f)" by simp
  have "j \<le> k * m"
  proof (rule ccontr)
    assume "\<not> j \<le> k * m"
    then have "k * m < j" by simp
    with j(3) have "\<not> b (e0 + int (k * m) * - f)" by blast
    with x b show False by simp
  qed
  then have "int j \<le> int (k * m)" by (simp only: of_nat_le_iff)
  then have "int j * f \<le> int (k * m) * f" using f by (simp only: mult_right_mono)
  with x j(1) have "x \<le> e1" by simp
  with post j(2) show ?thesis by simp
qed

lemma forth_then_refine_terminates:
  assumes b: "b x" and e0: "scan b (int m * f) x = Some e0"
  shows "\<exists>e1. scan (\<lambda>d. \<not> b d) (- f) e0 = Some e1"
proof -
  from scan_Some_D[OF e0] obtain k :: nat where
    k: "e0 = x + int k * (int m * f)" by blast
  have "x = e0 + int (k * m) * - f" using k(1) by (simp add: algebra_simps)
  with b have "\<not> \<not> b (e0 + int (k * m) * - f)" by simp
  then show ?thesis by (rule scan_terminates)
qed

text \<open>From an inside instant that lies a whole number of fine steps after an outside one,
  going back while the predecessor is inside: the result is inside, its predecessor
  outside, and it lies after the outside instant.\<close>

lemma refine_entry:
  assumes f: "0 < f" and out: "\<not> b x" and inside: "b s1" and s1: "s1 = x + int n * f"
    and s: "scan (\<lambda>d. b (d - f)) (- f) s1 = Some s"
  shows "b s \<and> \<not> b (s - f) \<and> x < s \<and> s \<le> s1"
proof -
  from scan_Some_D[OF s] obtain j :: nat where
    j: "s = s1 + int j * - f" "\<not> b (s - f)" "\<forall>i<j. b (s1 + int i * - f - f)" by blast
  have bs: "b s"
  proof (cases j)
    case 0 with j(1) inside show ?thesis by simp
  next
    case (Suc j')
    then have "b (s1 + int j' * - f - f)" using j(3) by simp
    moreover have "s = s1 + int j' * - f - f" using j(1) Suc by (simp add: algebra_simps)
    ultimately show ?thesis by simp
  qed
  have "j < n"
  proof (rule ccontr)
    assume "\<not> j < n"
    then have nj: "n \<le> j" by simp
    have "n \<noteq> 0" using out inside s1 by (cases n) auto
    then obtain n' where n': "n = Suc n'" by (cases n) auto
    with nj have "n' < j" by simp
    with j(3) have "b (s1 + int n' * - f - f)" by blast
    moreover have "s1 + int n' * - f - f = x" using s1 n' by (simp add: algebra_simps)
    ultimately show False using out by simp
  qed
  then have "int j + 1 \<le> int n" by simp
  then have "(int j + 1) * f \<le> int n * f" using f by (simp only: mult_right_mono)
  then have "x < s" using j(1) s1 f by (simp add: algebra_simps)
  moreover have "s \<le> s1" using j(1) f by simp
  ultimately show ?thesis using bs j(2) by simp
qed

lemma refine_entry_terminates:
  assumes out: "\<not> b x" and inside: "b s1" and s1: "s1 = x + int n * f"
  shows "\<exists>s. scan (\<lambda>d. b (d - f)) (- f) s1 = Some s"
proof -
  have "n \<noteq> 0" using out inside s1 by (cases n) auto
  then obtain n' where n': "n = Suc n'" by (cases n) auto
  have "s1 + int n' * - f - f = x" using s1 n' by (simp add: algebra_simps)
  with out have "\<not> b (s1 + int n' * - f - f)" by simp
  then show ?thesis by (rule scan_terminates[where c = "\<lambda>d. b (d - f)"])
qed

text \<open>The end is not after the coarse probe that left the band.\<close>

lemma coarse_exit_bound:
  assumes f: "0 < f" and b: "b x"
    and leaves: "\<not> b (x + int N * (int m * f))"
    and e0: "scan b (int m * f) x = Some e0"
    and e1: "scan (\<lambda>d. \<not> b d) (- f) e0 = Some e1"
  shows "e1 + f \<le> x + int N * (int m * f)"
proof -
  from scan_Some_D[OF e0] obtain k :: nat where
    k: "e0 = x + int k * (int m * f)" "\<not> b e0" "\<forall>j<k. b (x + int j * (int m * f))" by blast
  have "k \<le> N" using k(3) leaves by (meson not_le_imp_less)
  then have "int k * (int m * f) \<le> int N * (int m * f)"
    using f by (intro mult_right_mono) simp_all
  with k(1) have e0N: "e0 \<le> x + int N * (int m * f)" by simp
  from scan_Some_D[OF e1] obtain j :: nat where
    j: "e1 = e0 + int j * - f" "\<not> \<not> b e1" by blast
  have "j \<noteq> 0" using j k(2) by (cases j) auto
  then have "1 \<le> int j" by simp
  then have "1 * f \<le> int j * f" using f by (intro mult_right_mono) simp_all
  with j(1) have "e1 + f \<le> e0" by simp
  with e0N show ?thesis by simp
qed


section \<open>The bounded scan\<close>

lemma horizon_steps: "searchHorizon = 1440 * coarseStep" "0 < coarseStep"
  by (simp_all add: searchHorizon_def coarseStep_def)

lemma scanToNext_error: "scanToNext lon c d = Inl e \<Longrightarrow> e = SearchExhausted"
proof (induction lon c d rule: scanToNext.induct)
  case (1 lon c d)
  from "1.prems" show ?case
    by (subst (asm) scanToNext.simps) (auto simp: Let_def split: if_splits intro: "1.IH")
qed

lemma scanToNext_found:
  "scanToNext lon c d = Inr s \<Longrightarrow>
     isSwathi (lon s) \<and> (\<exists>k::nat. s = d + int k * coarseStep)"
proof (induction lon c d rule: scanToNext.induct)
  case (1 lon c d)
  show ?case
  proof (cases "isSwathi (lon d)")
    case True
    with "1.prems" have "s = d" by (subst (asm) scanToNext.simps) simp
    with True show ?thesis by (auto intro: exI[of _ 0])
  next
    case False
    with "1.prems" have far: "\<not> searchHorizon < d + coarseStep - c"
      and rec: "scanToNext lon c (d + coarseStep) = Inr s"
      by (subst (asm) scanToNext.simps, simp add: Let_def split: if_splits)+
    from "1.IH"[OF False refl far rec] obtain k :: nat where
      k: "isSwathi (lon s)" "s = d + coarseStep + int k * coarseStep" by blast
    then have "s = d + int (Suc k) * coarseStep" by (simp add: algebra_simps)
    with k(1) show ?thesis by blast
  qed
qed

lemma scanToNext_exhausted_gen:
  "d - c \<le> searchHorizon \<Longrightarrow>
   scanToNext lon c d = Inl SearchExhausted \<longleftrightarrow>
     (\<forall>k::nat. d + int k * coarseStep - c \<le> searchHorizon \<longrightarrow>
        \<not> isSwathi (lon (d + int k * coarseStep)))"
proof (induction lon c d rule: scanToNext.induct)
  case (1 lon c d)
  let ?R = "\<lambda>d. \<forall>k::nat. d + int k * coarseStep - c \<le> searchHorizon \<longrightarrow>
        \<not> isSwathi (lon (d + int k * coarseStep))"
  show ?case
  proof (cases "isSwathi (lon d)")
    case True
    then have "scanToNext lon c d = Inr d" by (subst scanToNext.simps) simp
    moreover have "\<not> ?R d" using True "1.prems" by (auto intro: exI[of _ 0])
    ultimately show ?thesis by simp
  next
    case False
    show ?thesis
    proof (cases "searchHorizon < d + coarseStep - c")
      case far: True
      have "scanToNext lon c d = Inl SearchExhausted"
        using False far by (subst scanToNext.simps) (simp add: Let_def)
      moreover have "?R d"
      proof (intro allI impI)
        fix k :: nat
        assume le: "d + int k * coarseStep - c \<le> searchHorizon"
        have "k = 0"
        proof (rule ccontr)
          assume "k \<noteq> 0"
          then have "1 \<le> int k" by simp
          then have "1 * coarseStep \<le> int k * coarseStep"
            using horizon_steps(2) by (simp only: mult_right_mono)
          with le far show False by simp
        qed
        with False show "\<not> isSwathi (lon (d + int k * coarseStep))" by simp
      qed
      ultimately show ?thesis by simp
    next
      case near: False
      then have near': "d + coarseStep - c \<le> searchHorizon" by simp
      have unfold: "scanToNext lon c d = scanToNext lon c (d + coarseStep)"
        using False near by (subst scanToNext.simps) (simp add: Let_def)
      have IH: "scanToNext lon c (d + coarseStep) = Inl SearchExhausted \<longleftrightarrow> ?R (d + coarseStep)"
        using "1.IH"[OF False refl near near'] .
      have "?R d \<longleftrightarrow> ?R (d + coarseStep)"
      proof
        assume R: "?R d"
        show "?R (d + coarseStep)"
        proof (intro allI impI)
          fix k :: nat
          assume "d + coarseStep + int k * coarseStep - c \<le> searchHorizon"
          then have "d + int (Suc k) * coarseStep - c \<le> searchHorizon"
            by (simp add: algebra_simps)
          with R have "\<not> isSwathi (lon (d + int (Suc k) * coarseStep))" by blast
          then show "\<not> isSwathi (lon (d + coarseStep + int k * coarseStep))"
            by (simp add: algebra_simps)
        qed
      next
        assume R: "?R (d + coarseStep)"
        show "?R d"
        proof (intro allI impI)
          fix k :: nat
          assume le: "d + int k * coarseStep - c \<le> searchHorizon"
          show "\<not> isSwathi (lon (d + int k * coarseStep))"
          proof (cases k)
            case 0 with False show ?thesis by simp
          next
            case (Suc k')
            with le have "d + coarseStep + int k' * coarseStep - c \<le> searchHorizon"
              by (simp add: algebra_simps)
            with R have "\<not> isSwathi (lon (d + coarseStep + int k' * coarseStep))" by blast
            with Suc show ?thesis by (simp add: algebra_simps)
          qed
        qed
      qed
      with unfold IH show ?thesis by simp
    qed
  qed
qed

lemma within_horizon: "int k * coarseStep \<le> searchHorizon \<longleftrightarrow> k \<le> 1440"
  by (simp add: searchHorizon_def coarseStep_def)

lemma scanToNext_exhausted_iff:
  "scanToNext lon c c = Inl SearchExhausted \<longleftrightarrow>
     (\<forall>k::nat. k \<le> 1440 \<longrightarrow> \<not> isSwathi (lon (c + int k * coarseStep)))"
proof -
  have "c - c \<le> searchHorizon" by (simp add: searchHorizon_def)
  from scanToNext_exhausted_gen[OF this] show ?thesis by (simp add: within_horizon)
qed

lemma scanToNext_within_horizon:
  "scanToNext lon c d = Inr s \<Longrightarrow> d - c \<le> searchHorizon \<Longrightarrow> s - c \<le> searchHorizon"
proof (induction lon c d rule: scanToNext.induct)
  case (1 lon c d)
  show ?case
  proof (cases "isSwathi (lon d)")
    case True
    with "1.prems"(1) have "s = d" by (subst (asm) scanToNext.simps) simp
    with "1.prems"(2) show ?thesis by simp
  next
    case False
    with "1.prems"(1) have far: "\<not> searchHorizon < d + coarseStep - c"
      and rec: "scanToNext lon c (d + coarseStep) = Inr s"
      by (subst (asm) scanToNext.simps, simp add: Let_def split: if_splits)+
    from far have "d + coarseStep - c \<le> searchHorizon" by simp
    from "1.IH"[OF False refl far rec this] show ?thesis .
  qed
qed

section \<open>What a returned period satisfies\<close>

lemma findPeriodWith_inside_D:
  assumes "isSwathi (lon ref)" and "findPeriodWith lon ref = Some r"
  shows "\<exists>s0 s1 e0 e1.
    scan (\<lambda>d. isSwathi (lon d)) (- coarseStep) ref = Some s0 \<and>
    scan (\<lambda>d. \<not> isSwathi (lon d)) fineStep s0 = Some s1 \<and>
    scan (\<lambda>d. isSwathi (lon d)) coarseStep ref = Some e0 \<and>
    scan (\<lambda>d. \<not> isSwathi (lon d)) (- fineStep) e0 = Some e1 \<and>
    r = Inr \<lparr>start = s1, end' = e1 + fineStep\<rparr>"
  using assms by (auto simp: findPeriodWith_def Let_def bind_eq_Some_conv)

lemma findPeriodWith_outside_D:
  assumes "\<not> isSwathi (lon ref)" and "findPeriodWith lon ref = Some (Inr p)"
  shows "\<exists>s1 s e0 e1.
    scanToNext lon ref ref = Inr s1 \<and>
    scan (\<lambda>d. isSwathi (lon (d - fineStep))) (- fineStep) s1 = Some s \<and>
    scan (\<lambda>d. isSwathi (lon d)) coarseStep s = Some e0 \<and>
    scan (\<lambda>d. \<not> isSwathi (lon d)) (- fineStep) e0 = Some e1 \<and>
    p = \<lparr>start = s, end' = e1 + fineStep\<rparr>"
  using assms by (auto simp: findPeriodWith_def Let_def bind_eq_Some_conv split: sum.splits)

lemma findPeriodWith_spec:
  assumes "findPeriodWith lon ref = Some (Inr p)"
  shows "isSwathi (lon (start p)) \<and> \<not> isSwathi (lon (start p - fineStep)) \<and>
         isSwathi (lon (end' p - fineStep)) \<and> \<not> isSwathi (lon (end' p)) \<and>
         start p \<le> end' p - fineStep \<and>
         (if isSwathi (lon ref) then start p \<le> ref \<and> ref \<le> end' p - fineStep
          else ref < start p)"
proof (cases "isSwathi (lon ref)")
  case True
  from findPeriodWith_inside_D[OF True assms] obtain s0 s1 e0 e1 where
    s0: "scan (\<lambda>d. isSwathi (lon d)) (- coarseStep) ref = Some s0" and
    s1: "scan (\<lambda>d. \<not> isSwathi (lon d)) fineStep s0 = Some s1" and
    e0: "scan (\<lambda>d. isSwathi (lon d)) coarseStep ref = Some e0" and
    e1: "scan (\<lambda>d. \<not> isSwathi (lon d)) (- fineStep) e0 = Some e1" and
    p: "Inr p = (Inr \<lparr>start = s1, end' = e1 + fineStep\<rparr> :: error + NakshatraPeriod)" by blast
  have A: "isSwathi (lon s1) \<and> \<not> isSwathi (lon (s1 - fineStep)) \<and> s1 \<le> ref"
    using back_then_refine[of fineStep "\<lambda>d. isSwathi (lon d)" ref 30 s0 s1] True s0 s1
    by (simp add: step_facts)
  have B: "isSwathi (lon e1) \<and> \<not> isSwathi (lon (e1 + fineStep)) \<and> ref \<le> e1"
    using forth_then_refine[of fineStep "\<lambda>d. isSwathi (lon d)" ref 30 e0 e1] True e0 e1
    by (simp add: step_facts)
  from p have "p = \<lparr>start = s1, end' = e1 + fineStep\<rparr>" by simp
  with A B True show ?thesis by simp
next
  case False
  from findPeriodWith_outside_D[OF False assms] obtain s1 s e0 e1 where
    s1: "scanToNext lon ref ref = Inr s1" and
    s: "scan (\<lambda>d. isSwathi (lon (d - fineStep))) (- fineStep) s1 = Some s" and
    e0: "scan (\<lambda>d. isSwathi (lon d)) coarseStep s = Some e0" and
    e1: "scan (\<lambda>d. \<not> isSwathi (lon d)) (- fineStep) e0 = Some e1" and
    p: "p = \<lparr>start = s, end' = e1 + fineStep\<rparr>" by blast
  from scanToNext_found[OF s1] obtain k :: nat where
    k: "isSwathi (lon s1)" "s1 = ref + int k * coarseStep" by blast
  have "s1 = ref + int (k * 30) * fineStep" using k(2) by (simp add: step_facts)
  from refine_entry[of fineStep "\<lambda>d. isSwathi (lon d)" ref s1 "k * 30" s, OF _ False k(1) this s]
  have A: "isSwathi (lon s) \<and> \<not> isSwathi (lon (s - fineStep)) \<and> ref < s"
    by (simp add: step_facts)
  have B: "isSwathi (lon e1) \<and> \<not> isSwathi (lon (e1 + fineStep)) \<and> s \<le> e1"
    using forth_then_refine[of fineStep "\<lambda>d. isSwathi (lon d)" s 30 e0 e1] A e0 e1
    by (simp add: step_facts)
  from A B False show ?thesis by (simp add: p)
qed

lemma findPeriodWith_util_D:
  assumes "findPeriodWith_util lon ref = Some p"
  shows "isSwathi (lon (start p)) \<and> \<not> isSwathi (lon (start p - fineStep)) \<and>
         \<not> isSwathi (lon (end' p)) \<and> start p < end' p \<and>
         (\<exists>k::nat. 0 < k \<and>
            end' p = (if isSwathi (lon ref) then ref else start p) + int k * coarseStep_util)"
proof (cases "isSwathi (lon ref)")
  case True
  from assms True obtain s0 s1 e0 e1 where
    s0: "scan (\<lambda>d. isSwathi (lon d)) (- coarseStep_util) ref = Some s0" and
    s1: "scan (\<lambda>d. \<not> isSwathi (lon d)) fineStep s0 = Some s1" and
    e0: "scan (\<lambda>d. isSwathi (lon d)) coarseStep_util ref = Some e0" and
    e1: "scan (\<lambda>d. isSwathi (lon d)) fineStep e0 = Some e1" and
    p: "p = \<lparr>start = s1, end' = e1\<rparr>"
    by (auto simp: findPeriodWith_util_def Let_def bind_eq_Some_conv)
  have A: "isSwathi (lon s1) \<and> \<not> isSwathi (lon (s1 - fineStep)) \<and> s1 \<le> ref"
    using back_then_refine[of fineStep "\<lambda>d. isSwathi (lon d)" ref 60 s0 s1] True s0 s1
    by (simp add: step_facts)
  from scan_Some_D[OF e0] obtain k :: nat where
    k: "e0 = ref + int k * coarseStep_util" "\<not> isSwathi (lon e0)" by blast
  have k0: "0 < k" using k True by (cases k) auto
  have "e1 = e0" using e1 k(2) by (subst (asm) scan.simps) simp
  moreover have "ref < e0" using k(1) k0 by (simp add: coarseStep_util_def)
  ultimately show ?thesis using A k k0 True by (auto simp: p)
next
  case False
  from assms False obtain s1 s e0 e1 where
    s1: "scan (\<lambda>d. \<not> isSwathi (lon d)) coarseStep_util ref = Some s1" and
    s: "scan (\<lambda>d. isSwathi (lon (d - fineStep))) (- fineStep) s1 = Some s" and
    e0: "scan (\<lambda>d. isSwathi (lon d)) coarseStep_util s = Some e0" and
    e1: "scan (\<lambda>d. isSwathi (lon d)) fineStep e0 = Some e1" and
    p: "p = \<lparr>start = s, end' = e1\<rparr>"
    by (auto simp: findPeriodWith_util_def Let_def bind_eq_Some_conv)
  from scan_Some_D[OF s1] obtain n :: nat where
    n: "s1 = ref + int n * coarseStep_util" "\<not> \<not> isSwathi (lon s1)" by blast
  have "s1 = ref + int (n * 60) * fineStep" using n(1) by (simp add: step_facts)
  from refine_entry[of fineStep "\<lambda>d. isSwathi (lon d)" ref s1 "n * 60" s, OF _ False _ this s] n(2)
  have A: "isSwathi (lon s) \<and> \<not> isSwathi (lon (s - fineStep)) \<and> ref < s"
    by (simp add: step_facts)
  from scan_Some_D[OF e0] obtain k :: nat where
    k: "e0 = s + int k * coarseStep_util" "\<not> isSwathi (lon e0)" by blast
  have k0: "0 < k" using k A by (cases k) auto
  have "e1 = e0" using e1 k(2) by (subst (asm) scan.simps) simp
  moreover have "s < e0" using k(1) k0 by (simp add: coarseStep_util_def)
  ultimately show ?thesis using A k k0 False by (auto simp: p)
qed

lemma findPeriodWith_no_error_inside:
  "isSwathi (lon ref) \<Longrightarrow> findPeriodWith lon ref \<noteq> Some (Inl e)"
  by (auto simp: findPeriodWith_def Let_def bind_eq_Some_conv)

lemma findPeriodWith_error_outside:
  "\<not> isSwathi (lon ref) \<Longrightarrow>
     findPeriodWith lon ref = Some (Inl e) \<longleftrightarrow> scanToNext lon ref ref = Inl e"
  by (auto simp: findPeriodWith_def Let_def bind_eq_Some_conv split: sum.splits)


lemma findPeriodWith_end_bound:
  assumes p: "findPeriodWith lon ref = Some (Inr p)"
    and leaves: "\<And>t. isSwathi (lon t) \<Longrightarrow> \<not> isSwathi (lon (t + int N * coarseStep))"
  shows "end' p \<le> ref + searchHorizon + int N * coarseStep"
proof (cases "isSwathi (lon ref)")
  case True
  from findPeriodWith_inside_D[OF True p] obtain s0 s1 e0 e1 where
    e0: "scan (\<lambda>d. isSwathi (lon d)) coarseStep ref = Some e0" and
    e1: "scan (\<lambda>d. \<not> isSwathi (lon d)) (- fineStep) e0 = Some e1" and
    pe: "Inr p = (Inr \<lparr>start = s1, end' = e1 + fineStep\<rparr> :: error + NakshatraPeriod)" by blast
  from pe have pe': "end' p = e1 + fineStep" by simp
  have "e1 + fineStep \<le> ref + int N * (int 30 * fineStep)"
    using coarse_exit_bound[of fineStep "\<lambda>d. isSwathi (lon d)" ref N 30 e0 e1]
      True leaves[OF True] e0 e1 by (simp add: step_facts)
  then show ?thesis unfolding pe' by (simp add: step_facts searchHorizon_def)
next
  case False
  from findPeriodWith_outside_D[OF False p] obtain s1 s e0 e1 where
    s1: "scanToNext lon ref ref = Inr s1" and
    s: "scan (\<lambda>d. isSwathi (lon (d - fineStep))) (- fineStep) s1 = Some s" and
    e0: "scan (\<lambda>d. isSwathi (lon d)) coarseStep s = Some e0" and
    e1: "scan (\<lambda>d. \<not> isSwathi (lon d)) (- fineStep) e0 = Some e1" and
    pe: "p = \<lparr>start = s, end' = e1 + fineStep\<rparr>" by blast
  from scanToNext_within_horizon[OF s1] have h: "s1 \<le> ref + searchHorizon"
    by (simp add: searchHorizon_def)
  from scanToNext_found[OF s1] obtain k :: nat where
    k: "isSwathi (lon s1)" "s1 = ref + int k * coarseStep" by blast
  have "s1 = ref + int (k * 30) * fineStep" using k(2) by (simp add: step_facts)
  from refine_entry[of fineStep "\<lambda>d. isSwathi (lon d)" ref s1 "k * 30" s, OF _ False k(1) this s]
  have A: "isSwathi (lon s)" "s \<le> s1" by (simp_all add: step_facts)
  have "e1 + fineStep \<le> s + int N * (int 30 * fineStep)"
    using coarse_exit_bound[of fineStep "\<lambda>d. isSwathi (lon d)" s N 30 e0 e1]
      A(1) leaves[OF A(1)] e0 e1 by (simp add: step_facts)
  with A(2) h show ?thesis unfolding pe by (simp add: step_facts)
qed


section \<open>When the locator returns\<close>

text \<open>
  The locator returns as soon as no spell inside the band lasts for ever on the coarse
  grid, in either direction.
\<close>

lemma findPeriodWith_returns:
  assumes bwd: "\<And>t. isSwathi (lon t) \<Longrightarrow> \<exists>k::nat. \<not> isSwathi (lon (t + int k * - coarseStep))"
    and fwd: "\<And>t. isSwathi (lon t) \<Longrightarrow> \<exists>k::nat. \<not> isSwathi (lon (t + int k * coarseStep))"
  shows "\<exists>r. findPeriodWith lon ref = Some r"
proof -
  have end_found: "\<exists>e0 e1. scan (\<lambda>d. isSwathi (lon d)) coarseStep x = Some e0 \<and>
      scan (\<lambda>d. \<not> isSwathi (lon d)) (- fineStep) e0 = Some e1" if x: "isSwathi (lon x)" for x
  proof -
    from fwd[OF x] obtain k :: nat where "\<not> isSwathi (lon (x + int k * coarseStep))" ..
    from scan_terminates[of "\<lambda>d. isSwathi (lon d)", OF this]
    obtain e0 where e0: "scan (\<lambda>d. isSwathi (lon d)) coarseStep x = Some e0" ..
    then have "scan (\<lambda>d. isSwathi (lon d)) (int 30 * fineStep) x = Some e0"
      by (simp add: step_facts)
    from forth_then_refine_terminates[of "\<lambda>d. isSwathi (lon d)", OF x this] e0
    show ?thesis by blast
  qed
  show ?thesis
  proof (cases "isSwathi (lon ref)")
    case True
    from bwd[OF True] obtain k :: nat where "\<not> isSwathi (lon (ref + int k * - coarseStep))" ..
    from scan_terminates[of "\<lambda>d. isSwathi (lon d)", OF this]
    obtain s0 where s0: "scan (\<lambda>d. isSwathi (lon d)) (- coarseStep) ref = Some s0" ..
    then have "scan (\<lambda>d. isSwathi (lon d)) (- (int 30 * fineStep)) ref = Some s0"
      by (simp add: step_facts)
    from back_then_refine_terminates[of "\<lambda>d. isSwathi (lon d)", OF True this]
    obtain s1 where s1: "scan (\<lambda>d. \<not> isSwathi (lon d)) fineStep s0 = Some s1" ..
    from end_found[OF True] obtain e0 e1 where
      "scan (\<lambda>d. isSwathi (lon d)) coarseStep ref = Some e0"
      "scan (\<lambda>d. \<not> isSwathi (lon d)) (- fineStep) e0 = Some e1" by blast
    with True s0 s1 show ?thesis by (simp add: findPeriodWith_def Let_def)
  next
    case False
    show ?thesis
    proof (cases "scanToNext lon ref ref")
      case (Inl e)
      with False show ?thesis by (simp add: findPeriodWith_def Let_def)
    next
      case (Inr s1)
      from scanToNext_found[OF Inr] obtain k :: nat where
        k: "isSwathi (lon s1)" "s1 = ref + int k * coarseStep" by blast
      have g: "s1 = ref + int (k * 30) * fineStep" using k(2) by (simp add: step_facts)
      from refine_entry_terminates[of "\<lambda>d. isSwathi (lon d)", OF False k(1) g]
      obtain s where s: "scan (\<lambda>d. isSwathi (lon (d - fineStep))) (- fineStep) s1 = Some s" ..
      from refine_entry[of fineStep "\<lambda>d. isSwathi (lon d)", OF _ False k(1) g s]
      have "isSwathi (lon s)" by (simp add: step_facts)
      from end_found[OF this] obtain e0 e1 where
        "scan (\<lambda>d. isSwathi (lon d)) coarseStep s = Some e0"
        "scan (\<lambda>d. \<not> isSwathi (lon d)) (- fineStep) e0 = Some e1" by blast
      with False Inr s show ?thesis by (simp add: findPeriodWith_def Let_def)
    qed
  qed
qed

lemma findPeriodWith_util_returns:
  assumes bwd: "\<And>t. isSwathi (lon t) \<Longrightarrow> \<exists>k::nat. \<not> isSwathi (lon (t + int k * - coarseStep_util))"
    and fwd: "\<And>t. isSwathi (lon t) \<Longrightarrow> \<exists>k::nat. \<not> isSwathi (lon (t + int k * coarseStep_util))"
    and reach: "\<exists>k::nat. isSwathi (lon (ref + int k * coarseStep_util))"
  shows "\<exists>q. findPeriodWith_util lon ref = Some q"
proof -
  have end_found: "\<exists>e0 e1. scan (\<lambda>d. isSwathi (lon d)) coarseStep_util x = Some e0 \<and>
      scan (\<lambda>d. isSwathi (lon d)) fineStep e0 = Some e1" if x: "isSwathi (lon x)" for x
  proof -
    from fwd[OF x] obtain k :: nat where "\<not> isSwathi (lon (x + int k * coarseStep_util))" ..
    from scan_terminates[of "\<lambda>d. isSwathi (lon d)", OF this]
    obtain e0 where e0: "scan (\<lambda>d. isSwathi (lon d)) coarseStep_util x = Some e0" ..
    from scan_Some_D[OF e0] have "\<not> isSwathi (lon (e0 + int 0 * fineStep))" by auto
    from scan_terminates[of "\<lambda>d. isSwathi (lon d)", OF this] e0 show ?thesis by blast
  qed
  show ?thesis
  proof (cases "isSwathi (lon ref)")
    case True
    from bwd[OF True] obtain k :: nat where "\<not> isSwathi (lon (ref + int k * - coarseStep_util))" ..
    from scan_terminates[of "\<lambda>d. isSwathi (lon d)", OF this]
    obtain s0 where s0: "scan (\<lambda>d. isSwathi (lon d)) (- coarseStep_util) ref = Some s0" ..
    then have "scan (\<lambda>d. isSwathi (lon d)) (- (int 60 * fineStep)) ref = Some s0"
      by (simp add: step_facts)
    from back_then_refine_terminates[of "\<lambda>d. isSwathi (lon d)", OF True this]
    obtain s1 where s1: "scan (\<lambda>d. \<not> isSwathi (lon d)) fineStep s0 = Some s1" ..
    from end_found[OF True] obtain e0 e1 where
      "scan (\<lambda>d. isSwathi (lon d)) coarseStep_util ref = Some e0"
      "scan (\<lambda>d. isSwathi (lon d)) fineStep e0 = Some e1" by blast
    with True s0 s1 show ?thesis by (simp add: findPeriodWith_util_def Let_def)
  next
    case False
    from reach obtain k :: nat where "\<not> \<not> isSwathi (lon (ref + int k * coarseStep_util))" by blast
    from scan_terminates[of "\<lambda>d. \<not> isSwathi (lon d)", OF this]
    obtain s1 where s1: "scan (\<lambda>d. \<not> isSwathi (lon d)) coarseStep_util ref = Some s1" ..
    from scan_Some_D[OF s1] obtain n :: nat where
      n: "s1 = ref + int n * coarseStep_util" "isSwathi (lon s1)" by auto
    have g: "s1 = ref + int (n * 60) * fineStep" using n(1) by (simp add: step_facts)
    from refine_entry_terminates[of "\<lambda>d. isSwathi (lon d)", OF False n(2) g]
    obtain s where s: "scan (\<lambda>d. isSwathi (lon (d - fineStep))) (- fineStep) s1 = Some s" ..
    from refine_entry[of fineStep "\<lambda>d. isSwathi (lon d)", OF _ False n(2) g s]
    have "isSwathi (lon s)" by (simp add: step_facts)
    from end_found[OF this] obtain e0 e1 where
      "scan (\<lambda>d. isSwathi (lon d)) coarseStep_util s = Some e0"
      "scan (\<lambda>d. isSwathi (lon d)) fineStep e0 = Some e1" by blast
    with False s1 s show ?thesis by (simp add: findPeriodWith_util_def Let_def)
  qed
qed

section \<open>Range of the longitude\<close>

lemma js_rem_range:
  assumes "0 < m"
  shows "- m < js_rem x m \<and> js_rem x m < m"
proof (cases "0 \<le> x / m")
  case True
  have "real_of_int \<lfloor>x / m\<rfloor> \<le> x / m" "x / m < real_of_int \<lfloor>x / m\<rfloor> + 1" by linarith+
  then have "m * real_of_int \<lfloor>x / m\<rfloor> \<le> x" "x < m * (real_of_int \<lfloor>x / m\<rfloor> + 1)"
    using assms by (simp_all only: pos_le_divide_eq pos_divide_less_eq mult.commute)
  then show ?thesis using True assms by (simp add: js_rem_def algebra_simps)
next
  case False
  have "x / m \<le> real_of_int \<lceil>x / m\<rceil>" "real_of_int \<lceil>x / m\<rceil> - 1 < x / m" by linarith+
  then have "x \<le> m * real_of_int \<lceil>x / m\<rceil>" "m * (real_of_int \<lceil>x / m\<rceil> - 1) < x"
    using assms by (simp_all only: pos_divide_le_eq pos_less_divide_eq mult.commute)
  then show ?thesis using False assms by (simp add: js_rem_def algebra_simps)
qed

lemma js_rem_multiple: "\<exists>n::int. js_rem x m = x - m * real_of_int n"
  by (auto simp: js_rem_def)

lemma moonTropicalLongitude_range:
  "0 \<le> moonTropicalLongitude t \<and> moonTropicalLongitude t < 360"
proof -
  define g where "g = moonLongitudeSeries (julianCenturies t)"
  have r: "- 360 < js_rem g 360" "js_rem g 360 < 360" using js_rem_range[of 360 g] by simp_all
  have "moonTropicalLongitude t = (if js_rem g 360 < 0 then js_rem g 360 + 360 else js_rem g 360)"
    by (simp add: moonTropicalLongitude_def Let_def g_def)
  with r show ?thesis by auto
qed

section \<open>Motion of the Moon in the model\<close>

text \<open>
  Bounds on how fast the series and its arguments change, for the centuries
  \<open>|T| \<le> 420\<close>. The band is out of reach outside these centuries.
\<close>

lemma sin_lipschitz: "\<bar>sin x - sin y\<bar> \<le> \<bar>x - y\<bar>" for x y :: real
proof -
  have "\<bar>sin x - sin y\<bar> = 2 * \<bar>sin ((x - y) / 2)\<bar> * \<bar>cos ((x + y) / 2)\<bar>"
    by (simp add: sin_diff_sin abs_mult)
  also have "\<dots> \<le> 2 * \<bar>(x - y) / 2\<bar> * 1"
    by (intro mult_mono mult_nonneg_nonneg abs_sin_x_le_abs_x abs_cos_le_one) simp_all
  finally show ?thesis by simp
qed

lemma power_lipschitz:
  fixes x y :: real
  assumes "\<bar>x\<bar> \<le> B" and "\<bar>y\<bar> \<le> B"
  shows "\<bar>x ^ Suc n - y ^ Suc n\<bar> \<le> real (Suc n) * B ^ n * \<bar>x - y\<bar>"
proof (induction n)
  case 0
  show ?case by simp
next
  case (Suc n)
  have B: "0 \<le> B" using assms(1) by linarith
  have "x ^ Suc (Suc n) - y ^ Suc (Suc n) = x * (x ^ Suc n - y ^ Suc n) + (x - y) * y ^ Suc n"
    by (simp add: algebra_simps)
  then have "\<bar>x ^ Suc (Suc n) - y ^ Suc (Suc n)\<bar>
      \<le> \<bar>x\<bar> * \<bar>x ^ Suc n - y ^ Suc n\<bar> + \<bar>x - y\<bar> * \<bar>y\<bar> ^ Suc n"
    by (metis abs_mult abs_triangle_ineq power_abs)
  also have "\<dots> \<le> B * (real (Suc n) * B ^ n * \<bar>x - y\<bar>) + \<bar>x - y\<bar> * B ^ Suc n"
    by (intro add_mono mult_mono Suc.IH assms power_mono) (simp_all add: B)
  also have "\<dots> = real (Suc (Suc n)) * B ^ Suc n * \<bar>x - y\<bar>"
    by (simp add: algebra_simps)
  finally show ?case .
qed

lemma power_diffs_420:
  fixes x y :: real
  assumes "\<bar>x\<bar> \<le> 420" and "\<bar>y\<bar> \<le> 420"
  shows "\<bar>y\<^sup>2 - x\<^sup>2\<bar> \<le> 840 * \<bar>y - x\<bar>"
    and "\<bar>y ^ 3 - x ^ 3\<bar> \<le> 529200 * \<bar>y - x\<bar>"
    and "\<bar>y ^ 4 - x ^ 4\<bar> \<le> 296352000 * \<bar>y - x\<bar>"
  using power_lipschitz[OF assms(2,1), of 1] power_lipschitz[OF assms(2,1), of 2]
    power_lipschitz[OF assms(2,1), of 3]
  by (simp_all add: eval_nat_numeral)

lemma moonMeanLongitude_diff:
  "moonMeanLongitude y - moonMeanLongitude x =
     481267.88123421 * (y - x) - 0.0015786 * (y\<^sup>2 - x\<^sup>2) + (y ^ 3 - x ^ 3) / 538841
       - (y ^ 4 - x ^ 4) / 65194000"
  by (simp add: moonMeanLongitude_def power2_eq_square power3_eq_cube power4_eq_xxxx
      algebra_simps diff_divide_distrib)

lemma moonMeanElongation_diff:
  "moonMeanElongation y - moonMeanElongation x =
     445267.1114034 * (y - x) - 0.0018819 * (y\<^sup>2 - x\<^sup>2) + (y ^ 3 - x ^ 3) / 545868
       - (y ^ 4 - x ^ 4) / 113065000"
  by (simp add: moonMeanElongation_def power2_eq_square power3_eq_cube power4_eq_xxxx
      algebra_simps diff_divide_distrib)

lemma sunMeanAnomaly_diff:
  "sunMeanAnomaly y - sunMeanAnomaly x =
     35999.0502909 * (y - x) - 0.0001536 * (y\<^sup>2 - x\<^sup>2) + (y ^ 3 - x ^ 3) / 24490000"
  by (simp add: sunMeanAnomaly_def power2_eq_square power3_eq_cube
      algebra_simps diff_divide_distrib)

lemma moonMeanAnomaly_diff:
  "moonMeanAnomaly y - moonMeanAnomaly x =
     477198.8675055 * (y - x) + 0.0087414 * (y\<^sup>2 - x\<^sup>2) + (y ^ 3 - x ^ 3) / 69699
       - (y ^ 4 - x ^ 4) / 14712000"
  by (simp add: moonMeanAnomaly_def power2_eq_square power3_eq_cube power4_eq_xxxx
      algebra_simps diff_divide_distrib)

lemma moonArgLatitude_diff:
  "moonArgLatitude y - moonArgLatitude x =
     483202.0175233 * (y - x) - 0.0036539 * (y\<^sup>2 - x\<^sup>2) - (y ^ 3 - x ^ 3) / 3526000
       + (y ^ 4 - x ^ 4) / 863310000"
  by (simp add: moonArgLatitude_def power2_eq_square power3_eq_cube power4_eq_xxxx
      algebra_simps diff_divide_distrib)

text \<open>Rates of the five arguments, in degrees per century, for \<open>|T| \<le> 420\<close>.\<close>

lemma linear_rate_bounds:
  fixes a b c d :: real
  assumes "\<bar>a\<bar> \<le> 840 * d" "\<bar>b\<bar> \<le> 529200 * d" "\<bar>c\<bar> \<le> 296352000 * d"
  shows "481260 * d \<le> 481267.88123421 * d - 0.0015786 * a + b / 538841 - c / 65194000"
    and "481267.88123421 * d - 0.0015786 * a + b / 538841 - c / 65194000 \<le> 481276 * d"
    and "\<bar>445267.1114034 * d - 0.0018819 * a + b / 545868 - c / 113065000\<bar> \<le> 445300 * d"
    and "\<bar>35999.0502909 * d - 0.0001536 * a + b / 24490000\<bar> \<le> 36010 * d"
    and "\<bar>477198.8675055 * d + 0.0087414 * a + b / 69699 - c / 14712000\<bar> \<le> 477300 * d"
    and "\<bar>483202.0175233 * d - 0.0036539 * a - b / 3526000 + c / 863310000\<bar> \<le> 483300 * d"
  using assms[THEN abs_le_D1] assms[THEN abs_le_D2] by (simp_all add: abs_le_iff)

lemma argument_rates:
  fixes x y :: real
  assumes "\<bar>x\<bar> \<le> 420" and "\<bar>y\<bar> \<le> 420" and "x \<le> y"
  shows "481260 * (y - x) \<le> moonMeanLongitude y - moonMeanLongitude x"
    and "moonMeanLongitude y - moonMeanLongitude x \<le> 481276 * (y - x)"
    and "\<bar>moonMeanElongation y - moonMeanElongation x\<bar> \<le> 445300 * (y - x)"
    and "\<bar>sunMeanAnomaly y - sunMeanAnomaly x\<bar> \<le> 36010 * (y - x)"
    and "\<bar>moonMeanAnomaly y - moonMeanAnomaly x\<bar> \<le> 477300 * (y - x)"
    and "\<bar>moonArgLatitude y - moonArgLatitude x\<bar> \<le> 483300 * (y - x)"
proof -
  note p = power_diffs_420[OF assms(1,2)]
  have d: "\<bar>y - x\<bar> = y - x" using assms(3) by simp
  from p d have a: "\<bar>y\<^sup>2 - x\<^sup>2\<bar> \<le> 840 * (y - x)" "\<bar>y ^ 3 - x ^ 3\<bar> \<le> 529200 * (y - x)"
    "\<bar>y ^ 4 - x ^ 4\<bar> \<le> 296352000 * (y - x)" by simp_all
  note l = linear_rate_bounds[OF a]
  show "481260 * (y - x) \<le> moonMeanLongitude y - moonMeanLongitude x"
    unfolding moonMeanLongitude_diff by (rule l)
  show "moonMeanLongitude y - moonMeanLongitude x \<le> 481276 * (y - x)"
    unfolding moonMeanLongitude_diff by (rule l)
  show "\<bar>moonMeanElongation y - moonMeanElongation x\<bar> \<le> 445300 * (y - x)"
    unfolding moonMeanElongation_diff by (rule l)
  show "\<bar>sunMeanAnomaly y - sunMeanAnomaly x\<bar> \<le> 36010 * (y - x)"
    unfolding sunMeanAnomaly_diff by (rule l)
  show "\<bar>moonMeanAnomaly y - moonMeanAnomaly x\<bar> \<le> 477300 * (y - x)"
    unfolding moonMeanAnomaly_diff by (rule l)
  show "\<bar>moonArgLatitude y - moonArgLatitude x\<bar> \<le> 483300 * (y - x)"
    unfolding moonArgLatitude_diff by (rule l)
qed

lemma sigmaL_lipschitz:
  assumes "\<bar>D2 - D1\<bar> \<le> dD" and "\<bar>M2 - M1\<bar> \<le> dM" and "\<bar>P2 - P1\<bar> \<le> dP"
    and "\<bar>F2 - F1\<bar> \<le> dF"
  shows "\<bar>sigmaL D2 M2 P2 F2 - sigmaL D1 M1 P1 F1\<bar>
    \<le> 4471297 * dD + 373900 * dM + 8383749 * dP + 306334 * dF"
proof -
  have t:
    "\<bar>sin (P2) - sin (P1)\<bar> \<le> dP"
    "\<bar>sin (2 * D2 - P2) - sin (2 * D1 - P1)\<bar> \<le> 2 * dD + dP"
    "\<bar>sin (2 * D2) - sin (2 * D1)\<bar> \<le> 2 * dD"
    "\<bar>sin (2 * P2) - sin (2 * P1)\<bar> \<le> 2 * dP"
    "\<bar>sin (M2) - sin (M1)\<bar> \<le> dM"
    "\<bar>sin (2 * F2) - sin (2 * F1)\<bar> \<le> 2 * dF"
    "\<bar>sin (2 * D2 - 2 * P2) - sin (2 * D1 - 2 * P1)\<bar> \<le> 2 * dD + 2 * dP"
    "\<bar>sin (2 * D2 - M2 - P2) - sin (2 * D1 - M1 - P1)\<bar> \<le> 2 * dD + dM + dP"
    "\<bar>sin (2 * D2 + P2) - sin (2 * D1 + P1)\<bar> \<le> 2 * dD + dP"
    "\<bar>sin (2 * D2 - M2) - sin (2 * D1 - M1)\<bar> \<le> 2 * dD + dM"
    "\<bar>sin (M2 - P2) - sin (M1 - P1)\<bar> \<le> dM + dP"
    "\<bar>sin (D2) - sin (D1)\<bar> \<le> dD"
    "\<bar>sin (M2 + P2) - sin (M1 + P1)\<bar> \<le> dM + dP"
    "\<bar>sin (2 * D2 - 2 * F2) - sin (2 * D1 - 2 * F1)\<bar> \<le> 2 * dD + 2 * dF"
    "\<bar>sin (P2 + 2 * F2) - sin (P1 + 2 * F1)\<bar> \<le> dP + 2 * dF"
    "\<bar>sin (P2 - 2 * F2) - sin (P1 - 2 * F1)\<bar> \<le> dP + 2 * dF"
    "\<bar>sin (4 * D2 - P2) - sin (4 * D1 - P1)\<bar> \<le> 4 * dD + dP"
    "\<bar>sin (3 * P2) - sin (3 * P1)\<bar> \<le> 3 * dP"
    "\<bar>sin (4 * D2 - 2 * P2) - sin (4 * D1 - 2 * P1)\<bar> \<le> 4 * dD + 2 * dP"
    "\<bar>sin (2 * D2 + M2 - P2) - sin (2 * D1 + M1 - P1)\<bar> \<le> 2 * dD + dM + dP"
    "\<bar>sin (2 * D2 + M2) - sin (2 * D1 + M1)\<bar> \<le> 2 * dD + dM"
    "\<bar>sin (D2 - P2) - sin (D1 - P1)\<bar> \<le> dD + dP"
    by (rule order_trans[OF sin_lipschitz], use assms in linarith)+
  show ?thesis
    unfolding sigmaL_def using t[THEN abs_le_D1] t[THEN abs_le_D2]
    by (simp add: abs_le_iff)
qed

lemma sigmaL_amplitude: "\<bar>sigmaL Dr Mr Mpr Fr\<bar> \<le> 9143055"
proof -
  have t:
    "\<bar>sin (Mpr)\<bar> \<le> 1"
    "\<bar>sin (2 * Dr - Mpr)\<bar> \<le> 1"
    "\<bar>sin (2 * Dr)\<bar> \<le> 1"
    "\<bar>sin (2 * Mpr)\<bar> \<le> 1"
    "\<bar>sin (Mr)\<bar> \<le> 1"
    "\<bar>sin (2 * Fr)\<bar> \<le> 1"
    "\<bar>sin (2 * Dr - 2 * Mpr)\<bar> \<le> 1"
    "\<bar>sin (2 * Dr - Mr - Mpr)\<bar> \<le> 1"
    "\<bar>sin (2 * Dr + Mpr)\<bar> \<le> 1"
    "\<bar>sin (2 * Dr - Mr)\<bar> \<le> 1"
    "\<bar>sin (Mr - Mpr)\<bar> \<le> 1"
    "\<bar>sin (Dr)\<bar> \<le> 1"
    "\<bar>sin (Mr + Mpr)\<bar> \<le> 1"
    "\<bar>sin (2 * Dr - 2 * Fr)\<bar> \<le> 1"
    "\<bar>sin (Mpr + 2 * Fr)\<bar> \<le> 1"
    "\<bar>sin (Mpr - 2 * Fr)\<bar> \<le> 1"
    "\<bar>sin (4 * Dr - Mpr)\<bar> \<le> 1"
    "\<bar>sin (3 * Mpr)\<bar> \<le> 1"
    "\<bar>sin (4 * Dr - 2 * Mpr)\<bar> \<le> 1"
    "\<bar>sin (2 * Dr + Mr - Mpr)\<bar> \<le> 1"
    "\<bar>sin (2 * Dr + Mr)\<bar> \<le> 1"
    "\<bar>sin (Dr - Mpr)\<bar> \<le> 1"
    by (rule abs_sin_le_one)+
  note u = t[THEN abs_le_D1] t[THEN abs_le_D2]
  show ?thesis
    unfolding sigmaL_def abs_le_iff using u by (intro conjI) linarith+
qed

lemma toRad_diff: "\<bar>toRad a - toRad b\<bar> \<le> \<bar>a - b\<bar> / 45"
proof -
  have "toRad a - toRad b = (a - b) * (pi / 180)" by (simp add: toRad_def algebra_simps diff_divide_distrib)
  then have "\<bar>toRad a - toRad b\<bar> = \<bar>a - b\<bar> * \<bar>pi / 180\<bar>" by (simp only: abs_mult)
  also have "\<bar>pi / 180\<bar> = pi / 180" by simp
  also have "\<bar>a - b\<bar> * (pi / 180) \<le> \<bar>a - b\<bar> * (4 / 180)"
    using pi_less_4 by (intro mult_left_mono) simp_all
  finally show ?thesis by simp
qed

text \<open>The series grows by between 344000 and 619000 degrees per century.\<close>

lemma moonLongitudeSeries_rate:
  fixes x y :: real
  assumes "\<bar>x\<bar> \<le> 420" and "\<bar>y\<bar> \<le> 420" and "x \<le> y"
  shows "344000 * (y - x) \<le> moonLongitudeSeries y - moonLongitudeSeries x"
    and "moonLongitudeSeries y - moonLongitudeSeries x \<le> 619000 * (y - x)"
proof -
  note r = argument_rates[OF assms]
  have dD: "\<bar>toRad (moonMeanElongation y) - toRad (moonMeanElongation x)\<bar> \<le> 445300 * (y - x) / 45"
    by (rule order_trans[OF toRad_diff]) (use r(3) in simp)
  have dM: "\<bar>toRad (sunMeanAnomaly y) - toRad (sunMeanAnomaly x)\<bar> \<le> 36010 * (y - x) / 45"
    by (rule order_trans[OF toRad_diff]) (use r(4) in simp)
  have dP: "\<bar>toRad (moonMeanAnomaly y) - toRad (moonMeanAnomaly x)\<bar> \<le> 477300 * (y - x) / 45"
    by (rule order_trans[OF toRad_diff]) (use r(5) in simp)
  have dF: "\<bar>toRad (moonArgLatitude y) - toRad (moonArgLatitude x)\<bar> \<le> 483300 * (y - x) / 45"
    by (rule order_trans[OF toRad_diff]) (use r(6) in simp)
  define S where "S = sigmaL (toRad (moonMeanElongation y)) (toRad (sunMeanAnomaly y))
      (toRad (moonMeanAnomaly y)) (toRad (moonArgLatitude y))
    - sigmaL (toRad (moonMeanElongation x)) (toRad (sunMeanAnomaly x))
      (toRad (moonMeanAnomaly x)) (toRad (moonArgLatitude x))"
  have "\<bar>S\<bar> \<le> 4471297 * (445300 * (y - x) / 45) + 373900 * (36010 * (y - x) / 45)
      + 8383749 * (477300 * (y - x) / 45) + 306334 * (483300 * (y - x) / 45)"
    unfolding S_def by (rule sigmaL_lipschitz[OF dD dM dP dF])
  then have S: "\<bar>S\<bar> \<le> 136760000000 * (y - x)" using assms(3) by linarith
  have eq: "moonLongitudeSeries y - moonLongitudeSeries x =
      (moonMeanLongitude y - moonMeanLongitude x) + S / 1000000"
    by (simp add: moonLongitudeSeries_def Let_def S_def diff_divide_distrib)
  show "344000 * (y - x) \<le> moonLongitudeSeries y - moonLongitudeSeries x"
    unfolding eq using r(1) S by linarith
  show "moonLongitudeSeries y - moonLongitudeSeries x \<le> 619000 * (y - x)"
    unfolding eq using r(2) S by linarith
qed

text \<open>Over long intervals the periodic part matters less than its amplitude.\<close>

lemma moonLongitudeSeries_long:
  fixes x y :: real
  assumes "\<bar>x\<bar> \<le> 420" and "\<bar>y\<bar> \<le> 420" and "x \<le> y"
  shows "481260 * (y - x) - 19 \<le> moonLongitudeSeries y - moonLongitudeSeries x"
proof -
  note r = argument_rates[OF assms]
  define Sy where "Sy = sigmaL (toRad (moonMeanElongation y)) (toRad (sunMeanAnomaly y))
      (toRad (moonMeanAnomaly y)) (toRad (moonArgLatitude y))"
  define Sx where "Sx = sigmaL (toRad (moonMeanElongation x)) (toRad (sunMeanAnomaly x))
      (toRad (moonMeanAnomaly x)) (toRad (moonArgLatitude x))"
  have a: "\<bar>Sy\<bar> \<le> 9143055" "\<bar>Sx\<bar> \<le> 9143055"
    unfolding Sy_def Sx_def by (rule sigmaL_amplitude)+
  have eq: "moonLongitudeSeries y - moonLongitudeSeries x =
      (moonMeanLongitude y - moonMeanLongitude x) + Sy / 1000000 - Sx / 1000000"
    by (simp add: moonLongitudeSeries_def Let_def Sy_def Sx_def)
  show ?thesis unfolding eq using r(1) a by linarith
qed

lemma julianCenturies_eq:
  "julianCenturies t = (real_of_int t - 946728000000) / 3155760000000"
  by (simp add: julianCenturies_def field_simps)

lemma getLahiriAyanamsha_centuries:
  "getLahiriAyanamsha t = 23.85575 + julianCenturies t * (5029 / 3600)"
  by (simp add: julianCenturies_eq getLahiriAyanamsha_def yearsSinceJ2000_def J2000_def
      AYANAMSHA_AT_J2000_def PRECESSION_RATE_DEG_PER_YEAR_def field_simps)

lemma julianCenturies_diff:
  "julianCenturies u - julianCenturies t = real_of_int (u - t) / 3155760000000"
  by (simp add: julianCenturies_eq diff_divide_distrib)

text \<open>
  Between two instants of the centuries \<open>|T| \<le> 420\<close> the unwrapped sidereal longitude
  grows, by between 343998 and 619000 degrees per century.
\<close>

lemma unwrapped_rate:
  assumes "\<bar>julianCenturies t\<bar> \<le> 420" and "\<bar>julianCenturies u\<bar> \<le> 420" and "t \<le> u"
  shows "343998 * (real_of_int (u - t) / 3155760000000)
           \<le> unwrappedLongitude u - unwrappedLongitude t"
    and "unwrappedLongitude u - unwrappedLongitude t
           \<le> 619000 * (real_of_int (u - t) / 3155760000000)"
proof -
  have le: "julianCenturies t \<le> julianCenturies u"
    using assms(3) by (simp add: julianCenturies_eq divide_right_mono)
  note s = moonLongitudeSeries_rate[OF assms(1,2) le]
  have d: "julianCenturies u - julianCenturies t = real_of_int (u - t) / 3155760000000"
    by (rule julianCenturies_diff)
  have a: "0 \<le> getLahiriAyanamsha u - getLahiriAyanamsha t"
    "getLahiriAyanamsha u - getLahiriAyanamsha t \<le> 2 * (julianCenturies u - julianCenturies t)"
    using le by (simp_all add: getLahiriAyanamsha_centuries)
  show "343998 * (real_of_int (u - t) / 3155760000000)
           \<le> unwrappedLongitude u - unwrappedLongitude t"
    using s(1) a unfolding d[symmetric] by linarith
  show "unwrappedLongitude u - unwrappedLongitude t
           \<le> 619000 * (real_of_int (u - t) / 3155760000000)"
    using s(2) a unfolding d[symmetric] by linarith
qed

lemma unwrapped_long:
  assumes "\<bar>julianCenturies t\<bar> \<le> 420" and "\<bar>julianCenturies u\<bar> \<le> 420" and "t \<le> u"
  shows "481258 * (real_of_int (u - t) / 3155760000000) - 19
           \<le> unwrappedLongitude u - unwrappedLongitude t"
proof -
  have le: "julianCenturies t \<le> julianCenturies u"
    using assms(3) by (simp add: julianCenturies_eq divide_right_mono)
  note s = moonLongitudeSeries_long[OF assms(1,2) le]
  have d: "julianCenturies u - julianCenturies t = real_of_int (u - t) / 3155760000000"
    by (rule julianCenturies_diff)
  have a: "0 \<le> getLahiriAyanamsha u - getLahiriAyanamsha t"
    "getLahiriAyanamsha u - getLahiriAyanamsha t \<le> 2 * (julianCenturies u - julianCenturies t)"
    using le by (simp_all add: getLahiriAyanamsha_centuries)
  show ?thesis using s a unfolding d[symmetric] by linarith
qed

text \<open>The tropical longitude is the series reduced to one turn.\<close>

lemma moonTropicalLongitude_floor:
  "moonTropicalLongitude t =
     moonLongitudeSeries (julianCenturies t)
       - 360 * real_of_int \<lfloor>moonLongitudeSeries (julianCenturies t) / 360\<rfloor>"
proof -
  define g where "g = moonLongitudeSeries (julianCenturies t)"
  have tr: "moonTropicalLongitude t = (if js_rem g 360 < 0 then js_rem g 360 + 360 else js_rem g 360)"
    by (simp add: moonTropicalLongitude_def Let_def g_def)
  have fl: "real_of_int \<lfloor>g / 360\<rfloor> \<le> g / 360" "g / 360 < real_of_int \<lfloor>g / 360\<rfloor> + 1"
    by linarith+
  show ?thesis
  proof (cases "0 \<le> g / 360")
    case True
    then have "js_rem g 360 = g - 360 * real_of_int \<lfloor>g / 360\<rfloor>" by (simp add: js_rem_def)
    moreover have "0 \<le> g - 360 * real_of_int \<lfloor>g / 360\<rfloor>" using fl(1) by simp
    ultimately show ?thesis using tr by (simp add: g_def)
  next
    case False
    then have r: "js_rem g 360 = g - 360 * real_of_int \<lceil>g / 360\<rceil>" by (simp add: js_rem_def)
    show ?thesis
    proof (cases "g / 360 = real_of_int \<lfloor>g / 360\<rfloor>")
      case True
      then have "\<lceil>g / 360\<rceil> = \<lfloor>g / 360\<rfloor>" by (metis ceiling_of_int)
      with r True have "js_rem g 360 = 0" "g - 360 * real_of_int \<lfloor>g / 360\<rfloor> = 0" by simp_all
      with tr show ?thesis by (simp add: g_def)
    next
      case False
      then have c: "\<lceil>g / 360\<rceil> = \<lfloor>g / 360\<rfloor> + 1"
        by (metis ceiling_altdef of_int_floor_cancel)
      have "g / 360 < real_of_int \<lceil>g / 360\<rceil>" using False fl c by linarith
      then have "js_rem g 360 < 0" using r by simp
      with tr r c show ?thesis by (simp add: g_def algebra_simps)
    qed
  qed
qed

lemma isSwathi_bounds: "isSwathi l \<longleftrightarrow> 560 / 3 \<le> l \<and> l < 200"
  by (simp add: isSwathi_def SWATHI_START_DEGREES_def SWATHI_END_DEGREES_def
      NAKSHATRA_SPAN_DEGREES_def)

text \<open>
  The sidereal longitude is the unwrapped one moved by whole turns; it is inside the band
  exactly when the unwrapped longitude is, up to a number of turns that differs by at most
  one from that of the series.
\<close>

lemma inside_iff:
  "isSwathi (getMoonSiderealLongitude t) \<longleftrightarrow>
     (\<exists>n::int. \<bar>n - \<lfloor>moonLongitudeSeries (julianCenturies t) / 360\<rfloor>\<bar> \<le> 1 \<and>
        isSwathi (unwrappedLongitude t - 360 * real_of_int n))"
proof -
  define m where "m = \<lfloor>moonLongitudeSeries (julianCenturies t) / 360\<rfloor>"
  define x where "x = moonTropicalLongitude t - getLahiriAyanamsha t"
  have x: "x = unwrappedLongitude t - 360 * real_of_int m"
    by (simp add: x_def m_def moonTropicalLongitude_floor)
  have sid: "getMoonSiderealLongitude t =
      (if x < 0 then x + 360 else if 360 \<le> x then x - 360 else x)"
    by (simp add: getMoonSiderealLongitude_def Let_def x_def)
  have "isSwathi (getMoonSiderealLongitude t) \<longleftrightarrow>
      isSwathi (x + 360) \<or> isSwathi x \<or> isSwathi (x - 360)"
    unfolding sid isSwathi_bounds by auto
  also have "\<dots> \<longleftrightarrow> (\<exists>n::int. \<bar>n - m\<bar> \<le> 1 \<and> isSwathi (unwrappedLongitude t - 360 * real_of_int n))"
  proof
    assume "isSwathi (x + 360) \<or> isSwathi x \<or> isSwathi (x - 360)"
    then consider "isSwathi (x + 360)" | "isSwathi x" | "isSwathi (x - 360)" by blast
    then show "\<exists>n::int. \<bar>n - m\<bar> \<le> 1 \<and> isSwathi (unwrappedLongitude t - 360 * real_of_int n)"
    proof cases
      case 1
      then have "isSwathi (unwrappedLongitude t - 360 * real_of_int (m - 1))"
        by (simp add: x algebra_simps)
      then show ?thesis by (intro exI[of _ "m - 1"]) simp
    next
      case 2
      then show ?thesis by (intro exI[of _ m]) (simp add: x)
    next
      case 3
      then have "isSwathi (unwrappedLongitude t - 360 * real_of_int (m + 1))"
        by (simp add: x algebra_simps)
      then show ?thesis by (intro exI[of _ "m + 1"]) simp
    qed
  next
    assume "\<exists>n::int. \<bar>n - m\<bar> \<le> 1 \<and> isSwathi (unwrappedLongitude t - 360 * real_of_int n)"
    then obtain n :: int where n: "\<bar>n - m\<bar> \<le> 1"
      "isSwathi (unwrappedLongitude t - 360 * real_of_int n)" by blast
    from n(1) consider "n = m - 1" | "n = m" | "n = m + 1" by linarith
    then show "isSwathi (x + 360) \<or> isSwathi x \<or> isSwathi (x - 360)"
    proof cases
      case 1 with n(2) show ?thesis by (simp add: x algebra_simps)
    next
      case 2 with n(2) show ?thesis by (simp add: x)
    next
      case 3 with n(2) show ?thesis by (simp add: x algebra_simps)
    qed
  qed
  finally show ?thesis unfolding m_def .
qed

text \<open>Inside the band the ayanamsha is below 560 degrees, so the instant is within 419
  centuries of J2000.\<close>

lemma inside_centuries:
  assumes "isSwathi (getMoonSiderealLongitude t)"
  shows "\<bar>julianCenturies t\<bar> \<le> 419"
proof -
  define x where "x = moonTropicalLongitude t - getLahiriAyanamsha t"
  have sid: "getMoonSiderealLongitude t =
      (if x < 0 then x + 360 else if 360 \<le> x then x - 360 else x)"
    by (simp add: getMoonSiderealLongitude_def Let_def x_def)
  from assms have "- 174 \<le> x \<and> x < 560" unfolding sid isSwathi_bounds by (auto split: if_splits)
  moreover have "0 \<le> moonTropicalLongitude t" "moonTropicalLongitude t < 360"
    using moonTropicalLongitude_range by blast+
  ultimately have "- 560 < getLahiriAyanamsha t" "getLahiriAyanamsha t < 534"
    unfolding x_def by linarith+
  then show ?thesis unfolding getLahiriAyanamsha_centuries by (simp add: abs_le_iff)
qed

text \<open>Two instants inside the band cannot be two days apart.\<close>

lemma not_inside_two_days_apart:
  assumes t: "isSwathi (getMoonSiderealLongitude t)"
    and u: "isSwathi (getMoonSiderealLongitude (t + 172800000))"
  shows False
proof -
  let ?u = "t + 172800000"
  have T: "\<bar>julianCenturies t\<bar> \<le> 420" "\<bar>julianCenturies ?u\<bar> \<le> 420"
    using inside_centuries[OF t] inside_centuries[OF u] by linarith+
  have "t \<le> ?u" by simp
  note r = unwrapped_rate[OF T this]
  have d: "18 \<le> unwrappedLongitude ?u - unwrappedLongitude t"
    "unwrappedLongitude ?u - unwrappedLongitude t \<le> 34"
    using r by simp_all
  from t obtain n :: int where n: "isSwathi (unwrappedLongitude t - 360 * real_of_int n)"
    unfolding inside_iff by blast
  from u obtain n' :: int where n': "isSwathi (unwrappedLongitude ?u - 360 * real_of_int n')"
    unfolding inside_iff by blast
  from n n' d have "0 < real_of_int (n' - n)" "real_of_int (n' - n) < 1"
    unfolding isSwathi_bounds by simp_all
  then have "0 < n' - n" "n' - n < 1" by linarith+
  then show False by linarith
qed

lemma leaves_band:
  assumes "isSwathi (getMoonSiderealLongitude t)"
  shows "\<not> isSwathi (getMoonSiderealLongitude (t + int 96 * coarseStep))"
    and "\<not> isSwathi (getMoonSiderealLongitude (t + int 96 * - coarseStep))"
proof -
  show "\<not> isSwathi (getMoonSiderealLongitude (t + int 96 * coarseStep))"
    using not_inside_two_days_apart[of t] assms by (auto simp: coarseStep_def)
  show "\<not> isSwathi (getMoonSiderealLongitude (t + int 96 * - coarseStep))"
    using not_inside_two_days_apart[of "t - 172800000"] assms by (auto simp: coarseStep_def)
qed


lemma findCurrentOrNextSwathiPeriod_returns:
  "\<exists>r. findCurrentOrNextSwathiPeriod ref = Some r"
  unfolding findCurrentOrNextSwathiPeriod_def
  by (rule findPeriodWith_returns) (use leaves_band in blast)+

lemma julianCenturies_mono: "t \<le> u \<Longrightarrow> julianCenturies t \<le> julianCenturies u"
  by (simp add: julianCenturies_eq divide_right_mono)

lemma series_turns_mono:
  assumes "\<bar>julianCenturies t\<bar> \<le> 420" and "\<bar>julianCenturies u\<bar> \<le> 420" and "t \<le> u"
  shows "\<lfloor>moonLongitudeSeries (julianCenturies t) / 360\<rfloor>
    \<le> \<lfloor>moonLongitudeSeries (julianCenturies u) / 360\<rfloor>"
proof -
  have le: "julianCenturies t \<le> julianCenturies u" using assms(3) by (rule julianCenturies_mono)
  have "0 \<le> 344000 * (julianCenturies u - julianCenturies t)" using le by simp
  with moonLongitudeSeries_rate(1)[OF assms(1,2) le]
  have "moonLongitudeSeries (julianCenturies t) \<le> moonLongitudeSeries (julianCenturies u)"
    by linarith
  then show ?thesis by (intro floor_mono divide_right_mono) simp_all
qed

text \<open>
  Once the band is left between two probes one minute apart, the Moon is still outside one
  millisecond later.
\<close>

lemma band_exit_persists:
  assumes a: "isSwathi (getMoonSiderealLongitude (e - fineStep))"
    and e: "\<not> isSwathi (getMoonSiderealLongitude e)"
  shows "\<not> isSwathi (getMoonSiderealLongitude (e + 1))"
proof
  assume c: "isSwathi (getMoonSiderealLongitude (e + 1))"
  let ?a = "e - 60000" and ?c = "e + 1"
  have a': "isSwathi (getMoonSiderealLongitude ?a)" using a by (simp add: fineStep_def)
  have Ta: "\<bar>julianCenturies ?a\<bar> \<le> 420" using inside_centuries[OF a'] by linarith
  have Tc: "\<bar>julianCenturies ?c\<bar> \<le> 420" using inside_centuries[OF c] by linarith
  have "julianCenturies ?a \<le> julianCenturies e" "julianCenturies e \<le> julianCenturies ?c"
    by (rule julianCenturies_mono, simp)+
  with Ta Tc have Te: "\<bar>julianCenturies e\<bar> \<le> 420" by linarith
  have ae: "?a \<le> e" and ec: "e \<le> ?c" by simp_all
  have r1: "0 \<le> unwrappedLongitude e - unwrappedLongitude ?a"
    "unwrappedLongitude e - unwrappedLongitude ?a \<le> 1"
    using unwrapped_rate[OF Ta Te ae] by simp_all
  have r2: "0 \<le> unwrappedLongitude ?c - unwrappedLongitude e"
    "unwrappedLongitude ?c - unwrappedLongitude e \<le> 1"
    using unwrapped_rate[OF Te Tc ec] by simp_all
  from a' obtain n1 :: int where
    n1: "\<bar>n1 - \<lfloor>moonLongitudeSeries (julianCenturies ?a) / 360\<rfloor>\<bar> \<le> 1"
      "isSwathi (unwrappedLongitude ?a - 360 * real_of_int n1)"
    unfolding inside_iff by blast
  from c obtain n2 :: int where
    n2: "\<bar>n2 - \<lfloor>moonLongitudeSeries (julianCenturies ?c) / 360\<rfloor>\<bar> \<le> 1"
      "isSwathi (unwrappedLongitude ?c - 360 * real_of_int n2)"
    unfolding inside_iff by blast
  from n1(2) n2(2) r1 r2 have "- 1 < real_of_int (n2 - n1)" "real_of_int (n2 - n1) < 1"
    unfolding isSwathi_bounds by simp_all
  then have "- 1 < n2 - n1" "n2 - n1 < 1" by linarith+
  then have eq: "n2 = n1" by linarith
  from n1(2) n2(2) r1 r2 have "isSwathi (unwrappedLongitude e - 360 * real_of_int n1)"
    unfolding isSwathi_bounds eq by linarith
  moreover have "\<bar>n1 - \<lfloor>moonLongitudeSeries (julianCenturies e) / 360\<rfloor>\<bar> \<le> 1"
    using n1(1) n2(1) series_turns_mono[OF Ta Te ae] series_turns_mono[OF Te Tc ec]
    unfolding eq by linarith
  ultimately have "isSwathi (getMoonSiderealLongitude e)" unfolding inside_iff[of e] by blast
  with e show False ..
qed

text \<open>
  A sequence that grows in steps of at most 13 degrees and gains a whole turn visits the
  band.
\<close>

lemma crossing:
  fixes f :: "nat \<Rightarrow> real"
  assumes steps: "\<And>k. k < N \<Longrightarrow> f (Suc k) - f k \<le> 13"
    and total: "360 \<le> f N - f 0"
  shows "\<exists>k\<le>N. \<exists>n::int. isSwathi (f k - 360 * real_of_int n)"
proof -
  define n where "n = \<lceil>(f 0 - 560 / 3) / 360\<rceil>"
  define target where "target = 560 / 3 + 360 * real_of_int n"
  have "(f 0 - 560 / 3) / 360 \<le> real_of_int n" "real_of_int n < (f 0 - 560 / 3) / 360 + 1"
    unfolding n_def by linarith+
  then have tg: "f 0 \<le> target" "target < f 0 + 360" unfolding target_def by (simp_all add: field_simps)
  with total have PN: "target \<le> f N" by linarith
  define k0 where "k0 = (LEAST k. target \<le> f k)"
  have P: "target \<le> f k0" unfolding k0_def using PN by (rule LeastI)
  have le: "k0 \<le> N" unfolding k0_def using PN by (rule Least_le)
  have "f k0 < target + 13"
  proof (cases k0)
    case 0
    with tg(1) P show ?thesis by simp
  next
    case (Suc j)
    then have "j < k0" by simp
    then have "\<not> target \<le> f j" unfolding k0_def by (rule not_less_Least)
    moreover have "f (Suc j) - f j \<le> 13" using steps[of j] Suc le by simp
    ultimately show ?thesis using Suc by simp
  qed
  with P have "isSwathi (f k0 - 360 * real_of_int n)"
    unfolding isSwathi_bounds target_def by simp
  with le show ?thesis by blast
qed

lemma inside_unwrapped_I:
  assumes ay: "\<bar>getLahiriAyanamsha t\<bar> \<le> 360"
    and n: "isSwathi (unwrappedLongitude t - 360 * real_of_int n)"
  shows "isSwathi (getMoonSiderealLongitude t)"
proof -
  define m where "m = \<lfloor>moonLongitudeSeries (julianCenturies t) / 360\<rfloor>"
  have "0 \<le> moonTropicalLongitude t" "moonTropicalLongitude t < 360"
    using moonTropicalLongitude_range by blast+
  then have "0 \<le> moonLongitudeSeries (julianCenturies t) - 360 * real_of_int m"
    "moonLongitudeSeries (julianCenturies t) - 360 * real_of_int m < 360"
    unfolding moonTropicalLongitude_floor m_def by simp_all
  with ay n have "- 2 < real_of_int n - real_of_int m" "real_of_int n - real_of_int m < 2"
    unfolding isSwathi_bounds by linarith+
  then have "- 2 < n - m" "n - m < 2" by linarith+
  then have "\<bar>n - m\<bar> \<le> 1" by linarith
  with n show ?thesis unfolding inside_iff m_def by blast
qed

lemma centuries_within_horizon:
  assumes "\<bar>julianCenturies ref\<bar> \<le> 200" and "k \<le> 1440"
  shows "\<bar>julianCenturies (ref + int k * coarseStep)\<bar> \<le> 201"
proof -
  have "real k \<le> 1440" using assms(2) by simp
  then show ?thesis using assms(1)
    by (simp add: julianCenturies_eq coarseStep_def abs_le_iff field_simps)
qed

text \<open>Within 200 centuries of J2000 the Moon enters the band within thirty days.\<close>

lemma next_band_within_horizon:
  assumes "\<bar>julianCenturies ref\<bar> \<le> 200"
  shows "\<exists>k\<le>1440. isSwathi (getMoonSiderealLongitude (ref + int k * coarseStep))"
proof -
  define f where "f k = unwrappedLongitude (ref + int k * coarseStep)" for k
  have T: "\<bar>julianCenturies (ref + int k * coarseStep)\<bar> \<le> 420" if "k \<le> 1440" for k
    using centuries_within_horizon[OF assms that] by linarith
  have steps: "f (Suc k) - f k \<le> 13" if "k < 1440" for k
  proof -
    have le: "ref + int k * coarseStep \<le> ref + int (Suc k) * coarseStep"
      by (simp add: coarseStep_def)
    from that have "k \<le> 1440" "Suc k \<le> 1440" by simp_all
    from unwrapped_rate(2)[OF T[OF this(1)] T[OF this(2)] le]
    show ?thesis unfolding f_def by (simp add: coarseStep_def algebra_simps)
  qed
  have total: "360 \<le> f 1440 - f 0"
  proof -
    have le: "ref + int 0 * coarseStep \<le> ref + int 1440 * coarseStep"
      by (simp add: coarseStep_def)
    from unwrapped_long[OF T[of 0] T[of 1440] le]
    show ?thesis unfolding f_def by (simp add: coarseStep_def)
  qed
  from crossing[of 1440 f, OF steps total] obtain k and n :: int where
    k: "k \<le> 1440" "isSwathi (f k - 360 * real_of_int n)" by blast
  have "\<bar>getLahiriAyanamsha (ref + int k * coarseStep)\<bar> \<le> 360"
    using centuries_within_horizon[OF assms k(1)]
    unfolding getLahiriAyanamsha_centuries by (simp add: abs_le_iff)
  from inside_unwrapped_I[OF this k(2)[unfolded f_def]] k(1) show ?thesis by blast
qed

lemma findCurrentOrNextSwathiPeriod_succeeds:
  assumes "\<bar>julianCenturies ref\<bar> \<le> 200"
  shows "\<exists>p. findCurrentOrNextSwathiPeriod ref = Some (Inr p)"
proof -
  from findCurrentOrNextSwathiPeriod_returns obtain r where
    r: "findCurrentOrNextSwathiPeriod ref = Some r" ..
  show ?thesis
  proof (cases r)
    case (Inl e)
    with r have "findPeriodWith getMoonSiderealLongitude ref = Some (Inl e)"
      by (simp add: findCurrentOrNextSwathiPeriod_def)
    moreover have "\<not> (\<forall>k::nat. k \<le> 1440 \<longrightarrow>
        \<not> isSwathi (getMoonSiderealLongitude (ref + int k * coarseStep)))"
      using next_band_within_horizon[OF assms] by blast
    ultimately have False
      using findPeriodWith_no_error_inside[of getMoonSiderealLongitude ref e]
        findPeriodWith_error_outside[of getMoonSiderealLongitude ref e]
        scanToNext_error[of getMoonSiderealLongitude ref ref e]
        scanToNext_exhausted_iff[of getMoonSiderealLongitude ref]
      by blast
    then show ?thesis ..
  next
    case (Inr p)
    with r show ?thesis by blast
  qed
qed

lemma period_end_centuries:
  assumes T: "\<bar>julianCenturies ref\<bar> \<le> 199"
    and p: "findCurrentOrNextSwathiPeriod ref = Some (Inr p)"
  shows "\<bar>julianCenturies (end' p + 1)\<bar> \<le> 200"
proof -
  from findPeriodWith_spec[OF p[unfolded findCurrentOrNextSwathiPeriod_def]]
  have lo: "ref < end' p" using step_facts(3) by (auto split: if_splits)
  have hi: "end' p \<le> ref + searchHorizon + int 96 * coarseStep"
    using findPeriodWith_end_bound[OF p[unfolded findCurrentOrNextSwathiPeriod_def], of 96]
      leaves_band(1) by blast
  from lo hi have "0 \<le> end' p + 1 - ref" "end' p + 1 - ref \<le> 3000000000"
    by (simp_all add: searchHorizon_def coarseStep_def)
  then have "0 \<le> real_of_int (end' p + 1 - ref)" "real_of_int (end' p + 1 - ref) \<le> 3000000000"
    by simp_all
  then have "0 \<le> julianCenturies (end' p + 1) - julianCenturies ref"
    "julianCenturies (end' p + 1) - julianCenturies ref \<le> 1"
    unfolding julianCenturies_diff by simp_all
  with T show ?thesis by linarith
qed

lemma successive_periods_exist:
  assumes "\<bar>julianCenturies ref\<bar> \<le> 199"
  shows "\<exists>p p2. findCurrentOrNextSwathiPeriod ref = Some (Inr p) \<and>
     findCurrentOrNextSwathiPeriod (end' p + 1) = Some (Inr p2)"
proof -
  from assms have "\<bar>julianCenturies ref\<bar> \<le> 200" by simp
  from findCurrentOrNextSwathiPeriod_succeeds[OF this] obtain p where
    p: "findCurrentOrNextSwathiPeriod ref = Some (Inr p)" ..
  from findCurrentOrNextSwathiPeriod_succeeds[OF period_end_centuries[OF assms p]] p
  show ?thesis by blast
qed

section \<open>The locators on the stand-ins\<close>

lemma isSwathi_samples: "isSwathi 190" "\<not> isSwathi 10"
  by (simp_all add: isSwathi_def SWATHI_START_DEGREES_def SWATHI_END_DEGREES_def
      NAKSHATRA_SPAN_DEGREES_def)

lemma sample_modeA:
  "findPeriodWith sampleLongitude 3600000 = Some (Inr \<lparr>start = 0, end' = 7200000\<rparr>)"
  by (simp add: findPeriodWith_def Let_def scan.simps isSwathi_samples coarseStep_def fineStep_def)

lemma sample_modeB:
  "findPeriodWith sampleLongitude (- 3600000) = Some (Inr \<lparr>start = 0, end' = 7200000\<rparr>)"
  by (simp add: findPeriodWith_def Let_def scan.simps scanToNext.simps isSwathi_samples
      coarseStep_def fineStep_def searchHorizon_def)

lemma sample_modeA_util:
  "findPeriodWith_util sampleLongitude 3600000 = Some \<lparr>start = 0, end' = 7200000\<rparr>"
  by (simp add: findPeriodWith_util_def Let_def scan.simps isSwathi_samples coarseStep_util_def
      fineStep_def)

lemma sample_sidereal:
  "siderealFromEcliptic sampleEcliptic t =
     (let x = (if 946728000000 \<le> t \<and> t < 946733400000 then 215 else 0) - getLahiriAyanamsha t
      in if x < 0 then x + 360 else x)"
  by (simp add: siderealFromEcliptic_def Let_def)

lemma sample_band:
  "946720000000 \<le> t \<Longrightarrow> t \<le> 946740000000 \<Longrightarrow>
   isSwathi (siderealFromEcliptic sampleEcliptic t) \<longleftrightarrow> 946728000000 \<le> t \<and> t < 946733400000"
proof -
  assume a: "946720000000 \<le> t" "t \<le> 946740000000"
  have "real_of_int 946720000000 \<le> real_of_int t" "real_of_int t \<le> real_of_int 946740000000"
    using a by (simp_all only: of_int_le_iff)
  then have "23 < getLahiriAyanamsha t" "getLahiriAyanamsha t < 24"
    by (simp_all add: getLahiriAyanamsha_def yearsSinceJ2000_def J2000_def AYANAMSHA_AT_J2000_def
      PRECESSION_RATE_DEG_PER_YEAR_def field_simps)
  then show ?thesis
    unfolding sample_sidereal Let_def
    by (simp add: isSwathi_def SWATHI_START_DEGREES_def SWATHI_END_DEGREES_def
      NAKSHATRA_SPAN_DEGREES_def)
qed


lemma util_run:
  assumes "\<And>t. 946720000000 \<le> t \<Longrightarrow> t \<le> 946740000000 \<Longrightarrow>
     isSwathi (lon t) \<longleftrightarrow> 946728000000 \<le> t \<and> t < 946733400000"
  shows "findPeriodWith_util lon 946728600000 =
     Some \<lparr>start = 946728000000, end' = 946735800000\<rparr>"
  by (simp add: findPeriodWith_util_def Let_def scan.simps assms coarseStep_util_def fineStep_def)

lemma sample_util:
  "findCurrentOrNextSwathiPeriod_util (Some sampleEcliptic) 946728600000 =
     Some (Inr \<lparr>start = 946728000000, end' = 946735800000\<rparr>)"
  unfolding findCurrentOrNextSwathiPeriod_util_def option.case
  by (subst util_run) (simp_all only: sample_band option.map)

section \<open>Where periods are found\<close>

text \<open>
  A call that returns a period has a reference instant before the end of that period and
  not later than 419 centuries after J2000.
\<close>

lemma success_bounded:
  assumes "findCurrentOrNextSwathiPeriod ref = Some (Inr p)"
  shows "ref < end' p" and "julianCenturies ref \<le> 419"
proof -
  note s = findPeriodWith_spec[OF assms[unfolded findCurrentOrNextSwathiPeriod_def]]
  from s show "ref < end' p" using step_facts(3) by (auto split: if_splits)
  show "julianCenturies ref \<le> 419"
  proof (cases "isSwathi (getMoonSiderealLongitude ref)")
    case True
    from inside_centuries[OF this] show ?thesis by simp
  next
    case False
    with s have "ref \<le> start p" "isSwathi (getMoonSiderealLongitude (start p))" by simp_all
    from julianCenturies_mono[OF this(1)] inside_centuries[OF this(2)] show ?thesis by simp
  qed
qed

lemma locate_error_exhausted:
  "findCurrentOrNextSwathiPeriod ref = Some (Inl e) \<Longrightarrow> e = SearchExhausted"
  unfolding findCurrentOrNextSwathiPeriod_def
  using findPeriodWith_no_error_inside[of getMoonSiderealLongitude ref e]
    findPeriodWith_error_outside[of getMoonSiderealLongitude ref e]
    scanToNext_error[of getMoonSiderealLongitude ref ref e] by blast

section \<open>The store model computes the functions of time values\<close>

lemma unchanged_trans: "unchanged a b \<Longrightarrow> unchanged b c \<Longrightarrow> unchanged a c"
  by (auto simp: unchanged_def)

lemma unchanged_newDate: "unchanged w (snd (newDate t w))"
  by (simp add: unchanged_def newDate_def getTime_def)

lemma tracks_newDate: "tracks w (newDate t w) t"
  by (simp add: tracks_def newDate_def getTime_def unchanged_def)

text \<open>A loop over a state that tracks a time value is the scan of that time value.\<close>

lemma whileLoop_Some_D:
  assumes run: "whileLoop test body s = Some s'"
    and R: "R s t"
    and test: "\<And>s t. R s t \<Longrightarrow> fst (test s) = cond t \<and> R (snd (test s)) t"
    and body: "\<And>s t. R s t \<Longrightarrow> cond t \<Longrightarrow> R (body (snd (test s))) (t + step)"
  shows "\<exists>t'. scan cond step t = Some t' \<and> R s' t'"
proof -
  have "test' = test \<longrightarrow> body' = body \<longrightarrow>
      (\<forall>t. R s t \<longrightarrow> (\<exists>t'. scan cond step t = Some t' \<and> R s' t'))"
    if "whileLoop test' body' s = Some s'" for test' body'
  proof (rule whileLoop.raw_induct
      [where P = "\<lambda>test' body' s s'. test' = test \<longrightarrow> body' = body \<longrightarrow>
         (\<forall>t. R s t \<longrightarrow> (\<exists>t'. scan cond step t = Some t' \<and> R s' t'))", OF _ that], goal_cases)
    case (1 loop tst bdy s s')
    show ?case
    proof (intro impI allI)
      fix t assume eq: "tst = test" "bdy = body" and Rs: "R s t"
      note ts = test[OF Rs]
      show "\<exists>t'. scan cond step t = Some t' \<and> R s' t'"
      proof (cases "cond t")
        case True
        with 1(2) ts eq have "loop test body (body (snd (test s))) = Some s'"
          by (simp split: prod.splits)
        from 1(1)[OF this[folded eq]] eq body[OF Rs True]
        obtain t' where "scan cond step (t + step) = Some t'" "R s' t'" by blast
        with True show ?thesis by (subst scan.simps) simp
      next
        case False
        with 1(2) ts eq have "s' = snd (test s)" by (simp split: prod.splits)
        with ts False show ?thesis by (subst scan.simps) simp
      qed
    qed
  qed
  with run R show ?thesis by blast
qed

lemma whileLoop_unfold:
  "whileLoop test body s =
     (if fst (test s) then whileLoop test body (body (snd (test s))) else Some (snd (test s)))"
  by (subst whileLoop.simps) (simp split: prod.splits)

lemma whileLoop_Some_I:
  assumes run: "scan cond step t = Some t'"
    and R: "R s t"
    and test: "\<And>s t. R s t \<Longrightarrow> fst (test s) = cond t \<and> R (snd (test s)) t"
    and body: "\<And>s t. R s t \<Longrightarrow> cond t \<Longrightarrow> R (body (snd (test s))) (t + step)"
  shows "\<exists>s'. whileLoop test body s = Some s'"
proof -
  have "cond' = cond \<longrightarrow> step' = step \<longrightarrow>
      (\<forall>s. R s t \<longrightarrow> (\<exists>s'. whileLoop test body s = Some s'))"
    if "scan cond' step' t = Some t'" for cond' step'
  proof (rule scan.raw_induct
      [where P = "\<lambda>cond' step' t t'. cond' = cond \<longrightarrow> step' = step \<longrightarrow>
         (\<forall>s. R s t \<longrightarrow> (\<exists>s'. whileLoop test body s = Some s'))", OF _ that], goal_cases)
    case (1 scan' c st t t')
    show ?case
    proof (intro impI allI)
      fix s assume eq: "c = cond" "st = step" and Rs: "R s t"
      note ts = test[OF Rs]
      show "\<exists>s'. whileLoop test body s = Some s'"
      proof (cases "cond t")
        case True
        with 1(2) eq have "scan' cond step (t + step) = Some t'" by simp
        from 1(1)[OF this[folded eq]] eq body[OF Rs True]
        obtain s' where "whileLoop test body (body (snd (test s))) = Some s'" by blast
        with True ts show ?thesis by (subst whileLoop_unfold) simp
      next
        case False
        with ts show ?thesis by (subst whileLoop_unfold) simp
      qed
    qed
  qed
  with run R show ?thesis by blast
qed

lemma whileLoop_scan:
  assumes R: "R s t"
    and test: "\<And>s t. R s t \<Longrightarrow> fst (test s) = cond t \<and> R (snd (test s)) t"
    and body: "\<And>s t. R s t \<Longrightarrow> cond t \<Longrightarrow> R (body (snd (test s))) (t + step)"
  shows "rel_option R (whileLoop test body s) (scan cond step t)"
proof (cases "whileLoop test body s")
  case None
  have "scan cond step t = None"
  proof (cases "scan cond step t")
    case (Some t')
    have "\<exists>s'. whileLoop test body s = Some s'"
      using Some R test body by (rule whileLoop_Some_I[where R = R and cond = cond and step = step])
    with None show ?thesis by auto
  qed simp
  with None show ?thesis by simp
next
  case (Some s')
  have "\<exists>t'. scan cond step t = Some t' \<and> R s' t'"
    using Some R test body by (rule whileLoop_Some_D[where R = R and cond = cond and step = step])
  with Some show ?thesis by auto
qed

text \<open>The tests and the bodies of the scans keep the invariant.\<close>

lemma tracks_insideAt:
  "tracks w0 s t \<Longrightarrow> fst (insideAt lon s) = isSwathi (lon t) \<and> tracks w0 (snd (insideAt lon s)) t"
  by (cases s) (simp add: tracks_def insideAt_def)

lemma tracks_outsideAt:
  "tracks w0 s t \<Longrightarrow>
     fst (outsideAt lon s) = (\<not> isSwathi (lon t)) \<and> tracks w0 (snd (outsideAt lon s)) t"
  by (cases s) (simp add: tracks_def outsideAt_def)

lemma tracks_insideBefore:
  "tracks w0 s t \<Longrightarrow>
     fst (insideBefore lon s) = isSwathi (lon (t - fineStep)) \<and>
     tracks w0 (snd (insideBefore lon s)) t"
  by (cases s)
    (auto simp: tracks_def insideBefore_def newDate_def getTime_def unchanged_def Let_def)

lemma tracks_stepNew: "tracks w0 s t \<Longrightarrow> tracks w0 (stepNew step s) (t + step)"
  by (cases s) (auto simp: tracks_def stepNew_def newDate_def getTime_def unchanged_def)

lemma tracks_stepSet: "tracks w0 s t \<Longrightarrow> tracks w0 (stepSet step s) (t + step)"
  by (cases s) (auto simp: tracks_def stepSet_def setTime_def getTime_def unchanged_def)

lemma heap_loop:
  assumes "tracks w0 s t"
    and "\<And>s t. tracks w0 s t \<Longrightarrow> fst (test s) = cond t \<and> tracks w0 (snd (test s)) t"
    and "\<And>s t. tracks w0 s t \<Longrightarrow> tracks w0 (body s) (t + step)"
  shows "rel_option (tracks w0) (whileLoop test body s) (scan cond step t)"
  using assms(1)
proof (rule whileLoop_scan[where R = "tracks w0"])
  fix s t assume "tracks w0 s t"
  then show "fst (test s) = cond t \<and> tracks w0 (snd (test s)) t" by (rule assms(2))
next
  fix s t assume "tracks w0 s t" "cond t"
  from assms(2)[OF this(1)] have "tracks w0 (snd (test s)) t" by simp
  then show "tracks w0 (body (snd (test s))) (t + step)" by (rule assms(3))
qed

lemma rel_bind:
  "rel_option A m m' \<Longrightarrow> (\<And>x y. A x y \<Longrightarrow> rel_option B (f x) (g y)) \<Longrightarrow>
     rel_option B (Option.bind m f) (Option.bind m' g)"
  by (cases m; cases m') simp_all

lemma scanToNext_heap_unfold:
  "scanToNext_heap lon c (d, w) =
     (if \<not> isSwathi (lon (getTime w d)) then
        (let s' = newDate (getTime w d + coarseStep) w
         in if getTime (snd s') (fst s') - getTime (snd s') c > searchHorizon
            then Some (Inl SearchExhausted, snd s')
            else scanToNext_heap lon c s')
      else Some (Inr d, w))"
  by (subst scanToNext_heap.simps) (simp add: Let_def split: prod.splits)

lemma scanToNext_heap_sim:
  assumes "tracks w0 s t" and "c < allocated w0" and "getTime w0 c = tc"
  shows "\<exists>r w'. scanToNext_heap lon c s = Some (r, w') \<and> unchanged w0 w' \<and>
     (case scanToNext lon tc t of
        Inl e \<Rightarrow> r = Inl e
      | Inr t' \<Rightarrow> \<exists>d. r = Inr d \<and> tracks w0 (d, w') t')"
  using assms
proof (induction lon tc t arbitrary: s rule: scanToNext.induct)
  case (1 lon tc t)
  obtain d w where s: "s = (d, w)" by (cases s)
  from "1.prems"(1) have tr: "allocated w0 \<le> d" "d < allocated w" "getTime w d = t" "unchanged w0 w"
    unfolding s tracks_def by simp_all
  show ?case
  proof (cases "isSwathi (lon t)")
    case True
    then show ?thesis using tr "1.prems"(1) unfolding s
      by (subst scanToNext_heap_unfold, subst scanToNext.simps) simp
  next
    case False
    define s' where "s' = newDate (t + coarseStep) w"
    have tr': "tracks w0 s' (t + coarseStep)"
      using tr unfolding s'_def
      by (auto simp: tracks_def newDate_def getTime_def unchanged_def)
    have c': "getTime (snd s') c = tc" "getTime (snd s') (fst s') = t + coarseStep"
      "unchanged w0 (snd s')"
      using tr' "1.prems"(2,3) by (auto simp: tracks_def unchanged_def split: prod.splits)
    show ?thesis
    proof (cases "t + coarseStep - tc > searchHorizon")
      case True
      with False c' tr show ?thesis unfolding s
        by (subst scanToNext_heap_unfold, subst scanToNext.simps)
          (simp add: s'_def[symmetric] Let_def)
    next
      case h: False
      from "1.IH"[OF False refl h tr' "1.prems"(2,3)] 
      show ?thesis using False h c' tr unfolding s
        by (subst scanToNext_heap_unfold, subst scanToNext.simps)
          (simp add: s'_def[symmetric] Let_def)
    qed
  qed
qed

lemma newDate_get: "getTime (snd (newDate t w)) (fst (newDate t w)) = t"
  by (simp add: newDate_def getTime_def)

lemma newDate_fresh: "fst (newDate t w) < allocated (snd (newDate t w))"
  by (simp add: newDate_def)

lemma unchanged_get: "unchanged w w' \<Longrightarrow> d < allocated w \<Longrightarrow> getTime w' d = getTime w d"
  by (simp add: unchanged_def)

text \<open>The search for the end, which both modes of the self-contained version share.\<close>

lemma end_tail:
  assumes e0: "tracks w3 e0 t" and ps: "ps < allocated w3" "getTime w3 ps = ts"
    and u: "unchanged w w3"
  shows "rel_option (\<lambda>x r'. unchanged w (snd x) \<and> outcome (Some x) = Some r')
     (whileLoop (insideAt lon) (stepNew coarseStep) e0 \<bind>
       (\<lambda>e. whileLoop (outsideAt lon) (stepNew (- fineStep)) e \<bind>
         (\<lambda>e. Some (Inr (ps, fst (newDate (getTime (snd e) (fst e) + fineStep) (snd e))),
                    snd (newDate (getTime (snd e) (fst e) + fineStep) (snd e))))))
     (scan (\<lambda>d. isSwathi (lon d)) coarseStep t \<bind>
       (\<lambda>e. scan (\<lambda>d. \<not> isSwathi (lon d)) (- fineStep) e \<bind>
         (\<lambda>e. Some (Inr \<lparr>start = ts, end' = e + fineStep\<rparr>))))"
proof (rule rel_bind[where A = "tracks w3"])
  show "rel_option (tracks w3) (whileLoop (insideAt lon) (stepNew coarseStep) e0)
     (scan (\<lambda>d. isSwathi (lon d)) coarseStep t)"
    using e0 by (rule heap_loop) (erule tracks_insideAt tracks_stepNew)+
next
  fix e1 t1 assume e1: "tracks w3 e1 t1"
  show "rel_option (\<lambda>x r'. unchanged w (snd x) \<and> outcome (Some x) = Some r')
     (whileLoop (outsideAt lon) (stepNew (- fineStep)) e1 \<bind>
         (\<lambda>e. Some (Inr (ps, fst (newDate (getTime (snd e) (fst e) + fineStep) (snd e))),
                    snd (newDate (getTime (snd e) (fst e) + fineStep) (snd e)))))
     (scan (\<lambda>d. \<not> isSwathi (lon d)) (- fineStep) t1 \<bind>
         (\<lambda>e. Some (Inr \<lparr>start = ts, end' = e + fineStep\<rparr>)))"
  proof (rule rel_bind[where A = "tracks w3"])
    show "rel_option (tracks w3) (whileLoop (outsideAt lon) (stepNew (- fineStep)) e1)
       (scan (\<lambda>d. \<not> isSwathi (lon d)) (- fineStep) t1)"
      using e1
      by (rule heap_loop) (erule tracks_outsideAt tracks_stepNew)+
  next
    fix e2 t2 assume e2: "tracks w3 e2 t2"
    obtain d4 w4 where s: "e2 = (d4, w4)" by (cases e2)
    from e2 have tr: "getTime w4 d4 = t2" "unchanged w3 w4" unfolding s tracks_def by simp_all
    define w5 where "w5 = snd (newDate (t2 + fineStep) w4)"
    define pe where "pe = fst (newDate (t2 + fineStep) w4)"
    have u5: "unchanged w4 w5" unfolding w5_def by (rule unchanged_newDate)
    have u35: "unchanged w3 w5" using tr(2) u5 by (rule unchanged_trans)
    have "unchanged w w5" using u u35 by (rule unchanged_trans)
    moreover have "getTime w5 ps = ts" using unchanged_get[OF u35 ps(1)] ps(2) by simp
    moreover have "getTime w5 pe = t2 + fineStep" unfolding w5_def pe_def by (rule newDate_get)
    ultimately show "rel_option (\<lambda>x r'. unchanged w (snd x) \<and> outcome (Some x) = Some r')
       (Some (Inr (ps, fst (newDate (getTime (snd e2) (fst e2) + fineStep) (snd e2))),
                    snd (newDate (getTime (snd e2) (fst e2) + fineStep) (snd e2))))
       (Some (Inr \<lparr>start = ts, end' = t2 + fineStep\<rparr>))"
      by (simp add: s tr(1) w5_def[symmetric] pe_def[symmetric])
  qed
qed

text \<open>
  The self-contained locator on the store returns what the function of the time value
  of its argument returns, and leaves the objects it found as they were.
\<close>

lemma findPeriodWith_heap_refines:
  "rel_option (\<lambda>x r'. unchanged w (snd x) \<and> outcome (Some x) = Some r')
     (findPeriodWith_heap lon a w) (findPeriodWith lon (getTime w a))"
proof -
  let ?t0 = "getTime w a"
  let ?cd = "fst (newDate ?t0 w)"
  let ?w1 = "snd (newDate ?t0 w)"
  let ?B = "\<lambda>x r'. unchanged w (snd x) \<and> outcome (Some x) = Some r'"
  have w1: "unchanged w ?w1" "?cd < allocated ?w1" "getTime ?w1 ?cd = ?t0"
    by (rule unchanged_newDate, rule newDate_fresh, rule newDate_get)
  have s0: "tracks ?w1 (newDate ?t0 ?w1) ?t0" by (rule tracks_newDate)
  have tail: "rel_option ?B
     (whileLoop (insideAt lon) (stepNew coarseStep) (newDate t w3) \<bind>
       (\<lambda>e. whileLoop (outsideAt lon) (stepNew (- fineStep)) e \<bind>
         (\<lambda>e. Some (Inr (fst (newDate (getTime (snd s2) (fst s2)) (snd s2)),
                          fst (newDate (getTime (snd e) (fst e) + fineStep) (snd e))),
                    snd (newDate (getTime (snd e) (fst e) + fineStep) (snd e))))))
     (scan (\<lambda>d. isSwathi (lon d)) coarseStep t \<bind>
       (\<lambda>e. scan (\<lambda>d. \<not> isSwathi (lon d)) (- fineStep) e \<bind>
         (\<lambda>e. Some (Inr \<lparr>start = t2, end' = e + fineStep\<rparr>))))"
    if tr2: "tracks ?w1 s2 t2" and w3: "w3 = snd (newDate (getTime (snd s2) (fst s2)) (snd s2))"
    for s2 t2 t w3
  proof (rule end_tail)
    from tr2 have g: "getTime (snd s2) (fst s2) = t2" and u: "unchanged ?w1 (snd s2)"
      by (cases s2; simp add: tracks_def)+
    show "tracks w3 (newDate t w3) t" by (rule tracks_newDate)
    show "fst (newDate (getTime (snd s2) (fst s2)) (snd s2)) < allocated w3"
      unfolding w3 by (rule newDate_fresh)
    show "getTime w3 (fst (newDate (getTime (snd s2) (fst s2)) (snd s2))) = t2"
      unfolding w3 newDate_get by (rule g)
    have "unchanged (snd s2) w3" unfolding w3 by (rule unchanged_newDate)
    with u have "unchanged ?w1 w3" by (rule unchanged_trans)
    with w1(1) show "unchanged w w3" by (rule unchanged_trans)
  qed
  show ?thesis
  proof (cases "isSwathi (lon ?t0)")
    case True
    have "rel_option ?B
       (whileLoop (insideAt lon) (stepNew (- coarseStep)) (newDate ?t0 ?w1) \<bind>
         (\<lambda>s. whileLoop (outsideAt lon) (stepNew fineStep) s \<bind>
           (\<lambda>s. whileLoop (insideAt lon) (stepNew coarseStep)
                 (newDate (getTime (snd (newDate (getTime (snd s) (fst s)) (snd s))) ?cd)
                    (snd (newDate (getTime (snd s) (fst s)) (snd s)))) \<bind>
             (\<lambda>e. whileLoop (outsideAt lon) (stepNew (- fineStep)) e \<bind>
               (\<lambda>e. Some (Inr (fst (newDate (getTime (snd s) (fst s)) (snd s)),
                          fst (newDate (getTime (snd e) (fst e) + fineStep) (snd e))),
                    snd (newDate (getTime (snd e) (fst e) + fineStep) (snd e))))))))
       (scan (\<lambda>d. isSwathi (lon d)) (- coarseStep) ?t0 \<bind>
         (\<lambda>s. scan (\<lambda>d. \<not> isSwathi (lon d)) fineStep s \<bind>
           (\<lambda>s. scan (\<lambda>d. isSwathi (lon d)) coarseStep ?t0 \<bind>
             (\<lambda>e. scan (\<lambda>d. \<not> isSwathi (lon d)) (- fineStep) e \<bind>
               (\<lambda>e. Some (Inr \<lparr>start = s, end' = e + fineStep\<rparr>))))))"
    proof (rule rel_bind[where A = "tracks ?w1"])
      show "rel_option (tracks ?w1)
         (whileLoop (insideAt lon) (stepNew (- coarseStep)) (newDate ?t0 ?w1))
         (scan (\<lambda>d. isSwathi (lon d)) (- coarseStep) ?t0)"
        using s0 by (rule heap_loop) (erule tracks_insideAt tracks_stepNew)+
    next
      fix s1 t1 assume tr1: "tracks ?w1 s1 t1"
      show "rel_option ?B
         (whileLoop (outsideAt lon) (stepNew fineStep) s1 \<bind>
           (\<lambda>s. whileLoop (insideAt lon) (stepNew coarseStep)
                 (newDate (getTime (snd (newDate (getTime (snd s) (fst s)) (snd s))) ?cd)
                    (snd (newDate (getTime (snd s) (fst s)) (snd s)))) \<bind>
             (\<lambda>e. whileLoop (outsideAt lon) (stepNew (- fineStep)) e \<bind>
               (\<lambda>e. Some (Inr (fst (newDate (getTime (snd s) (fst s)) (snd s)),
                          fst (newDate (getTime (snd e) (fst e) + fineStep) (snd e))),
                    snd (newDate (getTime (snd e) (fst e) + fineStep) (snd e)))))))
         (scan (\<lambda>d. \<not> isSwathi (lon d)) fineStep t1 \<bind>
           (\<lambda>s. scan (\<lambda>d. isSwathi (lon d)) coarseStep ?t0 \<bind>
             (\<lambda>e. scan (\<lambda>d. \<not> isSwathi (lon d)) (- fineStep) e \<bind>
               (\<lambda>e. Some (Inr \<lparr>start = s, end' = e + fineStep\<rparr>)))))"
      proof (rule rel_bind[where A = "tracks ?w1"])
        show "rel_option (tracks ?w1) (whileLoop (outsideAt lon) (stepNew fineStep) s1)
           (scan (\<lambda>d. \<not> isSwathi (lon d)) fineStep t1)"
          using tr1 by (rule heap_loop) (erule tracks_outsideAt tracks_stepNew)+
      next
        fix s2 t2 assume tr2: "tracks ?w1 s2 t2"
        define w3 where "w3 = snd (newDate (getTime (snd s2) (fst s2)) (snd s2))"
        from tr2 have "unchanged ?w1 (snd s2)" by (cases s2) (simp add: tracks_def)
        moreover have "unchanged (snd s2) w3" unfolding w3_def by (rule unchanged_newDate)
        ultimately have "unchanged ?w1 w3" by (rule unchanged_trans)
        from unchanged_get[OF this w1(2)] w1(3) have c: "getTime w3 ?cd = ?t0" by simp
        show "rel_option ?B
           (whileLoop (insideAt lon) (stepNew coarseStep)
                 (newDate (getTime (snd (newDate (getTime (snd s2) (fst s2)) (snd s2))) ?cd)
                    (snd (newDate (getTime (snd s2) (fst s2)) (snd s2)))) \<bind>
             (\<lambda>e. whileLoop (outsideAt lon) (stepNew (- fineStep)) e \<bind>
               (\<lambda>e. Some (Inr (fst (newDate (getTime (snd s2) (fst s2)) (snd s2)),
                          fst (newDate (getTime (snd e) (fst e) + fineStep) (snd e))),
                    snd (newDate (getTime (snd e) (fst e) + fineStep) (snd e))))))
           (scan (\<lambda>d. isSwathi (lon d)) coarseStep ?t0 \<bind>
             (\<lambda>e. scan (\<lambda>d. \<not> isSwathi (lon d)) (- fineStep) e \<bind>
               (\<lambda>e. Some (Inr \<lparr>start = t2, end' = e + fineStep\<rparr>))))"
          unfolding w3_def[symmetric] c by (rule tail[OF tr2 w3_def])
      qed
    qed
    with True show ?thesis
      unfolding findPeriodWith_heap_def findPeriodWith_def Let_def split_beta
      by (simp only: newDate_get prod.collapse if_True)
  next
    case False
    from scanToNext_heap_sim[OF s0 w1(2) w1(3), of lon] obtain r w' where
      run: "scanToNext_heap lon ?cd (newDate ?t0 ?w1) = Some (r, w')" and
      u': "unchanged ?w1 w'" and
      res: "case scanToNext lon ?t0 ?t0 of
              Inl e \<Rightarrow> r = Inl e
            | Inr t' \<Rightarrow> \<exists>d. r = Inr d \<and> tracks ?w1 (d, w') t'" by blast
    have uw: "unchanged w w'" using w1(1) u' by (rule unchanged_trans)
    have "rel_option ?B
       (case r of
          Inl e \<Rightarrow> Some (Inl e, w')
        | Inr searchDate \<Rightarrow>
            whileLoop (insideBefore lon) (stepNew (- fineStep)) (searchDate, w') \<bind>
              (\<lambda>s. whileLoop (insideAt lon) (stepNew coarseStep)
                    (newDate (getTime (snd s) (fst s))
                       (snd (newDate (getTime (snd s) (fst s)) (snd s)))) \<bind>
                (\<lambda>e. whileLoop (outsideAt lon) (stepNew (- fineStep)) e \<bind>
                  (\<lambda>e. Some (Inr (fst (newDate (getTime (snd s) (fst s)) (snd s)),
                          fst (newDate (getTime (snd e) (fst e) + fineStep) (snd e))),
                    snd (newDate (getTime (snd e) (fst e) + fineStep) (snd e)))))))
       (case scanToNext lon ?t0 ?t0 of
          Inl e \<Rightarrow> Some (Inl e)
        | Inr searchDate \<Rightarrow>
            scan (\<lambda>d. isSwathi (lon (d - fineStep))) (- fineStep) searchDate \<bind>
              (\<lambda>s. scan (\<lambda>d. isSwathi (lon d)) coarseStep s \<bind>
                (\<lambda>e. scan (\<lambda>d. \<not> isSwathi (lon d)) (- fineStep) e \<bind>
                  (\<lambda>e. Some (Inr \<lparr>start = s, end' = e + fineStep\<rparr>)))))"
    proof (cases "scanToNext lon ?t0 ?t0")
      case (Inl e)
      with res have "r = Inl e" by simp
      with Inl uw show ?thesis by simp
    next
      case (Inr t')
      with res obtain d where r: "r = Inr d" and tr: "tracks ?w1 (d, w') t'" by auto
      have "rel_option ?B
         (whileLoop (insideBefore lon) (stepNew (- fineStep)) (d, w') \<bind>
              (\<lambda>s. whileLoop (insideAt lon) (stepNew coarseStep)
                    (newDate (getTime (snd s) (fst s))
                       (snd (newDate (getTime (snd s) (fst s)) (snd s)))) \<bind>
                (\<lambda>e. whileLoop (outsideAt lon) (stepNew (- fineStep)) e \<bind>
                  (\<lambda>e. Some (Inr (fst (newDate (getTime (snd s) (fst s)) (snd s)),
                          fst (newDate (getTime (snd e) (fst e) + fineStep) (snd e))),
                    snd (newDate (getTime (snd e) (fst e) + fineStep) (snd e)))))))
         (scan (\<lambda>d. isSwathi (lon (d - fineStep))) (- fineStep) t' \<bind>
              (\<lambda>s. scan (\<lambda>d. isSwathi (lon d)) coarseStep s \<bind>
                (\<lambda>e. scan (\<lambda>d. \<not> isSwathi (lon d)) (- fineStep) e \<bind>
                  (\<lambda>e. Some (Inr \<lparr>start = s, end' = e + fineStep\<rparr>)))))"
      proof (rule rel_bind[where A = "tracks ?w1"])
        show "rel_option (tracks ?w1)
           (whileLoop (insideBefore lon) (stepNew (- fineStep)) (d, w'))
           (scan (\<lambda>d. isSwathi (lon (d - fineStep))) (- fineStep) t')"
          using tr by (rule heap_loop) (erule tracks_insideBefore tracks_stepNew)+
      next
        fix s2 t2 assume tr2: "tracks ?w1 s2 t2"
        from tr2 have g: "getTime (snd s2) (fst s2) = t2" by (cases s2) (simp add: tracks_def)
        show "rel_option ?B
           (whileLoop (insideAt lon) (stepNew coarseStep)
                    (newDate (getTime (snd s2) (fst s2))
                       (snd (newDate (getTime (snd s2) (fst s2)) (snd s2)))) \<bind>
                (\<lambda>e. whileLoop (outsideAt lon) (stepNew (- fineStep)) e \<bind>
                  (\<lambda>e. Some (Inr (fst (newDate (getTime (snd s2) (fst s2)) (snd s2)),
                          fst (newDate (getTime (snd e) (fst e) + fineStep) (snd e))),
                    snd (newDate (getTime (snd e) (fst e) + fineStep) (snd e))))))
           (scan (\<lambda>d. isSwathi (lon d)) coarseStep t2 \<bind>
                (\<lambda>e. scan (\<lambda>d. \<not> isSwathi (lon d)) (- fineStep) e \<bind>
                  (\<lambda>e. Some (Inr \<lparr>start = t2, end' = e + fineStep\<rparr>))))"
          using tail[OF tr2 refl, of t2] unfolding g by simp
      qed
      with Inr r show ?thesis by simp
    qed
    with False run show ?thesis
      unfolding findPeriodWith_heap_def findPeriodWith_def Let_def split_beta
      by (simp only: newDate_get prod.collapse if_False bind.bind_lunit fst_conv snd_conv)
  qed
qed

text \<open>The same for the SunCalc version, whose scans change their object in place.\<close>

lemma util_tail:
  assumes tr2: "tracks w s2 t2"
  shows "rel_option
     (\<lambda>x p. unchanged w (snd x) \<and>
        p = \<lparr>start = getTime (snd x) (fst (fst x)), end' = getTime (snd x) (snd (fst x))\<rparr>)
     (whileLoop (insideAt lon) (stepSet coarseStep_util) (newDate t (snd s2)) \<bind>
       (\<lambda>e. whileLoop (insideAt lon) (stepSet fineStep) e \<bind>
         (\<lambda>e. Some ((fst s2, fst e), snd e))))
     (scan (\<lambda>d. isSwathi (lon d)) coarseStep_util t \<bind>
       (\<lambda>e. scan (\<lambda>d. isSwathi (lon d)) fineStep e \<bind>
         (\<lambda>e. Some \<lparr>start = t2, end' = e\<rparr>)))"
proof -
  let ?w2 = "snd s2"
  from tr2 have s2: "getTime ?w2 (fst s2) = t2" "unchanged w ?w2" "fst s2 < allocated ?w2"
    by (cases s2; simp add: tracks_def)+
  show ?thesis
  proof (rule rel_bind[where A = "tracks ?w2"])
    show "rel_option (tracks ?w2)
       (whileLoop (insideAt lon) (stepSet coarseStep_util) (newDate t ?w2))
       (scan (\<lambda>d. isSwathi (lon d)) coarseStep_util t)"
      using tracks_newDate by (rule heap_loop) (erule tracks_insideAt tracks_stepSet)+
  next
    fix e1 t1 assume e1: "tracks ?w2 e1 t1"
    show "rel_option
       (\<lambda>x p. unchanged w (snd x) \<and>
          p = \<lparr>start = getTime (snd x) (fst (fst x)), end' = getTime (snd x) (snd (fst x))\<rparr>)
       (whileLoop (insideAt lon) (stepSet fineStep) e1 \<bind> (\<lambda>e. Some ((fst s2, fst e), snd e)))
       (scan (\<lambda>d. isSwathi (lon d)) fineStep t1 \<bind> (\<lambda>e. Some \<lparr>start = t2, end' = e\<rparr>))"
    proof (rule rel_bind[where A = "tracks ?w2"])
      show "rel_option (tracks ?w2) (whileLoop (insideAt lon) (stepSet fineStep) e1)
         (scan (\<lambda>d. isSwathi (lon d)) fineStep t1)"
        using e1 by (rule heap_loop) (erule tracks_insideAt tracks_stepSet)+
    next
      fix e2 t3 assume e2: "tracks ?w2 e2 t3"
      then have e: "getTime (snd e2) (fst e2) = t3" "unchanged ?w2 (snd e2)"
        by (cases e2; simp add: tracks_def)+
      from unchanged_get[OF e(2) s2(3)] s2(1) have "getTime (snd e2) (fst s2) = t2" by simp
      moreover have "unchanged w (snd e2)" using s2(2) e(2) by (rule unchanged_trans)
      ultimately show "rel_option
         (\<lambda>x p. unchanged w (snd x) \<and>
            p = \<lparr>start = getTime (snd x) (fst (fst x)), end' = getTime (snd x) (snd (fst x))\<rparr>)
         (Some ((fst s2, fst e2), snd e2)) (Some \<lparr>start = t2, end' = t3\<rparr>)"
        using e(1) by simp
    qed
  qed
qed

lemma findPeriodWith_heap_util_refines:
  assumes cd: "cd < allocated w"
  shows "rel_option
     (\<lambda>x p. unchanged w (snd x) \<and>
        p = \<lparr>start = getTime (snd x) (fst (fst x)), end' = getTime (snd x) (snd (fst x))\<rparr>)
     (findPeriodWith_heap_util lon cd w) (findPeriodWith_util lon (getTime w cd))"
proof -
  let ?t0 = "getTime w cd"
  let ?B = "\<lambda>x p. unchanged w (snd x) \<and>
        p = \<lparr>start = getTime (snd x) (fst (fst x)), end' = getTime (snd x) (snd (fst x))\<rparr>"
  have s0: "tracks w (newDate ?t0 w) ?t0" by (rule tracks_newDate)
  have c: "getTime (snd s) cd = ?t0" if "tracks w s t" for s t
    using that cd by (cases s) (simp add: tracks_def unchanged_def)
  show ?thesis
  proof (cases "isSwathi (lon ?t0)")
    case True
    have "rel_option ?B
       (whileLoop (insideAt lon) (stepSet (- coarseStep_util)) (newDate ?t0 w) \<bind>
         (\<lambda>s. whileLoop (outsideAt lon) (stepSet fineStep) s \<bind>
           (\<lambda>s. whileLoop (insideAt lon) (stepSet coarseStep_util)
                 (newDate (getTime (snd s) cd) (snd s)) \<bind>
             (\<lambda>e. whileLoop (insideAt lon) (stepSet fineStep) e \<bind>
               (\<lambda>e. Some ((fst s, fst e), snd e))))))
       (scan (\<lambda>d. isSwathi (lon d)) (- coarseStep_util) ?t0 \<bind>
         (\<lambda>s. scan (\<lambda>d. \<not> isSwathi (lon d)) fineStep s \<bind>
           (\<lambda>s. scan (\<lambda>d. isSwathi (lon d)) coarseStep_util ?t0 \<bind>
             (\<lambda>e. scan (\<lambda>d. isSwathi (lon d)) fineStep e \<bind>
               (\<lambda>e. Some \<lparr>start = s, end' = e\<rparr>)))))"
    proof (rule rel_bind[where A = "tracks w"])
      show "rel_option (tracks w)
         (whileLoop (insideAt lon) (stepSet (- coarseStep_util)) (newDate ?t0 w))
         (scan (\<lambda>d. isSwathi (lon d)) (- coarseStep_util) ?t0)"
        using s0 by (rule heap_loop) (erule tracks_insideAt tracks_stepSet)+
    next
      fix s1 t1 assume tr1: "tracks w s1 t1"
      show "rel_option ?B
         (whileLoop (outsideAt lon) (stepSet fineStep) s1 \<bind>
           (\<lambda>s. whileLoop (insideAt lon) (stepSet coarseStep_util)
                 (newDate (getTime (snd s) cd) (snd s)) \<bind>
             (\<lambda>e. whileLoop (insideAt lon) (stepSet fineStep) e \<bind>
               (\<lambda>e. Some ((fst s, fst e), snd e)))))
         (scan (\<lambda>d. \<not> isSwathi (lon d)) fineStep t1 \<bind>
           (\<lambda>s. scan (\<lambda>d. isSwathi (lon d)) coarseStep_util ?t0 \<bind>
             (\<lambda>e. scan (\<lambda>d. isSwathi (lon d)) fineStep e \<bind>
               (\<lambda>e. Some \<lparr>start = s, end' = e\<rparr>))))"
      proof (rule rel_bind[where A = "tracks w"])
        show "rel_option (tracks w) (whileLoop (outsideAt lon) (stepSet fineStep) s1)
           (scan (\<lambda>d. \<not> isSwathi (lon d)) fineStep t1)"
          using tr1 by (rule heap_loop) (erule tracks_outsideAt tracks_stepSet)+
      next
        fix s2 t2 assume tr2: "tracks w s2 t2"
        show "rel_option ?B
           (whileLoop (insideAt lon) (stepSet coarseStep_util)
                 (newDate (getTime (snd s2) cd) (snd s2)) \<bind>
             (\<lambda>e. whileLoop (insideAt lon) (stepSet fineStep) e \<bind>
               (\<lambda>e. Some ((fst s2, fst e), snd e))))
           (scan (\<lambda>d. isSwathi (lon d)) coarseStep_util ?t0 \<bind>
             (\<lambda>e. scan (\<lambda>d. isSwathi (lon d)) fineStep e \<bind>
               (\<lambda>e. Some \<lparr>start = t2, end' = e\<rparr>)))"
          unfolding c[OF tr2] using tr2 by (rule util_tail)
      qed
    qed
    with True show ?thesis
      unfolding findPeriodWith_heap_util_def findPeriodWith_util_def Let_def split_beta
      by (simp only: prod.collapse if_True)
  next
    case False
    have "rel_option ?B
       (whileLoop (outsideAt lon) (stepSet coarseStep_util) (newDate ?t0 w) \<bind>
         (\<lambda>s. whileLoop (insideBefore lon) (stepSet (- fineStep)) s \<bind>
           (\<lambda>s. whileLoop (insideAt lon) (stepSet coarseStep_util)
                 (newDate (getTime (snd s) (fst s)) (snd s)) \<bind>
             (\<lambda>e. whileLoop (insideAt lon) (stepSet fineStep) e \<bind>
               (\<lambda>e. Some ((fst s, fst e), snd e))))))
       (scan (\<lambda>d. \<not> isSwathi (lon d)) coarseStep_util ?t0 \<bind>
         (\<lambda>s. scan (\<lambda>d. isSwathi (lon (d - fineStep))) (- fineStep) s \<bind>
           (\<lambda>s. scan (\<lambda>d. isSwathi (lon d)) coarseStep_util s \<bind>
             (\<lambda>e. scan (\<lambda>d. isSwathi (lon d)) fineStep e \<bind>
               (\<lambda>e. Some \<lparr>start = s, end' = e\<rparr>)))))"
    proof (rule rel_bind[where A = "tracks w"])
      show "rel_option (tracks w)
         (whileLoop (outsideAt lon) (stepSet coarseStep_util) (newDate ?t0 w))
         (scan (\<lambda>d. \<not> isSwathi (lon d)) coarseStep_util ?t0)"
        using s0 by (rule heap_loop) (erule tracks_outsideAt tracks_stepSet)+
    next
      fix s1 t1 assume tr1: "tracks w s1 t1"
      show "rel_option ?B
         (whileLoop (insideBefore lon) (stepSet (- fineStep)) s1 \<bind>
           (\<lambda>s. whileLoop (insideAt lon) (stepSet coarseStep_util)
                 (newDate (getTime (snd s) (fst s)) (snd s)) \<bind>
             (\<lambda>e. whileLoop (insideAt lon) (stepSet fineStep) e \<bind>
               (\<lambda>e. Some ((fst s, fst e), snd e)))))
         (scan (\<lambda>d. isSwathi (lon (d - fineStep))) (- fineStep) t1 \<bind>
           (\<lambda>s. scan (\<lambda>d. isSwathi (lon d)) coarseStep_util s \<bind>
             (\<lambda>e. scan (\<lambda>d. isSwathi (lon d)) fineStep e \<bind>
               (\<lambda>e. Some \<lparr>start = s, end' = e\<rparr>))))"
      proof (rule rel_bind[where A = "tracks w"])
        show "rel_option (tracks w) (whileLoop (insideBefore lon) (stepSet (- fineStep)) s1)
           (scan (\<lambda>d. isSwathi (lon (d - fineStep))) (- fineStep) t1)"
          using tr1 by (rule heap_loop) (erule tracks_insideBefore tracks_stepSet)+
      next
        fix s2 t2 assume tr2: "tracks w s2 t2"
        then have g: "getTime (snd s2) (fst s2) = t2" by (cases s2) (simp add: tracks_def)
        show "rel_option ?B
           (whileLoop (insideAt lon) (stepSet coarseStep_util)
                 (newDate (getTime (snd s2) (fst s2)) (snd s2)) \<bind>
             (\<lambda>e. whileLoop (insideAt lon) (stepSet fineStep) e \<bind>
               (\<lambda>e. Some ((fst s2, fst e), snd e))))
           (scan (\<lambda>d. isSwathi (lon d)) coarseStep_util t2 \<bind>
             (\<lambda>e. scan (\<lambda>d. isSwathi (lon d)) fineStep e \<bind>
               (\<lambda>e. Some \<lparr>start = t2, end' = e\<rparr>)))"
          unfolding g using tr2 by (rule util_tail)
      qed
    qed
    with False show ?thesis
      unfolding findPeriodWith_heap_util_def findPeriodWith_util_def Let_def split_beta
      by (simp only: prod.collapse if_False)
  qed
qed

lemma findCurrentOrNextSwathiPeriod_heap_util_refines:
  "rel_option (\<lambda>x r'. unchanged w (snd x) \<and> outcome (Some x) = Some r')
     (findCurrentOrNextSwathiPeriod_heap_util a w)
     (findCurrentOrNextSwathiPeriod_util (SunCalc w) (getTime w a))"
proof -
  let ?t0 = "getTime w a"
  let ?cd = "fst (newDate ?t0 w)"
  let ?w1 = "snd (newDate ?t0 w)"
  have w1: "unchanged w ?w1" "?cd < allocated ?w1" "getTime ?w1 ?cd = ?t0"
    by (rule unchanged_newDate, rule newDate_fresh, rule newDate_get)
  have g: "SunCalc ?w1 = SunCalc w" using w1(1) by (simp add: unchanged_def)
  show ?thesis
  proof (cases "SunCalc w")
    case None
    with g w1(1) show ?thesis
      by (simp add: findCurrentOrNextSwathiPeriod_heap_util_def
          findCurrentOrNextSwathiPeriod_util_def split_beta)
  next
    case (Some ecl)
    let ?lon = "siderealFromEcliptic ecl"
    note r = findPeriodWith_heap_util_refines[OF w1(2), of ?lon, unfolded w1(3)]
    have "rel_option (\<lambda>x r'. unchanged w (snd x) \<and> outcome (Some x) = Some r')
       (map_option (\<lambda>x. (Inr (fst x), snd x)) (findPeriodWith_heap_util ?lon ?cd ?w1))
       (map_option Inr (findPeriodWith_util ?lon ?t0))"
    proof (cases "findPeriodWith_heap_util ?lon ?cd ?w1")
      case None
      with r show ?thesis by simp
    next
      case (Some x)
      with r obtain p where p: "findPeriodWith_util ?lon ?t0 = Some p"
        "unchanged ?w1 (snd x)"
        "p = \<lparr>start = getTime (snd x) (fst (fst x)), end' = getTime (snd x) (snd (fst x))\<rparr>"
        by (auto simp: option_rel_Some1)
      have "unchanged w (snd x)" using w1(1) p(2) by (rule unchanged_trans)
      with Some p(1,3) show ?thesis by (cases x; cases "fst x") simp
    qed
    with Some g show ?thesis
      by (simp add: findCurrentOrNextSwathiPeriod_heap_util_def
          findCurrentOrNextSwathiPeriod_util_def case_prod_unfold Let_def)
  qed
qed

lemma rel_outcome:
  assumes "rel_option (\<lambda>x r'. unchanged w (snd x) \<and> outcome (Some x) = Some r') m m'"
  shows "outcome m = m'" and "m = Some (r, w') \<Longrightarrow> unchanged w w'"
  using assms by (cases m; cases m'; simp)+

lemma heap_outcome:
  "outcome (findPeriodWith_heap lon a w) = findPeriodWith lon (getTime w a)"
  "outcome (findCurrentOrNextSwathiPeriod_heap a w) = findCurrentOrNextSwathiPeriod (getTime w a)"
  "outcome (findCurrentOrNextSwathiPeriod_heap_util a w) =
     findCurrentOrNextSwathiPeriod_util (SunCalc w) (getTime w a)"
  unfolding findCurrentOrNextSwathiPeriod_heap_def findCurrentOrNextSwathiPeriod_def
  by (rule rel_outcome(1)[OF findPeriodWith_heap_refines],
      rule rel_outcome(1)[OF findPeriodWith_heap_refines],
      rule rel_outcome(1)[OF findCurrentOrNextSwathiPeriod_heap_util_refines])

lemma heap_frame:
  "findPeriodWith_heap lon a w = Some (r, w') \<Longrightarrow> unchanged w w'"
  "findCurrentOrNextSwathiPeriod_heap a w = Some (r, w') \<Longrightarrow> unchanged w w'"
  "findCurrentOrNextSwathiPeriod_heap_util a w = Some (r, w') \<Longrightarrow> unchanged w w'"
  unfolding findCurrentOrNextSwathiPeriod_heap_def
  by (erule rel_outcome(2)[OF findPeriodWith_heap_refines],
      erule rel_outcome(2)[OF findPeriodWith_heap_refines],
      erule rel_outcome(2)[OF findCurrentOrNextSwathiPeriod_heap_util_refines])

text \<open>Runs on the stand-ins for SunCalc.\<close>

lemma stand_in_band:
  assumes "946720000000 \<le> t" "t \<le> 946740000000"
  shows "isSwathi (siderealFromEcliptic (\<lambda>t. (if P t then 215 else 0) * pi / 180) t) \<longleftrightarrow> P t"
proof -
  have "real_of_int 946720000000 \<le> real_of_int t" "real_of_int t \<le> real_of_int 946740000000"
    using assms by (simp_all only: of_int_le_iff)
  then have "23 < getLahiriAyanamsha t" "getLahiriAyanamsha t < 24"
    by (simp_all add: getLahiriAyanamsha_def yearsSinceJ2000_def J2000_def AYANAMSHA_AT_J2000_def
      PRECESSION_RATE_DEG_PER_YEAR_def field_simps)
  then show ?thesis
    by (simp add: siderealFromEcliptic_def Let_def isSwathi_def SWATHI_START_DEGREES_def
        SWATHI_END_DEGREES_def NAKSHATRA_SPAN_DEGREES_def)
qed

lemma util_run_other:
  assumes "\<And>t. 946720000000 \<le> t \<Longrightarrow> t \<le> 946740000000 \<Longrightarrow>
     isSwathi (lon t) \<longleftrightarrow> 946728000000 \<le> t \<and> t < 946737000000"
  shows "findPeriodWith_util lon 946728600000 =
     Some \<lparr>start = 946728000000, end' = 946739400000\<rparr>"
  by (simp add: findPeriodWith_util_def Let_def scan.simps assms coarseStep_util_def fineStep_def)

lemma other_util:
  "findCurrentOrNextSwathiPeriod_util (Some otherEcliptic) 946728600000 =
     Some (Inr \<lparr>start = 946728000000, end' = 946739400000\<rparr>)"
  unfolding findCurrentOrNextSwathiPeriod_util_def option.case
  by (subst util_run_other) (simp_all only: stand_in_band option.map)


lemma heap_util_run:
  assumes "\<And>t. 946720000000 \<le> t \<Longrightarrow> t \<le> 946740000000 \<Longrightarrow>
     isSwathi (lon t) \<longleftrightarrow> 946728000000 \<le> t \<and> t < 946733400000"
  shows "findPeriodWith_heap_util lon 1
      \<lparr>dates = \<lambda>d. 946728600000, allocated = 2, SunCalc = sc, clock = c\<rparr> =
     Some ((2, 3),
       \<lparr>dates = (\<lambda>d. 946728600000)(2 := 946728000000, 3 := 946735800000), allocated = 4,
        SunCalc = sc, clock = c\<rparr>)"
  by (simp add: findPeriodWith_heap_util_def Let_def whileLoop_unfold insideAt_def outsideAt_def
      stepSet_def newDate_def setTime_def getTime_def assms coarseStep_util_def fineStep_def)

lemma sample_heap_util:
  "findCurrentOrNextSwathiPeriod_heap_util 0
      \<lparr>dates = \<lambda>d. 946728600000, allocated = 1, SunCalc = Some sampleEcliptic, clock = 0\<rparr> =
     Some (Inr (2, 3),
       \<lparr>dates = (\<lambda>d. 946728600000)(2 := 946728000000, 3 := 946735800000), allocated = 4,
        SunCalc = Some sampleEcliptic, clock = 0\<rparr>)"
proof -
  have n: "newDate 946728600000
      \<lparr>dates = \<lambda>d. 946728600000, allocated = 1, SunCalc = Some sampleEcliptic, clock = 0\<rparr>
    = (1, \<lparr>dates = \<lambda>d. 946728600000, allocated = 2, SunCalc = Some sampleEcliptic, clock = 0\<rparr>)"
    by (simp add: newDate_def fun_eq_iff)
  show ?thesis
    unfolding findCurrentOrNextSwathiPeriod_heap_util_def Let_def getTime_def world.select_convs n
      prod.case option.case
    by (subst heap_util_run) (simp_all only: sample_band option.map prod.case)
qed

section \<open>Claims\<close>

subsection \<open>C7: the band predicate\<close>

text \<open>
  C7. \<open>isSwathi\<close> is true exactly for the longitudes \<open>l\<close> with
  \<open>14 * (360/27) \<le> l < 15 * (360/27)\<close>: the lower bound belongs to the band, the
  upper bound does not. In particular \<open>186.667\<close> is inside and \<open>200.0\<close> is
  outside.
\<close>

theorem isSwathi_half_open:
  "(isSwathi l \<longleftrightarrow> 14 * (360 / 27) \<le> l \<and> l < 15 * (360 / 27)) \<and>
   isSwathi 186.667 \<and> \<not> isSwathi 200.0"
  by (simp add: isSwathi_def SWATHI_START_DEGREES_def SWATHI_END_DEGREES_def
      NAKSHATRA_SPAN_DEGREES_def)

subsection \<open>C10: the ayanamsha\<close>

text \<open>
  C10. The ayanamsha is \<open>23.85575 + years * (50.29/3600)\<close> degrees, where
  \<open>years\<close> is the number of milliseconds elapsed since 2000-01-01T12:00:00Z (time
  value 946728000000) divided by \<open>86400000 * 365.25\<close>; at that epoch it is
  \<open>23.85575\<close>.
\<close>

theorem getLahiriAyanamsha_formula:
  "getLahiriAyanamsha t =
     23.85575 + ((real_of_int t - 946728000000) / (86400000 * 365.25)) * (50.29 / 3600) \<and>
   J2000 = 946728000000 \<and>
   getLahiriAyanamsha 946728000000 = 23.85575"
  by (simp add: getLahiriAyanamsha_def yearsSinceJ2000_def J2000_def AYANAMSHA_AT_J2000_def
      PRECESSION_RATE_DEG_PER_YEAR_def)

subsection \<open>C2: range of the sidereal longitude\<close>

text \<open>
  C2 says that the sidereal longitude lies in \<open>[0, 360)\<close> at every instant. Each
  version corrects the difference \<open>tropical - ayanamsha\<close> by at most one turn, so
  the result leaves the range once the ayanamsha exceeds one turn. Fifty thousand
  Julian years after J2000 (time value 1578826728000000, a valid \<open>Date\<close>) the
  ayanamsha is above \<open>720\<close> and the self-contained function returns a negative
  number.
\<close>

lemma getLahiriAyanamsha_far: "getLahiriAyanamsha 1578826728000000 > 720"
  by (simp add: getLahiriAyanamsha_def yearsSinceJ2000_def J2000_def AYANAMSHA_AT_J2000_def
      PRECESSION_RATE_DEG_PER_YEAR_def)

theorem sidereal_range_counterexample:
  "\<not> (0 \<le> getMoonSiderealLongitude 1578826728000000 \<and>
       getMoonSiderealLongitude 1578826728000000 < 360)"
proof -
  let ?t = "1578826728000000 :: int"
  have "moonTropicalLongitude ?t < 360" using moonTropicalLongitude_range by blast
  with getLahiriAyanamsha_far have "moonTropicalLongitude ?t - getLahiriAyanamsha ?t < - 360"
    by linarith
  then have "getMoonSiderealLongitude ?t < 0"
    by (simp add: getMoonSiderealLongitude_def Let_def)
  then show ?thesis by simp
qed

text \<open>
  C2, amended. At every instant whose ayanamsha is at most one turn in absolute value
  the self-contained function returns a value in \<open>[0, 360)\<close>. The SunCalc version
  returns a value in the closed range \<open>[0, 360]\<close> at every instant where the
  difference it computes, the tropical longitude it gets from SunCalc less the
  ayanamsha, lies in \<open>[-360, 360)\<close>. It has no test for \<open>360\<close>, and in the
  source's doubles a difference just below zero plus \<open>360\<close> is \<open>360\<close>, so
  the upper bound is not excluded for it.
\<close>

theorem sidereal_range:
  "(\<bar>getLahiriAyanamsha t\<bar> \<le> 360 \<longrightarrow>
      0 \<le> getMoonSiderealLongitude t \<and> getMoonSiderealLongitude t < 360) \<and>
   (- 360 \<le> eclipticLon t * (180 / pi) - getLahiriAyanamsha t \<and>
    eclipticLon t * (180 / pi) - getLahiriAyanamsha t < 360 \<longrightarrow>
      0 \<le> siderealFromEcliptic eclipticLon t \<and> siderealFromEcliptic eclipticLon t \<le> 360)"
proof (intro conjI impI)
  assume a: "\<bar>getLahiriAyanamsha t\<bar> \<le> 360"
  have r: "0 \<le> moonTropicalLongitude t" "moonTropicalLongitude t < 360"
    using moonTropicalLongitude_range by blast+
  from a r show "0 \<le> getMoonSiderealLongitude t"
    by (auto simp: getMoonSiderealLongitude_def Let_def)
  from a r show "getMoonSiderealLongitude t < 360"
    by (auto simp: getMoonSiderealLongitude_def Let_def)
next
  assume "- 360 \<le> eclipticLon t * (180 / pi) - getLahiriAyanamsha t \<and>
    eclipticLon t * (180 / pi) - getLahiriAyanamsha t < 360"
  then show "0 \<le> siderealFromEcliptic eclipticLon t" "siderealFromEcliptic eclipticLon t \<le> 360"
    by (auto simp: siderealFromEcliptic_def Let_def)
qed

theorem sidereal_range_witness:
  "\<bar>getLahiriAyanamsha J2000\<bar> \<le> 360 \<and>
   0 \<le> getMoonSiderealLongitude J2000 \<and> getMoonSiderealLongitude J2000 < 360 \<and>
   - 360 \<le> (\<lambda>t. 0) J2000 * (180 / pi) - getLahiriAyanamsha J2000 \<and>
   (\<lambda>t. 0) J2000 * (180 / pi) - getLahiriAyanamsha J2000 < 360 \<and>
   0 \<le> siderealFromEcliptic (\<lambda>t. 0) J2000 \<and> siderealFromEcliptic (\<lambda>t. 0) J2000 \<le> 360"
proof -
  have ay: "getLahiriAyanamsha J2000 = 23.85575"
    by (simp add: getLahiriAyanamsha_def yearsSinceJ2000_def AYANAMSHA_AT_J2000_def)
  then have h1: "\<bar>getLahiriAyanamsha J2000\<bar> \<le> 360" by simp
  have h2: "- 360 \<le> (\<lambda>t. 0) J2000 * (180 / pi) - getLahiriAyanamsha J2000 \<and>
    (\<lambda>t. 0) J2000 * (180 / pi) - getLahiriAyanamsha J2000 < 360" by (simp add: ay)
  from sidereal_range[of J2000 "\<lambda>t. 0"] h1 h2 show ?thesis by blast
qed

subsection \<open>C1: the errors of the locator\<close>

text \<open>
  C1 says that the locator fails only with the exhausted search. The SunCalc version
  has another error: its longitude function throws when the global \<open>SunCalc\<close> is
  undefined, and the locator does not catch it.
\<close>

theorem locate_errors_counterexample:
  "\<not> (\<forall>sc ref e. findCurrentOrNextSwathiPeriod_util sc ref = Some (Inl e) \<longrightarrow> e = SearchExhausted)"
proof
  assume "\<forall>sc ref e. findCurrentOrNextSwathiPeriod_util sc ref = Some (Inl e) \<longrightarrow> e = SearchExhausted"
  moreover have "findCurrentOrNextSwathiPeriod_util None 0 = Some (Inl SunCalcNotLoaded)"
    by (simp add: findCurrentOrNextSwathiPeriod_util_def)
  ultimately have "SunCalcNotLoaded = SearchExhausted" by blast
  then show False by simp
qed

text \<open>
  C1, amended. The self-contained locator fails with no error but the exhausted search.
  When the reference instant is the time value of a \<open>Date\<close> and the instant
  \<open>searchHorizon + coarseStep\<close> later (30 days and 30 minutes, the last
  \<open>Date\<close> the scan can create) is one too, it fails exactly when the band predicate
  is false at the reference instant and at each of the 1440 coarse probes that follow it,
  the last one 30 days later (the scan throws on the step after that probe). This holds
  for every longitude function, the program's \<open>getMoonSiderealLongitude\<close> among
  them. The SunCalc version fails with the error of its longitude function exactly when
  \<open>SunCalc\<close> is not loaded.
\<close>

theorem locate_errors:
  "(findPeriodWith lon ref = Some (Inl e) \<longrightarrow> e = SearchExhausted) \<and>
   (validTime ref \<and> validTime (ref + searchHorizon + coarseStep) \<longrightarrow>
      (findPeriodWith lon ref = Some (Inl SearchExhausted) \<longleftrightarrow>
         (\<forall>k::nat. k \<le> 1440 \<longrightarrow> \<not> isSwathi (lon (ref + int k * coarseStep))))) \<and>
   (findCurrentOrNextSwathiPeriod_util sc ref = Some (Inl SunCalcNotLoaded) \<longleftrightarrow>
      getLunarSiderealLongitude sc ref = Inl SunCalcNotLoaded) \<and>
   (getLunarSiderealLongitude sc ref = Inl SunCalcNotLoaded \<longleftrightarrow> sc = None)"
proof (intro conjI)
  show "findPeriodWith lon ref = Some (Inl e) \<longrightarrow> e = SearchExhausted"
    using findPeriodWith_no_error_inside[of lon ref e] findPeriodWith_error_outside[of lon ref e]
      scanToNext_error[of lon ref ref e] by blast
  have "findPeriodWith lon ref = Some (Inl SearchExhausted) \<longleftrightarrow>
      (\<forall>k::nat. k \<le> 1440 \<longrightarrow> \<not> isSwathi (lon (ref + int k * coarseStep)))"
  proof (cases "isSwathi (lon ref)")
    case True
    then have "\<not> (\<forall>k::nat. k \<le> 1440 \<longrightarrow> \<not> isSwathi (lon (ref + int k * coarseStep)))"
      by (auto intro: exI[of _ 0])
    with True show ?thesis using findPeriodWith_no_error_inside[of lon ref] by blast
  next
    case False
    have "findPeriodWith lon ref = Some (Inl SearchExhausted) \<longleftrightarrow>
        scanToNext lon ref ref = Inl SearchExhausted"
      using False by (rule findPeriodWith_error_outside)
    then show ?thesis by (simp only: scanToNext_exhausted_iff)
  qed
  then show "validTime ref \<and> validTime (ref + searchHorizon + coarseStep) \<longrightarrow>
      (findPeriodWith lon ref = Some (Inl SearchExhausted) \<longleftrightarrow>
         (\<forall>k::nat. k \<le> 1440 \<longrightarrow> \<not> isSwathi (lon (ref + int k * coarseStep))))"
    by blast
  show "findCurrentOrNextSwathiPeriod_util sc ref = Some (Inl SunCalcNotLoaded) \<longleftrightarrow>
      getLunarSiderealLongitude sc ref = Inl SunCalcNotLoaded"
    by (cases sc)
      (auto simp: findCurrentOrNextSwathiPeriod_util_def getLunarSiderealLongitude_def)
  show "getLunarSiderealLongitude sc ref = Inl SunCalcNotLoaded \<longleftrightarrow> sc = None"
    by (cases sc) (auto simp: getLunarSiderealLongitude_def)
qed

theorem locate_errors_witness:
  "validTime 0 \<and> validTime (0 + searchHorizon + coarseStep) \<and>
   validTime 3600000 \<and> validTime (3600000 + searchHorizon + coarseStep) \<and>
   findPeriodWith (\<lambda>t. 10) 0 = Some (Inl SearchExhausted) \<and>
   findPeriodWith sampleLongitude 3600000 \<noteq> Some (Inl SearchExhausted) \<and>
   findCurrentOrNextSwathiPeriod_util None 0 = Some (Inl SunCalcNotLoaded) \<and>
   findCurrentOrNextSwathiPeriod_util (Some sampleEcliptic) 0 \<noteq> Some (Inl SunCalcNotLoaded)"
proof -
  have v: "validTime 0 \<and> validTime (0 + searchHorizon + coarseStep)"
    "validTime 3600000 \<and> validTime (3600000 + searchHorizon + coarseStep)"
    by (simp_all add: validTime_def maxTime_def searchHorizon_def coarseStep_def)
  have "\<forall>k::nat. k \<le> 1440 \<longrightarrow> \<not> isSwathi ((\<lambda>t. 10) (0 + int k * coarseStep))"
    by (simp add: isSwathi_samples)
  with locate_errors[of "\<lambda>t. 10" 0 SearchExhausted None] v(1)
  have a: "findPeriodWith (\<lambda>t. 10) 0 = Some (Inl SearchExhausted)" by blast
  have "isSwathi (sampleLongitude (3600000 + int 0 * coarseStep))"
    by (simp add: isSwathi_samples)
  then have "\<not> (\<forall>k::nat. k \<le> 1440 \<longrightarrow> \<not> isSwathi (sampleLongitude (3600000 + int k * coarseStep)))"
    by blast
  with locate_errors[of sampleLongitude 3600000 SearchExhausted None] v(2)
  have b: "findPeriodWith sampleLongitude 3600000 \<noteq> Some (Inl SearchExhausted)" by blast
  from locate_errors[of "\<lambda>t. 10" 0 SearchExhausted None]
  have c: "findCurrentOrNextSwathiPeriod_util None 0 = Some (Inl SunCalcNotLoaded)" by blast
  from locate_errors[of "\<lambda>t. 10" 0 SearchExhausted "Some sampleEcliptic"]
  have d: "findCurrentOrNextSwathiPeriod_util (Some sampleEcliptic) 0 \<noteq> Some (Inl SunCalcNotLoaded)"
    by blast
  from v a b c d show ?thesis by blast
qed

subsection \<open>C3: the end of the period\<close>

text \<open>
  The self-contained locator does what C3 says, whatever the longitude function: one
  fine step before the returned end the longitude is inside the band, at the end it is
  outside.
\<close>

lemma findPeriodWith_end_boundary:
  "findPeriodWith lon ref = Some (Inr p) \<Longrightarrow>
     isSwathi (lon (end' p - fineStep)) \<and> \<not> isSwathi (lon (end' p))"
  using findPeriodWith_spec[of lon ref p] by blast

text \<open>
  C3. The SunCalc version does not: its end is the first coarse probe outside the band,
  up to an hour after the exit. With the stand-in for SunCalc and the reference instant
  ten minutes after 2000-01-01T12:00:00Z the band is left at 13:30:00, the returned end
  is 14:10:00 (time value 946735800000), and the longitude has been outside the band for
  the forty minutes before it.
\<close>

theorem util_end_not_refined:
  "findCurrentOrNextSwathiPeriod_util (Some sampleEcliptic) 946728600000 =
     Some (Inr \<lparr>start = 946728000000, end' = 946735800000\<rparr>) \<and>
   \<not> isSwathi (siderealFromEcliptic sampleEcliptic (946735800000 - fineStep)) \<and>
   \<not> isSwathi (siderealFromEcliptic sampleEcliptic (946735800000 - 40 * fineStep)) \<and>
   isSwathi (siderealFromEcliptic sampleEcliptic (946735800000 - 41 * fineStep))"
  by (simp add: sample_util sample_band fineStep_def del: mult_cancel_right)

lemma J2000_centuries: "\<bar>julianCenturies J2000\<bar> \<le> 200" "\<bar>julianCenturies J2000\<bar> \<le> 199"
  by (simp_all add: julianCenturies_eq J2000_def)

subsection \<open>C4: start before end\<close>



subsection \<open>C5: the start of the period\<close>

text \<open>
  C5. Whenever a locator returns a period, the longitude at its start is inside the band
  and the longitude one fine step (60 seconds) earlier is outside, whether the reference
  instant was inside the band or not. This holds for the self-contained locator with
  every longitude function and for the SunCalc version with every SunCalc.
\<close>

theorem start_is_entry:
  "(findPeriodWith lon ref = Some (Inr p) \<longrightarrow>
      isSwathi (lon (start p)) \<and> \<not> isSwathi (lon (start p - fineStep))) \<and>
   (findCurrentOrNextSwathiPeriod_util (Some ecl) ref = Some (Inr q) \<longrightarrow>
      isSwathi (siderealFromEcliptic ecl (start q)) \<and>
      \<not> isSwathi (siderealFromEcliptic ecl (start q - fineStep)))"
proof (intro conjI impI)
  assume "findPeriodWith lon ref = Some (Inr p)"
  from findPeriodWith_spec[OF this]
  show "isSwathi (lon (start p))" "\<not> isSwathi (lon (start p - fineStep))" by blast+
next
  assume "findCurrentOrNextSwathiPeriod_util (Some ecl) ref = Some (Inr q)"
  then have "findPeriodWith_util (siderealFromEcliptic ecl) ref = Some q"
    by (simp add: findCurrentOrNextSwathiPeriod_util_def)
  from findPeriodWith_util_D[OF this]
  show "isSwathi (siderealFromEcliptic ecl (start q))"
    "\<not> isSwathi (siderealFromEcliptic ecl (start q - fineStep))" by blast+
qed

theorem start_is_entry_witness:
  "findPeriodWith sampleLongitude 3600000 = Some (Inr \<lparr>start = 0, end' = 7200000\<rparr>) \<and>
   findPeriodWith sampleLongitude (- 3600000) = Some (Inr \<lparr>start = 0, end' = 7200000\<rparr>) \<and>
   isSwathi (sampleLongitude 0) \<and> \<not> isSwathi (sampleLongitude (0 - fineStep)) \<and>
   findCurrentOrNextSwathiPeriod_util (Some sampleEcliptic) 946728600000 =
     Some (Inr \<lparr>start = 946728000000, end' = 946735800000\<rparr>) \<and>
   isSwathi (siderealFromEcliptic sampleEcliptic 946728000000) \<and>
   \<not> isSwathi (siderealFromEcliptic sampleEcliptic (946728000000 - fineStep)) \<and>
   (\<exists>p. findCurrentOrNextSwathiPeriod J2000 = Some (Inr p) \<and>
      isSwathi (getMoonSiderealLongitude (start p)) \<and>
      \<not> isSwathi (getMoonSiderealLongitude (start p - fineStep)))"
proof -
  from start_is_entry[where lon = sampleLongitude and ref = 3600000
      and p = "\<lparr>start = 0, end' = 7200000\<rparr>"] sample_modeA
  have a: "isSwathi (sampleLongitude 0) \<and> \<not> isSwathi (sampleLongitude (0 - fineStep))"
    by simp
  from start_is_entry[where lon = sampleLongitude and ref = "- 3600000"
      and p = "\<lparr>start = 0, end' = 7200000\<rparr>"] sample_modeB
  have b: "isSwathi (sampleLongitude 0) \<and> \<not> isSwathi (sampleLongitude (0 - fineStep))"
    by simp
  from start_is_entry[where ecl = sampleEcliptic and ref = 946728600000
      and q = "\<lparr>start = 946728000000, end' = 946735800000\<rparr>"] sample_util
  have c: "isSwathi (siderealFromEcliptic sampleEcliptic 946728000000) \<and>
      \<not> isSwathi (siderealFromEcliptic sampleEcliptic (946728000000 - fineStep))"
    by simp
  from findCurrentOrNextSwathiPeriod_succeeds[OF J2000_centuries(1)] obtain p where
    p: "findCurrentOrNextSwathiPeriod J2000 = Some (Inr p)" ..
  with start_is_entry[where lon = getMoonSiderealLongitude and ref = J2000 and p = p]
  have "isSwathi (getMoonSiderealLongitude (start p)) \<and>
      \<not> isSwathi (getMoonSiderealLongitude (start p - fineStep))"
    by (simp add: findCurrentOrNextSwathiPeriod_def)
  with p have d: "\<exists>p. findCurrentOrNextSwathiPeriod J2000 = Some (Inr p) \<and>
      isSwathi (getMoonSiderealLongitude (start p)) \<and>
      \<not> isSwathi (getMoonSiderealLongitude (start p - fineStep))" by blast
  from a b c d sample_modeA sample_modeB sample_util show ?thesis by blast
qed

subsection \<open>C6: the scans end\<close>

text \<open>
  C6. The self-contained locator returns for every reference instant, with a period or
  with the exhausted search: each of its loops ends. The reason is the one the claim
  gives. Inside the band the instant is within 419 centuries of J2000; there the
  unwrapped longitude grows by between 18 and 34 degrees in two days, more than the
  width of the band and less than the rest of the turn, so the coarse probe two days
  away (96 steps) is outside the band, and every fine scan retraces a coarse one.

  The SunCalc version takes its longitude from outside the repository. It returns
  whenever that longitude leaves the band on the coarse grid in both directions from
  every instant inside it, and the scan towards the next period (the one loop the claim
  leaves out) reaches the band.
\<close>

theorem all_scans_end:
  "(\<exists>r. findCurrentOrNextSwathiPeriod ref = Some r) \<and>
   ((\<forall>t. isSwathi (lon t) \<longrightarrow>
        (\<exists>k::nat. \<not> isSwathi (lon (t - int k * coarseStep_util))) \<and>
        (\<exists>k::nat. \<not> isSwathi (lon (t + int k * coarseStep_util)))) \<and>
    (\<exists>k::nat. isSwathi (lon (ref + int k * coarseStep_util))) \<longrightarrow>
    (\<exists>q. findPeriodWith_util lon ref = Some q))"
proof (intro conjI impI)
  show "\<exists>r. findCurrentOrNextSwathiPeriod ref = Some r"
    by (rule findCurrentOrNextSwathiPeriod_returns)
next
  assume h: "(\<forall>t. isSwathi (lon t) \<longrightarrow>
        (\<exists>k::nat. \<not> isSwathi (lon (t - int k * coarseStep_util))) \<and>
        (\<exists>k::nat. \<not> isSwathi (lon (t + int k * coarseStep_util)))) \<and>
    (\<exists>k::nat. isSwathi (lon (ref + int k * coarseStep_util)))"
  show "\<exists>q. findPeriodWith_util lon ref = Some q"
  proof (rule findPeriodWith_util_returns)
    fix t assume "isSwathi (lon t)"
    with h obtain k :: nat where "\<not> isSwathi (lon (t - int k * coarseStep_util))" by blast
    then have "\<not> isSwathi (lon (t + int k * - coarseStep_util))" by simp
    then show "\<exists>k::nat. \<not> isSwathi (lon (t + int k * - coarseStep_util))" ..
  next
    fix t assume "isSwathi (lon t)"
    with h show "\<exists>k::nat. \<not> isSwathi (lon (t + int k * coarseStep_util))" by blast
  next
    from h show "\<exists>k::nat. isSwathi (lon (ref + int k * coarseStep_util))" by blast
  qed
qed

theorem all_scans_end_witness:
  "(\<exists>r. findCurrentOrNextSwathiPeriod J2000 = Some r) \<and>
   (\<exists>q. findPeriodWith_util sampleLongitude 3600000 = Some q) \<and>
   findPeriodWith_util sampleLongitude 3600000 = Some \<lparr>start = 0, end' = 7200000\<rparr>"
proof -
  have inside: "isSwathi (sampleLongitude t) \<longleftrightarrow> 0 \<le> t \<and> t < 7200000" for t
    by (simp add: isSwathi_samples)
  have "\<forall>t. isSwathi (sampleLongitude t) \<longrightarrow>
        (\<exists>k::nat. \<not> isSwathi (sampleLongitude (t - int k * coarseStep_util))) \<and>
        (\<exists>k::nat. \<not> isSwathi (sampleLongitude (t + int k * coarseStep_util)))"
  proof (intro allI impI conjI)
    fix t assume "isSwathi (sampleLongitude t)"
    then have t: "0 \<le> t" "t < 7200000" unfolding inside by simp_all
    have "\<not> isSwathi (sampleLongitude (t - int 2 * coarseStep_util))"
      unfolding inside using t by (simp add: coarseStep_util_def)
    then show "\<exists>k::nat. \<not> isSwathi (sampleLongitude (t - int k * coarseStep_util))" ..
    have "\<not> isSwathi (sampleLongitude (t + int 2 * coarseStep_util))"
      unfolding inside using t by (simp add: coarseStep_util_def)
    then show "\<exists>k::nat. \<not> isSwathi (sampleLongitude (t + int k * coarseStep_util))" ..
  qed
  moreover have "isSwathi (sampleLongitude (3600000 + int 0 * coarseStep_util))"
    by (simp add: isSwathi_samples)
  then have "\<exists>k::nat. isSwathi (sampleLongitude (3600000 + int k * coarseStep_util))" ..
  ultimately show ?thesis
    using all_scans_end[of J2000 sampleLongitude] all_scans_end[of 3600000 sampleLongitude]
      sample_modeA_util
    by blast
qed

subsection \<open>C8: what the result depends on\<close>

text \<open>
  C8 says that a locator depends on its reference instant and on no mutable state. The
  SunCalc version reads the global \<open>window.SunCalc\<close>. Called on one and the same
  \<open>Date\<close> object, which holds 2000-01-01T12:10:00Z, it throws when SunCalc is
  undefined, returns the period from 12:00:00 to 14:10:00 with the first stand-in for
  SunCalc and the period from 12:00:00 to 15:10:00 with the second.
\<close>

theorem locate_pure_counterexample:
  "outcome (findCurrentOrNextSwathiPeriod_heap_util 0
      \<lparr>dates = \<lambda>d. 946728600000, allocated = 1, SunCalc = None, clock = 0\<rparr>)
     = Some (Inl SunCalcNotLoaded) \<and>
   outcome (findCurrentOrNextSwathiPeriod_heap_util 0
      \<lparr>dates = \<lambda>d. 946728600000, allocated = 1, SunCalc = Some sampleEcliptic, clock = 0\<rparr>)
     = Some (Inr \<lparr>start = 946728000000, end' = 946735800000\<rparr>) \<and>
   outcome (findCurrentOrNextSwathiPeriod_heap_util 0
      \<lparr>dates = \<lambda>d. 946728600000, allocated = 1, SunCalc = Some otherEcliptic, clock = 0\<rparr>)
     = Some (Inr \<lparr>start = 946728000000, end' = 946739400000\<rparr>)"
proof -
  have "findCurrentOrNextSwathiPeriod_util None 946728600000 = Some (Inl SunCalcNotLoaded)"
    by (simp add: findCurrentOrNextSwathiPeriod_util_def)
  then show ?thesis
    unfolding heap_outcome
    by (simp only: getTime_def world.select_convs sample_util other_util simp_thms)
qed

text \<open>
  C8, amended. Two calls of the self-contained locator whose reference \<open>Date\<close>s
  hold the same time value have the same outcome: periods with equal start and equal
  end, or the same error, or no return; whatever the two stores, the clocks and SunCalc
  are. A call changes no \<open>Date\<close> that existed before it (its argument among
  them), nor SunCalc, nor the clock, so a second call on the same \<open>Date\<close> object
  returns what the first returned. The same holds for the SunCalc version and two calls
  made with the same SunCalc.
\<close>

theorem locate_pure:
  "(getTime w a = getTime v b \<longrightarrow>
      outcome (findCurrentOrNextSwathiPeriod_heap a w) =
      outcome (findCurrentOrNextSwathiPeriod_heap b v)) \<and>
   (findCurrentOrNextSwathiPeriod_heap a w = Some (r, w') \<longrightarrow> unchanged w w') \<and>
   (a < allocated w \<and> findCurrentOrNextSwathiPeriod_heap a w = Some (r, w') \<longrightarrow>
      outcome (findCurrentOrNextSwathiPeriod_heap a w') = outcome (Some (r, w'))) \<and>
   (getTime w a = getTime v b \<and> SunCalc w = SunCalc v \<longrightarrow>
      outcome (findCurrentOrNextSwathiPeriod_heap_util a w) =
      outcome (findCurrentOrNextSwathiPeriod_heap_util b v)) \<and>
   (findCurrentOrNextSwathiPeriod_heap_util a w = Some (r, w') \<longrightarrow> unchanged w w') \<and>
   (a < allocated w \<and> findCurrentOrNextSwathiPeriod_heap_util a w = Some (r, w') \<longrightarrow>
      outcome (findCurrentOrNextSwathiPeriod_heap_util a w') = outcome (Some (r, w')))"
proof (intro conjI impI)
  assume "getTime w a = getTime v b"
  then show "outcome (findCurrentOrNextSwathiPeriod_heap a w) =
      outcome (findCurrentOrNextSwathiPeriod_heap b v)" by (simp only: heap_outcome)
next
  assume "findCurrentOrNextSwathiPeriod_heap a w = Some (r, w')"
  then show "unchanged w w'" by (rule heap_frame)
next
  assume h: "a < allocated w \<and> findCurrentOrNextSwathiPeriod_heap a w = Some (r, w')"
  then have "unchanged w w'" using heap_frame(2) by blast
  with h have "getTime w' a = getTime w a" by (simp add: unchanged_def)
  then have "outcome (findCurrentOrNextSwathiPeriod_heap a w') =
      outcome (findCurrentOrNextSwathiPeriod_heap a w)" by (simp only: heap_outcome)
  with h show "outcome (findCurrentOrNextSwathiPeriod_heap a w') = outcome (Some (r, w'))"
    by simp
next
  assume "getTime w a = getTime v b \<and> SunCalc w = SunCalc v"
  then show "outcome (findCurrentOrNextSwathiPeriod_heap_util a w) =
      outcome (findCurrentOrNextSwathiPeriod_heap_util b v)" by (simp only: heap_outcome)
next
  assume "findCurrentOrNextSwathiPeriod_heap_util a w = Some (r, w')"
  then show "unchanged w w'" by (rule heap_frame)
next
  assume h: "a < allocated w \<and> findCurrentOrNextSwathiPeriod_heap_util a w = Some (r, w')"
  then have "unchanged w w'" using heap_frame(3) by blast
  with h have "getTime w' a = getTime w a" "SunCalc w' = SunCalc w"
    by (simp_all add: unchanged_def)
  then have "outcome (findCurrentOrNextSwathiPeriod_heap_util a w') =
      outcome (findCurrentOrNextSwathiPeriod_heap_util a w)" by (simp only: heap_outcome)
  with h show "outcome (findCurrentOrNextSwathiPeriod_heap_util a w') = outcome (Some (r, w'))"
    by simp
qed

theorem locate_pure_witness:
  "outcome (findCurrentOrNextSwathiPeriod_heap 0
      \<lparr>dates = \<lambda>d. J2000, allocated = 1, SunCalc = None, clock = 0\<rparr>) =
   outcome (findCurrentOrNextSwathiPeriod_heap 3
      \<lparr>dates = (\<lambda>d. 5)(3 := J2000), allocated = 7, SunCalc = Some sampleEcliptic,
       clock = 1000000\<rparr>) \<and>
   (\<exists>r w'. findCurrentOrNextSwathiPeriod_heap 0
        \<lparr>dates = \<lambda>d. J2000, allocated = 1, SunCalc = None, clock = 0\<rparr> = Some (r, w') \<and>
      unchanged \<lparr>dates = \<lambda>d. J2000, allocated = 1, SunCalc = None, clock = 0\<rparr> w' \<and>
      outcome (findCurrentOrNextSwathiPeriod_heap 0 w') = outcome (Some (r, w'))) \<and>
   findCurrentOrNextSwathiPeriod_heap_util 0
      \<lparr>dates = \<lambda>d. 946728600000, allocated = 1, SunCalc = Some sampleEcliptic, clock = 0\<rparr> =
     Some (Inr (2, 3),
       \<lparr>dates = (\<lambda>d. 946728600000)(2 := 946728000000, 3 := 946735800000), allocated = 4,
        SunCalc = Some sampleEcliptic, clock = 0\<rparr>) \<and>
   unchanged
      \<lparr>dates = \<lambda>d. 946728600000, allocated = 1, SunCalc = Some sampleEcliptic, clock = 0\<rparr>
      \<lparr>dates = (\<lambda>d. 946728600000)(2 := 946728000000, 3 := 946735800000), allocated = 4,
        SunCalc = Some sampleEcliptic, clock = 0\<rparr> \<and>
   outcome (findCurrentOrNextSwathiPeriod_heap_util 0
      \<lparr>dates = (\<lambda>d. 946728600000)(2 := 946728000000, 3 := 946735800000), allocated = 4,
        SunCalc = Some sampleEcliptic, clock = 0\<rparr>) =
     Some (Inr \<lparr>start = 946728000000, end' = 946735800000\<rparr>) \<and>
   outcome (findCurrentOrNextSwathiPeriod_heap_util 3
      \<lparr>dates = (\<lambda>d. 5)(3 := 946728600000), allocated = 7, SunCalc = Some sampleEcliptic,
       clock = 1000000\<rparr>) =
     Some (Inr \<lparr>start = 946728000000, end' = 946735800000\<rparr>)"
proof -
  let ?wA = "\<lparr>dates = \<lambda>d. J2000, allocated = 1, SunCalc = None, clock = 0\<rparr>"
  let ?wB = "\<lparr>dates = (\<lambda>d. 5)(3 := J2000), allocated = 7, SunCalc = Some sampleEcliptic,
       clock = 1000000\<rparr>"
  let ?wC = "\<lparr>dates = \<lambda>d. 946728600000, allocated = 1, SunCalc = Some sampleEcliptic,
       clock = 0\<rparr>"
  let ?wC' = "\<lparr>dates = (\<lambda>d. 946728600000)(2 := 946728000000, 3 := 946735800000), allocated = 4,
        SunCalc = Some sampleEcliptic, clock = 0\<rparr>"
  let ?wD = "\<lparr>dates = (\<lambda>d. 5)(3 := 946728600000), allocated = 7,
       SunCalc = Some sampleEcliptic, clock = 1000000\<rparr>"
  have "getTime ?wA 0 = getTime ?wB 3" by (simp add: getTime_def)
  with locate_pure[where w = ?wA and a = 0 and v = ?wB and b = 3]
  have a: "outcome (findCurrentOrNextSwathiPeriod_heap 0 ?wA) =
      outcome (findCurrentOrNextSwathiPeriod_heap 3 ?wB)" by blast
  from findCurrentOrNextSwathiPeriod_succeeds[OF J2000_centuries(1)] obtain p where
    "findCurrentOrNextSwathiPeriod J2000 = Some (Inr p)" ..
  then have "outcome (findCurrentOrNextSwathiPeriod_heap 0 ?wA) = Some (Inr p)"
    by (simp add: heap_outcome getTime_def)
  then obtain r w' where run: "findCurrentOrNextSwathiPeriod_heap 0 ?wA = Some (r, w')"
    by (cases "findCurrentOrNextSwathiPeriod_heap 0 ?wA") auto
  have "0 < allocated ?wA" by simp
  with run locate_pure[where w = ?wA and a = 0 and r = r and w' = w']
  have "unchanged ?wA w' \<and>
      outcome (findCurrentOrNextSwathiPeriod_heap 0 w') = outcome (Some (r, w'))" by blast
  with run have b: "\<exists>r w'. findCurrentOrNextSwathiPeriod_heap 0 ?wA = Some (r, w') \<and>
      unchanged ?wA w' \<and>
      outcome (findCurrentOrNextSwathiPeriod_heap 0 w') = outcome (Some (r, w'))" by blast
  note c = sample_heap_util
  have "0 < allocated ?wC" by simp
  with c locate_pure[where w = ?wC and a = 0 and r = "Inr (2, 3)" and w' = ?wC']
  have d: "unchanged ?wC ?wC'"
    "outcome (findCurrentOrNextSwathiPeriod_heap_util 0 ?wC') = outcome (Some (Inr (2, 3), ?wC'))"
    by blast+
  have e: "outcome (Some (Inr (2, 3), ?wC')) =
      Some (Inr \<lparr>start = 946728000000, end' = 946735800000\<rparr>)"
    by (simp add: getTime_def)
  have "getTime ?wD 3 = getTime ?wC 0 \<and> SunCalc ?wD = SunCalc ?wC"
    by (simp add: getTime_def)
  with locate_pure[where w = ?wD and a = 3 and v = ?wC and b = 0]
  have "outcome (findCurrentOrNextSwathiPeriod_heap_util 3 ?wD) =
      outcome (findCurrentOrNextSwathiPeriod_heap_util 0 ?wC)" by blast
  also have "\<dots> = outcome (Some (Inr (2, 3), ?wC'))" by (simp only: c)
  finally have f: "outcome (findCurrentOrNextSwathiPeriod_heap_util 3 ?wD) =
      Some (Inr \<lparr>start = 946728000000, end' = 946735800000\<rparr>)" using e by simp
  from a b c d e f show ?thesis by (simp only: simp_thms)
qed

subsection \<open>C9: successive periods\<close>

text \<open>
  C9 says that the second call yields a period. It need not: the self-contained locator
  gives up after thirty days. A call returns a period only for a reference instant
  within 419 centuries of J2000 (later the ayanamsha keeps the longitude out of the
  band), so among the reference instants after J2000 for which a period is returned
  there is a last one, and the call one millisecond after the end of its period fails
  with the exhausted search.
\<close>

theorem successive_periods_counterexample:
  "\<exists>ref p. findCurrentOrNextSwathiPeriod ref = Some (Inr p) \<and>
     findCurrentOrNextSwathiPeriod (end' p + 1) = Some (Inl SearchExhausted)"
proof -
  define S where "S = {ref. J2000 \<le> ref \<and> (\<exists>p. findCurrentOrNextSwathiPeriod ref = Some (Inr p))}"
  define B :: int where "B = J2000 + 419 * 36525 * 86400000"
  have "S \<subseteq> {J2000..B}"
  proof
    fix r assume "r \<in> S"
    then obtain p where r: "J2000 \<le> r" "findCurrentOrNextSwathiPeriod r = Some (Inr p)"
      unfolding S_def by blast
    from success_bounded(2)[OF r(2)] have "r \<le> B"
      unfolding julianCenturies_eq B_def J2000_def by simp
    with r(1) show "r \<in> {J2000..B}" by simp
  qed
  then have fin: "finite S" by (rule finite_subset) simp
  have "J2000 \<in> S" unfolding S_def
    using findCurrentOrNextSwathiPeriod_succeeds[OF J2000_centuries(1)] by simp
  then have ne: "S \<noteq> {}" by blast
  define m where "m = Max S"
  have mS: "m \<in> S" unfolding m_def using fin ne by (rule Max_in)
  then obtain p where m: "J2000 \<le> m" "findCurrentOrNextSwathiPeriod m = Some (Inr p)"
    unfolding S_def by blast
  from success_bounded(1)[OF m(2)] have gt: "m < end' p + 1" by simp
  from findCurrentOrNextSwathiPeriod_returns obtain r where
    r: "findCurrentOrNextSwathiPeriod (end' p + 1) = Some r" ..
  have "r = Inl SearchExhausted"
  proof (cases r)
    case (Inl e)
    with r locate_error_exhausted show ?thesis by blast
  next
    case (Inr p2)
    with r m(1) gt have "end' p + 1 \<in> S" unfolding S_def by simp
    then have "end' p + 1 \<le> m" unfolding m_def using fin by simp
    with gt show ?thesis by simp
  qed
  with r m(2) show ?thesis by blast
qed

text \<open>
  C9, amended. When the self-contained locator returns the period \<open>p\<close> for some
  reference instant and, called again one millisecond after the end of \<open>p\<close>,
  returns a period, that period does not start before that end. One fine step before the
  end the Moon was inside the band and at the end it is outside; it moves forward by less
  than 0.012 degrees in a minute, so it is still outside one millisecond later, and the
  second search is one towards the next period, which starts after its reference
  instant. For a reference instant within 199 centuries of J2000 both calls do return a
  period.
\<close>

theorem successive_periods:
  "(findCurrentOrNextSwathiPeriod ref = Some (Inr p) \<and>
    findCurrentOrNextSwathiPeriod (end' p + 1) = Some (Inr p2) \<longrightarrow> end' p \<le> start p2) \<and>
   (\<bar>julianCenturies ref\<bar> \<le> 199 \<longrightarrow>
      (\<exists>q q2. findCurrentOrNextSwathiPeriod ref = Some (Inr q) \<and>
         findCurrentOrNextSwathiPeriod (end' q + 1) = Some (Inr q2) \<and> end' q \<le> start q2))"
proof -
  have no_overlap: "end' a \<le> start b"
    if a: "findCurrentOrNextSwathiPeriod r = Some (Inr a)"
      and b: "findCurrentOrNextSwathiPeriod (end' a + 1) = Some (Inr b)" for r a b
  proof -
    from a b have pa: "findPeriodWith getMoonSiderealLongitude r = Some (Inr a)"
      and pb: "findPeriodWith getMoonSiderealLongitude (end' a + 1) = Some (Inr b)"
      by (simp_all add: findCurrentOrNextSwathiPeriod_def)
    from findPeriodWith_spec[OF pa]
    have "isSwathi (getMoonSiderealLongitude (end' a - fineStep))"
      "\<not> isSwathi (getMoonSiderealLongitude (end' a))" by blast+
    then have "\<not> isSwathi (getMoonSiderealLongitude (end' a + 1))" by (rule band_exit_persists)
    with findPeriodWith_spec[OF pb] have "end' a + 1 < start b" by simp
    then show ?thesis by simp
  qed
  show ?thesis
  proof (intro conjI impI)
    assume "findCurrentOrNextSwathiPeriod ref = Some (Inr p) \<and>
      findCurrentOrNextSwathiPeriod (end' p + 1) = Some (Inr p2)"
    then show "end' p \<le> start p2" using no_overlap by blast
  next
    assume "\<bar>julianCenturies ref\<bar> \<le> 199"
    from successive_periods_exist[OF this] obtain q q2 where
      q: "findCurrentOrNextSwathiPeriod ref = Some (Inr q)"
        "findCurrentOrNextSwathiPeriod (end' q + 1) = Some (Inr q2)" by blast
    from no_overlap[OF q] q
    show "\<exists>q q2. findCurrentOrNextSwathiPeriod ref = Some (Inr q) \<and>
         findCurrentOrNextSwathiPeriod (end' q + 1) = Some (Inr q2) \<and> end' q \<le> start q2"
      by blast
  qed
qed

theorem successive_periods_witness:
  "\<bar>julianCenturies J2000\<bar> \<le> 199 \<and>
   (\<exists>p p2. findCurrentOrNextSwathiPeriod J2000 = Some (Inr p) \<and>
      findCurrentOrNextSwathiPeriod (end' p + 1) = Some (Inr p2) \<and> end' p \<le> start p2)"
proof -
  from successive_periods[of J2000] J2000_centuries(2) obtain p p2 where
    a: "findCurrentOrNextSwathiPeriod J2000 = Some (Inr p)"
      "findCurrentOrNextSwathiPeriod (end' p + 1) = Some (Inr p2)" by blast
  with successive_periods[of J2000 p p2] have "end' p \<le> start p2" by blast
  with a J2000_centuries(2) show ?thesis by blast
qed

end
